(* ===== verification/Prelude.thy ===== *)
theory Prelude
  imports Main "HOL-Library.Word" "HOL-Library.AList" "HOL-Library.Sublist"
    "HOL-Library.Signed_Division" "HOL-Library.List_Lexorder" "HOL-Library.Char_ord"
    "HOL-Library.Code_Target_Numeral"
begin

text \<open>
  What every component of the development shares: Go's \<open>(value, error)\<close> results as sums,
  64-bit integers as \<^typ>\<open>int\<close> with the wrap-around written out, association lists used as
  finite maps, runs of a step function, and the two interfaces that several components
  instantiate (codecs with a round-trip law, systems with an invariant).
\<close>

section \<open>Results\<close>

text \<open>
  A Go function that returns \<open>(T, error)\<close> is a function into \<open>'e + 'a\<close>: \<open>Inl\<close> is the
  non-nil error, \<open>Inr\<close> the value with a nil error.
\<close>

definition is_ok :: "'e + 'a \<Rightarrow> bool" where
  "is_ok r = (case r of Inl _ \<Rightarrow> False | Inr _ \<Rightarrow> True)"

lemma is_ok_simps [simp]: "is_ok (Inl e) = False" "is_ok (Inr x) = True"
  by (simp_all add: is_ok_def)

lemma is_ok_iff: "is_ok r \<longleftrightarrow> (\<exists>x. r = Inr x)"
  by (cases r) auto

text \<open>
  Rules that read a successful result backwards through the early returns of a body. A component
  adds its own inversion lemmas.
\<close>

named_theorems ok_split "case splits for results, options and guards"

lemmas [ok_split] = sum.splits option.splits if_splits prod.splits

text \<open>
  \<open>if err != nil { return ..., err }\<close> after a call that may have changed the state: the disk for the
  store, the state of the client for the collector.
\<close>

definition and_then :: "('e + 'a) \<times> 's \<Rightarrow> ('a \<Rightarrow> 's \<Rightarrow> ('e + 'b) \<times> 's) \<Rightarrow> ('e + 'b) \<times> 's" where
  "and_then r f = (case r of (Inl e, s) \<Rightarrow> (Inl e, s) | (Inr x, s) \<Rightarrow> f x s)"

lemma and_then_ok:
  "and_then r f = (Inr y, s') \<longleftrightarrow> (\<exists>x s. r = (Inr x, s) \<and> f x s = (Inr y, s'))"
  by (auto simp: and_then_def split: ok_split)

lemma and_then_simps [simp]: "and_then (Inl e, s) f = (Inl e, s)" "and_then (Inr x, s) f = f x s"
  by (simp_all add: and_then_def)

text \<open>
  What every step of a chain keeps, the chain keeps: a relation between the state before and after that
  is reflexive and transitive.
\<close>

locale step_relation =
  fixes R :: "'s \<Rightarrow> 's \<Rightarrow> bool"
  assumes refl: "R s s" and trans: "R s t \<Longrightarrow> R t u \<Longrightarrow> R s u"
begin

lemma and_then:
  assumes "R s (snd r)" and "\<And>x t. r = (Inr x, t) \<Longrightarrow> R t (snd (f x t))"
  shows "R s (snd (and_then r f))"
  using assms by (cases r) (auto simp: and_then_def split: sum.split intro: trans)

end

section \<open>Machine integers\<close>

text \<open>Go's \<open>int\<close> and \<open>int64\<close> on a 64-bit platform: two's complement, wrapping.\<close>

type_synonym int64 = int

definition wrap64 :: "int \<Rightarrow> int64" where
  "wrap64 x = (x + 2 ^ 63) mod 2 ^ 64 - 2 ^ 63"

definition in_int64 :: "int \<Rightarrow> bool" where
  "in_int64 x \<longleftrightarrow> - (2 ^ 63) \<le> x \<and> x < 2 ^ 63"

lemma wrap64_id: "in_int64 x \<Longrightarrow> wrap64 x = x"
  by (simp add: wrap64_def in_int64_def)

lemma in_int64_wrap64: "in_int64 (wrap64 x)"
proof -
  have "0 \<le> (x + 2 ^ 63) mod 2 ^ 64" and "(x + 2 ^ 63) mod 2 ^ 64 < (2 ^ 64 :: int)"
    by simp_all
  then show ?thesis by (simp add: wrap64_def in_int64_def)
qed

text \<open>Go's integer division truncates; on non-negative operands it is HOL's \<open>div\<close>.\<close>

lemma sdiv_nonneg: "0 \<le> a \<Longrightarrow> 0 \<le> (b :: int) \<Longrightarrow> a sdiv b = a div b"
  by (auto simp: signed_divide_int_def sgn_if)

section \<open>Association lists as finite maps\<close>

lemma map_of_filter_key:
  "map_of (filter (\<lambda>kv. P (fst kv)) xs) k = (if P k then map_of xs k else None)"
  by (induction xs) auto

lemma map_of_Some_iff: "distinct (map fst xs) \<Longrightarrow> map_of xs k = Some v \<longleftrightarrow> (k, v) \<in> set xs"
  by (rule map_of_eq_Some_iff)

section \<open>Lists\<close>

text \<open>The text before and after the first occurrence of a separator.\<close>

lemma takeWhile_neq_append: "c \<notin> set xs \<Longrightarrow> takeWhile (\<lambda>x. x \<noteq> c) (xs @ c # ys) = xs"
  by (induction xs) auto

lemma append_sep_inj:
  assumes "xs @ c # ys = xs' @ c # ys'" and "c \<notin> set xs" and "c \<notin> set xs'"
  shows "xs = xs' \<and> ys = ys'"
proof -
  have "takeWhile (\<lambda>x. x \<noteq> c) (xs @ c # ys) = xs"
    and "takeWhile (\<lambda>x. x \<noteq> c) (xs' @ c # ys') = xs'"
    by (rule takeWhile_neq_append [OF assms(2)], rule takeWhile_neq_append [OF assms(3)])
  with assms(1) have "xs = xs'" by simp
  with assms(1) show ?thesis by simp
qed

lemma sum_list_map_const_add:
  "sum_list (map (\<lambda>x. f x + (c :: int)) xs) = sum_list (map f xs) + c * int (length xs)"
  by (induction xs) (auto simp: algebra_simps)

section \<open>Interfaces\<close>

text \<open>
  A codec: an encoder and a decoder that reads back every good value. Hexadecimal, unpadded
  base64url, UTF-8, decimal numbers and the JSON records of the data directory are codecs.
\<close>

locale codec =
  fixes enc :: "'a \<Rightarrow> 'b" and dec :: "'b \<Rightarrow> 'a option" and good :: "'a \<Rightarrow> bool"
  assumes dec_enc: "good x \<Longrightarrow> dec (enc x) = Some x"
begin

lemma enc_eq_iff: "good x \<Longrightarrow> good y \<Longrightarrow> enc x = enc y \<longleftrightarrow> x = y"
proof
  assume "good x" "good y" "enc x = enc y"
  then have "Some x = Some y" using dec_enc by metis
  then show "x = y" by simp
qed simp

lemma inj_on_enc: "inj_on enc (Collect good)"
  by (auto intro!: inj_onI simp: enc_eq_iff)

end

text \<open>
  A system with a step relation and an invariant that every step keeps, and so every run. The store
  and the failure limiter are such systems.
\<close>

locale invariant_system =
  fixes step :: "'s \<Rightarrow> 's \<Rightarrow> bool" and inv :: "'s \<Rightarrow> bool"
  assumes step_inv: "inv s \<Longrightarrow> step s t \<Longrightarrow> inv t"
begin

lemma run_inv:
  assumes "step\<^sup>*\<^sup>* s t" and "inv s"
  shows "inv t"
  using assms by induction (auto intro: step_inv)

end

text \<open>
  A relation between the first and the last state of every run: a set of files that may only grow,
  a flag that is never cleared.
\<close>

locale monotone_system = invariant_system step inv
  for step :: "'s \<Rightarrow> 's \<Rightarrow> bool" and inv :: "'s \<Rightarrow> bool" +
  fixes rel :: "'s \<Rightarrow> 's \<Rightarrow> bool"
  assumes rel_refl: "rel s s"
    and rel_trans: "rel s t \<Longrightarrow> rel t u \<Longrightarrow> rel s u"
    and step_rel: "inv s \<Longrightarrow> step s t \<Longrightarrow> rel s t"
begin

lemma run_rel:
  assumes "step\<^sup>*\<^sup>* s t" and "inv s"
  shows "rel s t"
  using assms
proof induction
  case base
  show ?case by (rule rel_refl)
next
  case (step t u)
  then have "rel t u" using run_inv step_rel by blast
  with step show ?case using rel_trans by blast
qed

end

end
