(* ===== verification/GoStrings.thy ===== *)
theory GoStrings
  imports Prelude
begin

text \<open>
  The parts of Go's string library that the program uses. A Go string is a sequence of bytes, so
  it is modelled as \<^typ>\<open>string\<close> (a list of 8-bit characters). Iterating over a string
  decodes UTF-8 as \<open>unicode/utf8\<close> does: an invalid byte is the rune U+FFFD of width one.
\<close>

section \<open>Bytes and runes\<close>

abbreviation byte :: "char \<Rightarrow> nat" where
  "byte c \<equiv> of_char c"

abbreviation chr :: "nat \<Rightarrow> char" where
  "chr n \<equiv> char_of n"

lemma byte_less [simp]: "byte c < 256"
  by (rule nat_of_char_less_256)

lemma byte_chr: "n < 256 \<Longrightarrow> byte (chr n) = n"
  by simp

definition rune_error :: nat where
  "rune_error = 0xFFFD"

definition cont_byte :: "char \<Rightarrow> bool" where
  "cont_byte c \<longleftrightarrow> 0x80 \<le> byte c \<and> byte c \<le> 0xBF"

text \<open>\<open>utf8.DecodeRuneInString\<close>: the rune and its width.\<close>

definition decode_rune :: "string \<Rightarrow> nat \<times> nat" where
  "decode_rune s =
     (case s of
        [] \<Rightarrow> (rune_error, 0)
      | a # t \<Rightarrow>
          if byte a < 0x80 then (byte a, 1)
          else if 0xC2 \<le> byte a \<and> byte a \<le> 0xDF \<and> 1 \<le> length t \<and> cont_byte (t ! 0)
          then ((byte a - 0xC0) * 64 + (byte (t ! 0) - 0x80), 2)
          else if 0xE0 \<le> byte a \<and> byte a \<le> 0xEF \<and> 2 \<le> length t
            \<and> cont_byte (t ! 0) \<and> cont_byte (t ! 1)
            \<and> (byte a = 0xE0 \<longrightarrow> 0xA0 \<le> byte (t ! 0))
            \<and> (byte a = 0xED \<longrightarrow> byte (t ! 0) \<le> 0x9F)
          then ((byte a - 0xE0) * 4096 + (byte (t ! 0) - 0x80) * 64 + (byte (t ! 1) - 0x80), 3)
          else if 0xF0 \<le> byte a \<and> byte a \<le> 0xF4 \<and> 3 \<le> length t
            \<and> cont_byte (t ! 0) \<and> cont_byte (t ! 1) \<and> cont_byte (t ! 2)
            \<and> (byte a = 0xF0 \<longrightarrow> 0x90 \<le> byte (t ! 0))
            \<and> (byte a = 0xF4 \<longrightarrow> byte (t ! 0) \<le> 0x8F)
          then ((byte a - 0xF0) * 262144 + (byte (t ! 0) - 0x80) * 4096
                 + (byte (t ! 1) - 0x80) * 64 + (byte (t ! 2) - 0x80), 4)
          else (rune_error, 1))"

text \<open>\<open>string(r)\<close>: the UTF-8 encoding of a rune, U+FFFD for a rune that has none.\<close>

definition scalar :: "nat \<Rightarrow> bool" where
  "scalar r \<longleftrightarrow> r < 0xD800 \<or> (0xE000 \<le> r \<and> r \<le> 0x10FFFF)"

definition encode_rune :: "nat \<Rightarrow> string" where
  "encode_rune r =
     (let r = (if scalar r then r else rune_error) in
      if r < 0x80 then [chr r]
      else if r < 0x800 then [chr (0xC0 + r div 64), chr (0x80 + r mod 64)]
      else if r < 0x10000
      then [chr (0xE0 + r div 4096), chr (0x80 + r div 64 mod 64), chr (0x80 + r mod 64)]
      else [chr (0xF0 + r div 262144), chr (0x80 + r div 4096 mod 64),
            chr (0x80 + r div 64 mod 64), chr (0x80 + r mod 64)])"

lemma decode_rune_width:
  "s \<noteq> [] \<Longrightarrow> 1 \<le> snd (decode_rune s) \<and> snd (decode_rune s) \<le> length s \<and> snd (decode_rune s) \<le> 4"
  by (auto simp: decode_rune_def split: list.splits)

text \<open>
  \<open>for offset, r := range s\<close>: the string cut into the segments the loop visits, each with the
  rune it decodes to.
\<close>

function segs :: "string \<Rightarrow> (nat \<times> string) list" where
  "segs [] = []"
| "segs (c # s) =
     (fst (decode_rune (c # s)), take (snd (decode_rune (c # s))) (c # s))
       # segs (drop (snd (decode_rune (c # s))) (c # s))"
  by pat_completeness auto
termination
proof (relation "measure length")
  fix c :: char and s :: string
  have "1 \<le> snd (decode_rune (c # s))" using decode_rune_width [of "c # s"] by simp
  then show "(drop (snd (decode_rune (c # s))) (c # s), c # s) \<in> measure length" by simp
qed simp

definition runes :: "string \<Rightarrow> nat list" where
  "runes s = map fst (segs s)"

definition utf8 :: "nat list \<Rightarrow> string" where
  "utf8 rs = concat (map encode_rune rs)"

text \<open>\<open>utf8.ValidString\<close>: no segment is a replacement for an invalid byte.\<close>

definition valid_utf8 :: "string \<Rightarrow> bool" where
  "valid_utf8 s \<longleftrightarrow> (\<forall>(r, b) \<in> set (segs s). r \<noteq> rune_error \<or> length b = 3)"

lemma concat_segs: "concat (map snd (segs s)) = s"
  by (induction s rule: segs.induct) auto

lemma segs_ascii: "byte c < 0x80 \<Longrightarrow> segs (c # s) = (byte c, [c]) # segs s"
proof -
  assume "byte c < 0x80"
  then have "decode_rune (c # s) = (byte c, 1)"
    by (simp add: decode_rune_def)
  then show ?thesis by simp
qed

text \<open>Decoding after encoding, at the head of any text.\<close>

lemma cont_chr: "n < 64 \<Longrightarrow> cont_byte (chr (0x80 + n))"
  by (simp add: cont_byte_def byte_chr del: of_char_of)

lemma decode_rune1: "r < 0x80 \<Longrightarrow> decode_rune (chr r # s) = (r, 1)"
  by (simp add: decode_rune_def)

lemma decode_rune2:
  assumes "2 \<le> a" "a < 32" "b < 64"
  shows "decode_rune (chr (0xC0 + a) # chr (0x80 + b) # s) = (a * 64 + b, 2)"
  using assms by (simp add: decode_rune_def cont_chr byte_chr del: of_char_of)

lemma decode_rune3:
  assumes "a < 16" "b < 64" "c < 64" "a = 0 \<Longrightarrow> 0x20 \<le> b" "a = 13 \<Longrightarrow> b \<le> 0x1F"
  shows "decode_rune (chr (0xE0 + a) # chr (0x80 + b) # chr (0x80 + c) # s)
    = (a * 4096 + b * 64 + c, 3)"
  using assms by (simp add: decode_rune_def cont_chr byte_chr del: of_char_of)

lemma decode_rune4:
  assumes "a < 5" "b < 64" "c < 64" "d < 64" "a = 0 \<Longrightarrow> 0x10 \<le> b" "a = 4 \<Longrightarrow> b \<le> 0xF"
  shows "decode_rune (chr (0xF0 + a) # chr (0x80 + b) # chr (0x80 + c) # chr (0x80 + d) # s)
    = (a * 262144 + b * 4096 + c * 64 + d, 4)"
  using assms by (simp add: decode_rune_def cont_chr byte_chr del: of_char_of)

lemma div_digits: "(r :: nat) div 4096 = r div 64 div 64" "r div 262144 = r div 4096 div 64"
  by (simp_all flip: div_mult2_eq)

lemma div_mod_digits:
  fixes r :: nat
  shows "r div 64 * 64 + r mod 64 = r"
    and "r div 4096 * 4096 + r div 64 mod 64 * 64 + r mod 64 = r"
    and "r div 262144 * 262144 + r div 4096 mod 64 * 4096 + r div 64 mod 64 * 64 + r mod 64 = r"
proof -
  have "q div 64 * 64 + q mod 64 = q" for q :: nat by simp
  note d = this [of r] this [of "r div 64"] this [of "r div 4096"]
  show "r div 64 * 64 + r mod 64 = r"
    and "r div 4096 * 4096 + r div 64 mod 64 * 64 + r mod 64 = r"
    and "r div 262144 * 262144 + r div 4096 mod 64 * 4096 + r div 64 mod 64 * 64 + r mod 64 = r"
    using d by (simp_all only: div_digits)
qed

text \<open>What the ranges of the lead byte rest on: no overlong form, no surrogate, no rune past the last.\<close>

lemma three_byte_digits:
  assumes "0x800 \<le> r" "r < 0x10000" "scalar r"
  shows "r div 4096 < 16" and "r div 4096 = 0 \<Longrightarrow> 0x20 \<le> r div 64 mod 64"
    and "r div 4096 = 13 \<Longrightarrow> r div 64 mod 64 \<le> 0x1F"
proof -
  have q: "r div 64 * 64 \<le> r" "r < r div 64 * 64 + 64" by simp_all
  have p: "r div 4096 * 64 + r div 64 mod 64 = r div 64" by (simp add: div_digits)
  have m: "r div 64 mod 64 < 64" by simp
  show "r div 4096 < 16" "r div 4096 = 0 \<Longrightarrow> 0x20 \<le> r div 64 mod 64"
    "r div 4096 = 13 \<Longrightarrow> r div 64 mod 64 \<le> 0x1F"
    using q p m assms unfolding scalar_def by linarith+
qed

lemma four_byte_digits:
  assumes "0x10000 \<le> r" "scalar r"
  shows "r div 262144 < 5" and "r div 262144 = 0 \<Longrightarrow> 0x10 \<le> r div 4096 mod 64"
    and "r div 262144 = 4 \<Longrightarrow> r div 4096 mod 64 \<le> 0xF"
proof -
  have q: "r div 4096 * 4096 \<le> r" "r < r div 4096 * 4096 + 4096" by simp_all
  have p: "r div 262144 * 64 + r div 4096 mod 64 = r div 4096" by (simp add: div_digits)
  have m: "r div 4096 mod 64 < 64" by simp
  show "r div 262144 < 5" "r div 262144 = 0 \<Longrightarrow> 0x10 \<le> r div 4096 mod 64"
    "r div 262144 = 4 \<Longrightarrow> r div 4096 mod 64 \<le> 0xF"
    using q p m assms unfolding scalar_def by linarith+
qed

lemma decode_encode_rune:
  assumes "scalar r"
  shows "decode_rune (encode_rune r @ s) = (r, length (encode_rune r))"
proof -
  consider "r < 0x80" | "\<not> r < 0x80" "r < 0x800" | "\<not> r < 0x80" "\<not> r < 0x800" "r < 0x10000"
    | "\<not> r < 0x80" "\<not> r < 0x800" "\<not> r < 0x10000"
    by blast
  then show ?thesis
  proof cases
    case 1
    then show ?thesis by (simp add: encode_rune_def assms decode_rune1)
  next
    case 2
    have "2 \<le> r div 64" "r div 64 < 32" using 2 by auto
    then have "decode_rune (chr (0xC0 + r div 64) # chr (0x80 + r mod 64) # s) = (r, 2)"
      using decode_rune2 [of "r div 64" "r mod 64" s] div_mod_digits(1) by simp
    with 2 show ?thesis by (simp only: encode_rune_def assms Let_def if_True if_False) simp
  next
    case 3
    note d = three_byte_digits [OF _ _ assms]
    from 3 have "decode_rune (chr (0xE0 + r div 4096) # chr (0x80 + r div 64 mod 64)
        # chr (0x80 + r mod 64) # s) = (r, 3)"
      using decode_rune3 [of "r div 4096" "r div 64 mod 64" "r mod 64" s] div_mod_digits(2) d
      by simp
    with 3 show ?thesis by (simp only: encode_rune_def assms Let_def if_True if_False) simp
  next
    case 4
    note d = four_byte_digits [OF _ assms]
    from 4 have "decode_rune (chr (0xF0 + r div 262144) # chr (0x80 + r div 4096 mod 64)
        # chr (0x80 + r div 64 mod 64) # chr (0x80 + r mod 64) # s) = (r, 4)"
      using decode_rune4 [of "r div 262144" "r div 4096 mod 64" "r div 64 mod 64" "r mod 64" s]
        div_mod_digits(3) d by simp
    with 4 show ?thesis by (simp only: encode_rune_def assms Let_def if_True if_False) simp
  qed
qed

lemma encode_rune_nonempty [simp]: "encode_rune r \<noteq> []"
  by (simp add: encode_rune_def Let_def)

lemma segs_encode_rune:
  assumes "scalar r"
  shows "segs (encode_rune r @ s) = (r, encode_rune r) # segs s"
proof -
  obtain c t where ct: "encode_rune r = c # t" by (cases "encode_rune r") auto
  have "decode_rune (c # t @ s) = (r, Suc (length t))"
    using decode_encode_rune [OF assms, of s] by (simp add: ct)
  then show ?thesis by (simp add: ct)
qed

lemma segs_utf8: "\<forall>r \<in> set rs. scalar r \<Longrightarrow> segs (utf8 rs) = map (\<lambda>r. (r, encode_rune r)) rs"
  by (induction rs) (simp_all add: utf8_def segs_encode_rune)

lemma runes_utf8: "\<forall>r \<in> set rs. scalar r \<Longrightarrow> runes (utf8 rs) = rs"
  by (simp add: runes_def segs_utf8 comp_def)


text \<open>A valid text is the encoding of its runes, so texts can be handled as lists of runes.\<close>

lemma digits64: "(b :: nat) < 64 \<Longrightarrow> (a * 64 + b) div 64 = a" "(b :: nat) < 64 \<Longrightarrow> (a * 64 + b) mod 64 = b"
  by simp_all

lemma encode_rune2:
  assumes "2 \<le> a" "a < 32" "b < 64"
  shows "scalar (a * 64 + b)" and "encode_rune (a * 64 + b) = [chr (0xC0 + a), chr (0x80 + b)]"
proof -
  have r: "0x80 \<le> a * 64 + b" "a * 64 + b < 0x800" using assms by linarith+
  then show "scalar (a * 64 + b)" by (simp add: scalar_def)
  with r digits64 [OF assms(3), of a] show "encode_rune (a * 64 + b) = [chr (0xC0 + a), chr (0x80 + b)]"
    by (simp add: encode_rune_def del: char_of_mod_256)
qed

lemma encode_rune3:
  assumes "a < 16" "b < 64" "c < 64" "a = 0 \<Longrightarrow> 0x20 \<le> b" "a = 13 \<Longrightarrow> b \<le> 0x1F"
  defines "r \<equiv> a * 4096 + b * 64 + c"
  shows "scalar r" and "encode_rune r = [chr (0xE0 + a), chr (0x80 + b), chr (0x80 + c)]"
proof -
  have r: "0x800 \<le> r" "r < 0x10000" using assms by (cases "a = 0", auto)
  consider "a < 13" | "a = 13" | "13 < a" by linarith
  then have sc: "scalar r" using assms(1-5) unfolding scalar_def r_def by cases auto
  then show "scalar r" .
  have eq: "r = (a * 64 + b) * 64 + c" by (simp add: r_def)
  have "r div 64 = a * 64 + b" "r mod 64 = c"
    unfolding eq by (rule digits64 [OF assms(3)])+
  then have "r div 4096 = a" "r div 64 mod 64 = b" "r mod 64 = c"
    using digits64 [OF assms(2), of a] by (simp_all only: div_digits)
  with r sc show "encode_rune r = [chr (0xE0 + a), chr (0x80 + b), chr (0x80 + c)]"
    by (simp only: encode_rune_def Let_def if_True) simp
qed

lemma encode_rune4:
  assumes "a < 5" "b < 64" "c < 64" "d < 64" "a = 0 \<Longrightarrow> 0x10 \<le> b" "a = 4 \<Longrightarrow> b \<le> 0xF"
  defines "r \<equiv> a * 262144 + b * 4096 + c * 64 + d"
  shows "scalar r"
    and "encode_rune r = [chr (0xF0 + a), chr (0x80 + b), chr (0x80 + c), chr (0x80 + d)]"
proof -
  have r: "0x10000 \<le> r" using assms by (cases "a = 0", auto)
  have "r \<le> 0x10FFFF" using assms by (cases "a = 4", auto)
  with r have sc: "scalar r" by (simp add: scalar_def)
  then show "scalar r" .
  have eq: "r = ((a * 64 + b) * 64 + c) * 64 + d" by (simp add: r_def)
  have "r div 64 = (a * 64 + b) * 64 + c" "r mod 64 = d"
    unfolding eq by (rule digits64 [OF assms(4)])+
  then have "r div 262144 = a" "r div 4096 mod 64 = b" "r div 64 mod 64 = c" "r mod 64 = d"
    using digits64 [OF assms(3), of "a * 64 + b"] digits64 [OF assms(2), of a]
    by (simp_all only: div_digits)
  with r sc show "encode_rune r = [chr (0xF0 + a), chr (0x80 + b), chr (0x80 + c), chr (0x80 + d)]"
    by (simp only: encode_rune_def Let_def if_True) simp
qed

lemma chr_byte_plus: "n \<le> byte c \<Longrightarrow> chr (n + (byte c - n)) = c"
  by simp

lemma cont_digit: "cont_byte c \<Longrightarrow> byte c - 0x80 < 64 \<and> 0x80 \<le> byte c"
  by (auto simp: cont_byte_def)

lemma take_nth:
  "1 \<le> length t \<Longrightarrow> take 2 (a # t) = [a, t ! 0]"
  "2 \<le> length t \<Longrightarrow> take 3 (a # t) = [a, t ! 0, t ! 1]"
  "3 \<le> length t \<Longrightarrow> take 4 (a # t) = [a, t ! 0, t ! 1, t ! 2]"
  by (cases t; cases "tl t"; cases "tl (tl t)"; simp add: numeral_eq_Suc)+

text \<open>
  The four shapes a successful decoding can have; \<open>x\<close>, \<open>y\<close>, \<open>z\<close>, \<open>w\<close> are the payloads of its bytes.
\<close>

lemma decode_rune_cases:
  assumes "decode_rune (a # t) = (r, w)"
  obtains "r = byte a" "w = 1" "r < 0x80"
  | x y where "2 \<le> x" "x < 32" "y < 64" "r = x * 64 + y" "w = 2"
      "take 2 (a # t) = [chr (0xC0 + x), chr (0x80 + y)]"
  | x y z where "x < 16" "y < 64" "z < 64" "x = 0 \<Longrightarrow> 0x20 \<le> y" "x = 13 \<Longrightarrow> y \<le> 0x1F"
      "r = x * 4096 + y * 64 + z" "w = 3"
      "take 3 (a # t) = [chr (0xE0 + x), chr (0x80 + y), chr (0x80 + z)]"
  | x y z v where "x < 5" "y < 64" "z < 64" "v < 64" "x = 0 \<Longrightarrow> 0x10 \<le> y" "x = 4 \<Longrightarrow> y \<le> 0xF"
      "r = x * 262144 + y * 4096 + z * 64 + v" "w = 4"
      "take 4 (a # t) = [chr (0xF0 + x), chr (0x80 + y), chr (0x80 + z), chr (0x80 + v)]"
  | "r = rune_error" "w = 1"
proof -
  let ?P2 = "0xC2 \<le> byte a \<and> byte a \<le> 0xDF \<and> 1 \<le> length t \<and> cont_byte (t ! 0)"
  let ?P3 = "0xE0 \<le> byte a \<and> byte a \<le> 0xEF \<and> 2 \<le> length t \<and> cont_byte (t ! 0) \<and> cont_byte (t ! 1)
    \<and> (byte a = 0xE0 \<longrightarrow> 0xA0 \<le> byte (t ! 0)) \<and> (byte a = 0xED \<longrightarrow> byte (t ! 0) \<le> 0x9F)"
  let ?P4 = "0xF0 \<le> byte a \<and> byte a \<le> 0xF4 \<and> 3 \<le> length t
    \<and> cont_byte (t ! 0) \<and> cont_byte (t ! 1) \<and> cont_byte (t ! 2)
    \<and> (byte a = 0xF0 \<longrightarrow> 0x90 \<le> byte (t ! 0)) \<and> (byte a = 0xF4 \<longrightarrow> byte (t ! 0) \<le> 0x8F)"
  note d = assms [unfolded decode_rune_def list.case]
  consider "byte a < 0x80" | "\<not> byte a < 0x80" ?P2 | "\<not> byte a < 0x80" "\<not> ?P2" ?P3
    | "\<not> byte a < 0x80" "\<not> ?P2" "\<not> ?P3" ?P4 | "\<not> byte a < 0x80" "\<not> ?P2" "\<not> ?P3" "\<not> ?P4"
    by blast
  then show thesis
  proof cases
    case 1
    with d that(1) show thesis by simp
  next
    case 2
    note c = cont_digit [of "t ! 0"]
    have "r = (byte a - 0xC0) * 64 + (byte (t ! 0) - 0x80)" "w = 2"
      using d [unfolded if_not_P [OF 2(1)] if_P [OF 2(2)] prod.inject] by simp_all
    moreover have "take 2 (a # t) = [chr (0xC0 + (byte a - 0xC0)), chr (0x80 + (byte (t ! 0) - 0x80))]"
      using 2 c take_nth(1) [of t a] by (simp add: chr_byte_plus)
    ultimately show thesis using 2 c
      by (intro that(2) [of "byte a - 0xC0" "byte (t ! 0) - 0x80"]) auto
  next
    case 3
    note c = cont_digit [of "t ! 0"] cont_digit [of "t ! 1"]
    have "r = (byte a - 0xE0) * 4096 + (byte (t ! 0) - 0x80) * 64 + (byte (t ! 1) - 0x80)" "w = 3"
      using d [unfolded if_not_P [OF 3(1)] if_not_P [OF 3(2)] if_P [OF 3(3)] prod.inject] by simp_all
    moreover have "take 3 (a # t) = [chr (0xE0 + (byte a - 0xE0)), chr (0x80 + (byte (t ! 0) - 0x80)),
        chr (0x80 + (byte (t ! 1) - 0x80))]"
      using 3 c take_nth(2) [of t a] by (simp add: chr_byte_plus)
    ultimately show thesis using 3 c
      by (intro that(3) [of "byte a - 0xE0" "byte (t ! 0) - 0x80" "byte (t ! 1) - 0x80"]) auto
  next
    case 4
    note c = cont_digit [of "t ! 0"] cont_digit [of "t ! 1"] cont_digit [of "t ! 2"]
    have "r = (byte a - 0xF0) * 262144 + (byte (t ! 0) - 0x80) * 4096 + (byte (t ! 1) - 0x80) * 64
        + (byte (t ! 2) - 0x80)" "w = 4"
      using d [unfolded if_not_P [OF 4(1)] if_not_P [OF 4(2)] if_not_P [OF 4(3)] if_P [OF 4(4)]
          prod.inject] by simp_all
    moreover have "take 4 (a # t) = [chr (0xF0 + (byte a - 0xF0)), chr (0x80 + (byte (t ! 0) - 0x80)),
        chr (0x80 + (byte (t ! 1) - 0x80)), chr (0x80 + (byte (t ! 2) - 0x80))]"
      using 4 c take_nth(3) [of t a] by (simp add: chr_byte_plus)
    ultimately show thesis using 4 c
      by (intro that(4) [of "byte a - 0xF0" "byte (t ! 0) - 0x80" "byte (t ! 1) - 0x80"
            "byte (t ! 2) - 0x80"]) auto
  next
    case 5
    then have "r = rune_error" "w = 1" using d by (simp_all only: if_not_P prod.inject if_False)
    with that(5) show thesis by blast
  qed
qed

lemma encode_decode_rune:
  assumes "decode_rune (a # t) = (r, w)" and "r \<noteq> rune_error \<or> w = 3"
  shows "scalar r \<and> encode_rune r = take w (a # t)"
  using assms(1)
proof (cases rule: decode_rune_cases)
  case 1
  then show ?thesis by (simp add: scalar_def encode_rune_def)
next
  case (2 x y)
  then show ?thesis using encode_rune2 [of x y] by simp
next
  case (3 x y z)
  then show ?thesis using encode_rune3 [of x y z] by simp
next
  case (4 x y z v)
  then show ?thesis using encode_rune4 [of x y z v] by simp
next
  case 5
  with assms(2) show ?thesis by simp
qed

lemma valid_utf8_runes:
  "valid_utf8 s \<Longrightarrow> utf8 (runes s) = s \<and> (\<forall>r \<in> set (runes s). scalar r)"
proof (induction s rule: segs.induct)
  case 1
  show ?case by (simp add: runes_def utf8_def)
next
  case (2 c t)
  obtain r w where d: "decode_rune (c # t) = (r, w)" by fastforce
  have w: "length (take w (c # t)) = w" using decode_rune_width [of "c # t"] d by simp
  have "r \<noteq> rune_error \<or> w = 3" and v: "valid_utf8 (drop w (c # t))"
    using 2 d w by (auto simp: valid_utf8_def)
  with d have "scalar r" "encode_rune r = take w (c # t)"
    using encode_decode_rune [OF d] by auto
  then show ?case using 2 v d by (simp add: runes_def utf8_def)
qed

lemma valid_utf8_utf8: "\<forall>r \<in> set rs. scalar r \<Longrightarrow> valid_utf8 (utf8 rs)"
  by (auto simp: valid_utf8_def segs_utf8 encode_rune_def scalar_def rune_error_def)

lemma valid_utf8_iff: "valid_utf8 s \<longleftrightarrow> (\<exists>rs. (\<forall>r \<in> set rs. scalar r) \<and> s = utf8 rs)"
  using valid_utf8_runes valid_utf8_utf8 by metis

definition utf8_decode :: "string \<Rightarrow> nat list option" where
  "utf8_decode s = (if valid_utf8 s then Some (runes s) else None)"

interpretation utf8_codec: codec utf8 utf8_decode "\<lambda>rs. \<forall>r \<in> set rs. scalar r"
  by unfold_locales (simp add: utf8_decode_def valid_utf8_utf8 runes_utf8)

subsection \<open>Texts are closed under byte operations on ASCII characters\<close>

definition ascii :: "char \<Rightarrow> bool" where
  "ascii c \<longleftrightarrow> byte c < 0x80"

lemma utf8_simps [simp]: "utf8 [] = []" "utf8 (r # rs) = encode_rune r @ utf8 rs"
  "utf8 (rs @ rs') = utf8 rs @ utf8 rs'"
  by (simp_all add: utf8_def)

lemma valid_utf8_Nil [simp]: "valid_utf8 []"
  using valid_utf8_utf8 [of "[]"] by simp

lemma valid_utf8_append: "valid_utf8 x \<Longrightarrow> valid_utf8 y \<Longrightarrow> valid_utf8 (x @ y)"
proof -
  assume "valid_utf8 x" "valid_utf8 y"
  then obtain rs rs' where "\<forall>r \<in> set (rs @ rs'). scalar r" "x @ y = utf8 (rs @ rs')"
    unfolding valid_utf8_iff by force
  then show ?thesis unfolding valid_utf8_iff by blast
qed

lemma valid_utf8_encode_rune: "valid_utf8 (encode_rune r)"
proof -
  let ?r = "if scalar r then r else rune_error"
  have "scalar ?r" by (simp add: scalar_def rune_error_def)
  then have "valid_utf8 (utf8 [?r])" by (intro valid_utf8_utf8) simp
  moreover have "encode_rune ?r = encode_rune r" by (simp add: encode_rune_def)
  ultimately show ?thesis by simp
qed

lemma valid_utf8_Cons: "ascii c \<Longrightarrow> valid_utf8 (c # s) \<longleftrightarrow> valid_utf8 s"
  by (simp add: valid_utf8_def ascii_def segs_ascii rune_error_def del: segs.simps)

lemma valid_utf8_ascii: "\<forall>c \<in> set s. ascii c \<Longrightarrow> valid_utf8 s"
  by (induction s) (simp_all add: valid_utf8_Cons)

lemma encode_rune_ascii: "r < 0x80 \<Longrightarrow> encode_rune r = [chr r]"
  by (simp add: encode_rune_def scalar_def)

lemma byte_ge: "0x80 \<le> n \<Longrightarrow> n < 256 \<Longrightarrow> \<not> ascii (chr n)"
  by (simp add: ascii_def byte_chr del: of_char_of)

lemma encode_rune_not_ascii: "\<not> r < 0x80 \<Longrightarrow> c \<in> set (encode_rune r) \<Longrightarrow> \<not> ascii c"
proof -
  assume r: "\<not> r < 0x80" and c: "c \<in> set (encode_rune r)"
  define q where "q = (if scalar r then r else rune_error)"
  have q: "\<not> q < 0x80" "q \<le> 0x10FFFF" using r by (auto simp: q_def rune_error_def scalar_def)
  have m: "n mod 64 < 64" for n :: nat by simp
  have d: "q < 0x800 \<Longrightarrow> q div 64 < 32" "q < 0x10000 \<Longrightarrow> q div 4096 < 16" "q div 262144 < 5"
    using q by auto
  show ?thesis
    using c q d m [of q] m [of "q div 64"] m [of "q div 4096"]
    unfolding encode_rune_def Let_def q_def [symmetric]
    by (auto simp only: if_False set_simps insert_iff empty_iff split: if_splits
        intro!: notI dest: byte_ge [THEN notE, rotated 2])
qed

end
