(* ===== verification/GoText.thy ===== *)
theory GoText
  imports GoStrings
begin

text \<open>
  The text functions of \<open>strings\<close> and \<open>path/filepath\<close> (Unix) that the program calls, and
  the fact that each keeps a valid UTF-8 text valid.
\<close>

section \<open>Byte operations\<close>

lemma valid_utf8_split:
  assumes "valid_utf8 (x @ c # y)" and "ascii c"
  shows "valid_utf8 x \<and> valid_utf8 y"
proof -
  have "\<forall>r \<in> set rs. scalar r \<Longrightarrow> utf8 rs = x @ c # y \<Longrightarrow> valid_utf8 x \<and> valid_utf8 y" for rs
  proof (induction rs arbitrary: x)
    case Nil
    then show ?case by simp
  next
    case (Cons r rs)
    note \<open>\<forall>r \<in> set (r # rs). scalar r\<close>
    note IH = Cons.IH [OF Cons.prems(1) [unfolded set_simps ball_simps, THEN conjunct2]]
    have eq: "encode_rune r @ utf8 rs = x @ (c # y)" using Cons.prems(2) by simp
    have no: "\<not> r < 0x80 \<Longrightarrow> c \<notin> set (encode_rune r)"
      using encode_rune_not_ascii assms(2) by blast
    from eq obtain us where
      "encode_rune r = x @ us \<and> us @ utf8 rs = c # y \<or> encode_rune r @ us = x \<and> utf8 rs = us @ c # y"
      by (auto simp: append_eq_append_conv2)
    then show ?case
    proof
      assume us: "encode_rune r @ us = x \<and> utf8 rs = us @ c # y"
      then have "valid_utf8 us \<and> valid_utf8 y" by (intro IH) simp
      with us show ?thesis using valid_utf8_append [OF valid_utf8_encode_rune] by blast
    next
      assume us: "encode_rune r = x @ us \<and> us @ utf8 rs = c # y"
      show ?thesis
      proof (cases us)
        case Nil
        with us IH [of "[]"] valid_utf8_encode_rune [of r] show ?thesis by simp
      next
        case (Cons d vs)
        with us no have "r < 0x80" by auto
        with us Cons have "x = []" "vs = []" by (simp_all add: encode_rune_ascii Cons_eq_append_conv)
        with us Cons have "utf8 rs = y" by simp
        with \<open>x = []\<close> valid_utf8_utf8 [of rs] \<open>\<forall>r \<in> set (r # rs). scalar r\<close> show ?thesis by simp
      qed
    qed
  qed
  with assms(1) show ?thesis unfolding valid_utf8_iff by metis
qed

text \<open>Replacing ASCII bytes by ASCII bytes, and deleting ASCII bytes.\<close>

lemma valid_utf8_map:
  assumes "valid_utf8 s" and "\<And>c. ascii c \<Longrightarrow> ascii (f c)" and "\<And>c. \<not> ascii c \<Longrightarrow> f c = c"
  shows "valid_utf8 (map f s)"
proof -
  have "valid_utf8 (map f (utf8 rs))" for rs
  proof (induction rs)
    case (Cons r rs)
    have "valid_utf8 (map f (encode_rune r))"
    proof (cases "r < 0x80")
      case True
      then have "ascii (chr r)" by (simp add: ascii_def)
      with True assms(2) show ?thesis by (simp add: encode_rune_ascii valid_utf8_Cons)
    next
      case False
      then have "map f (encode_rune r) = encode_rune r"
        using encode_rune_not_ascii assms(3) by (simp add: map_idI)
      then show ?thesis by (simp add: valid_utf8_encode_rune)
    qed
    with Cons show ?case by (simp add: valid_utf8_append)
  qed simp
  with assms(1) show ?thesis unfolding valid_utf8_iff by blast
qed

lemma valid_utf8_filter:
  assumes "valid_utf8 s" and "\<And>c. \<not> ascii c \<Longrightarrow> P c"
  shows "valid_utf8 (filter P s)"
proof -
  have "valid_utf8 (filter P (utf8 rs))" for rs
  proof (induction rs)
    case (Cons r rs)
    have "valid_utf8 (filter P (encode_rune r))"
    proof (cases "r < 0x80")
      case True
      then show ?thesis by (simp add: encode_rune_ascii valid_utf8_Cons ascii_def)
    next
      case False
      then have "filter P (encode_rune r) = encode_rune r"
        using encode_rune_not_ascii assms(2) by (simp add: filter_id_conv)
      then show ?thesis by (simp add: valid_utf8_encode_rune)
    qed
    with Cons show ?case by (simp add: valid_utf8_append)
  qed simp
  with assms(1) show ?thesis unfolding valid_utf8_iff by blast
qed

text \<open>\<open>strings.Trim\<close>, \<open>TrimRight\<close> with a cutset of ASCII characters.\<close>

definition trim_right :: "(char \<Rightarrow> bool) \<Rightarrow> string \<Rightarrow> string" where
  "trim_right P s = rev (dropWhile P (rev s))"

definition trim :: "(char \<Rightarrow> bool) \<Rightarrow> string \<Rightarrow> string" where
  "trim P s = trim_right P (dropWhile P s)"

lemma trim_right_prefix: "\<exists>t. s = trim_right P s @ t \<and> (\<forall>c \<in> set t. P c)"
proof -
  have "s = rev (dropWhile P (rev s)) @ rev (takeWhile P (rev s))"
    by (metis rev_append rev_rev_ident takeWhile_dropWhile_id)
  moreover have "\<forall>c \<in> set (rev (takeWhile P (rev s))). P c" by (auto dest: set_takeWhileD)
  ultimately show ?thesis unfolding trim_right_def by blast
qed

lemma valid_utf8_strip_right:
  "valid_utf8 (x @ t) \<Longrightarrow> \<forall>c \<in> set t. ascii c \<Longrightarrow> valid_utf8 x"
  by (cases t) (auto dest: valid_utf8_split)

lemma valid_utf8_strip_left:
  "valid_utf8 (t @ x) \<Longrightarrow> \<forall>c \<in> set t. ascii c \<Longrightarrow> valid_utf8 x"
  by (induction t) (auto simp: valid_utf8_Cons)

lemma valid_utf8_trim_right:
  "valid_utf8 s \<Longrightarrow> (\<And>c. P c \<Longrightarrow> ascii c) \<Longrightarrow> valid_utf8 (trim_right P s)"
  using trim_right_prefix [of s P] valid_utf8_strip_right [of "trim_right P s"] by metis

lemma valid_utf8_trim:
  assumes "valid_utf8 s" and "\<And>c. P c \<Longrightarrow> ascii c"
  shows "valid_utf8 (trim P s)"
proof -
  have "valid_utf8 (takeWhile P s @ dropWhile P s)" using assms(1) by simp
  then have "valid_utf8 (dropWhile P s)"
    by (rule valid_utf8_strip_left) (auto dest: set_takeWhileD assms(2))
  then show ?thesis unfolding trim_def by (rule valid_utf8_trim_right) (rule assms(2))
qed

lemma hd_dropWhile_not: "dropWhile P s \<noteq> [] \<Longrightarrow> \<not> P (hd (dropWhile P s))"
  by (rule hd_dropWhile)

lemma trim_right_last: "trim_right P s \<noteq> [] \<Longrightarrow> \<not> P (last (trim_right P s))"
  by (simp add: trim_right_def last_rev hd_dropWhile)

lemma trim_hd: "trim P s \<noteq> [] \<Longrightarrow> \<not> P (hd (trim P s))"
proof -
  assume ne: "trim P s \<noteq> []"
  obtain t where t: "dropWhile P s = trim P s @ t"
    using trim_right_prefix [of "dropWhile P s" P] by (auto simp: trim_def)
  with ne have "hd (dropWhile P s) = hd (trim P s)" "dropWhile P s \<noteq> []" by auto
  then show ?thesis using hd_dropWhile [of P s] by metis
qed

lemma trim_last: "trim P s \<noteq> [] \<Longrightarrow> \<not> P (last (trim P s))"
  by (simp add: trim_def trim_right_last)

lemma set_trim_right: "set (trim_right P s) \<subseteq> set s"
  using set_dropWhileD by (fastforce simp: trim_right_def)

lemma set_trim: "set (trim P s) \<subseteq> set s"
  unfolding trim_def using set_trim_right set_dropWhileD by fastforce

text \<open>\<open>strings.HasPrefix\<close>, \<open>TrimPrefix\<close>, \<open>TrimSuffix\<close>; \<open>strings.Contains\<close> is \<^const>\<open>sublist\<close>.\<close>

definition trim_prefix :: "string \<Rightarrow> string \<Rightarrow> string" where
  "trim_prefix p s = (if prefix p s then drop (length p) s else s)"

definition trim_suffix :: "string \<Rightarrow> string \<Rightarrow> string" where
  "trim_suffix x s = (if suffix x s then take (length s - length x) s else s)"

lemma trim_suffix_append [simp]: "trim_suffix x (s @ x) = s"
  by (simp add: trim_suffix_def suffix_def)

lemma trim_prefix_append [simp]: "trim_prefix p (p @ s) = s"
  by (simp add: trim_prefix_def)

section \<open>Rune operations\<close>

text \<open>\<open>unicode.IsSpace\<close> and \<open>strings.TrimSpace\<close>.\<close>

definition is_space :: "nat \<Rightarrow> bool" where
  "is_space r \<longleftrightarrow> (9 \<le> r \<and> r \<le> 13) \<or> r = 32 \<or> r = 0x85 \<or> r = 0xA0 \<or> r = 0x1680
     \<or> (0x2000 \<le> r \<and> r \<le> 0x200A) \<or> r = 0x2028 \<or> r = 0x2029 \<or> r = 0x202F \<or> r = 0x205F \<or> r = 0x3000"

definition trim_space :: "string \<Rightarrow> string" where
  "trim_space s =
     concat (map snd (rev (dropWhile (\<lambda>(r, _). is_space r)
       (rev (dropWhile (\<lambda>(r, _). is_space r) (segs s))))))"

lemma trim_space_Nil [simp]: "trim_space [] = []"
  by (simp add: trim_space_def)

lemma trim_space_utf8:
  assumes "\<forall>r \<in> set rs. scalar r"
  shows "trim_space (utf8 rs) = utf8 (rev (dropWhile is_space (rev (dropWhile is_space rs))))"
  unfolding trim_space_def segs_utf8 [OF assms]
  by (simp add: dropWhile_map rev_map comp_def utf8_def)

lemma valid_utf8_trim_space:
  assumes "valid_utf8 s"
  shows "valid_utf8 (trim_space s)"
proof -
  obtain rs where rs: "\<forall>r \<in> set rs. scalar r" "s = utf8 rs" using assms by (auto simp: valid_utf8_iff)
  have "\<forall>r \<in> set (rev (dropWhile is_space (rev (dropWhile is_space rs)))). scalar r"
    using rs(1) by (auto dest!: set_dropWhileD)
  then show ?thesis using valid_utf8_utf8 trim_space_utf8 [OF rs(1)] rs(2) by simp
qed

lemma set_concat_sub: "set xs \<subseteq> set ys \<Longrightarrow> set (concat (map snd xs)) \<subseteq> set (concat (map snd ys))"
  by auto

lemma set_trim_space: "set (trim_space s) \<subseteq> set s"
proof -
  have "set (trim_space s) \<subseteq> set (concat (map snd (segs s)))"
    unfolding trim_space_def by (rule set_concat_sub) (auto dest!: set_dropWhileD)
  then show ?thesis by (simp add: concat_segs)
qed

text \<open>
  \<open>strings.ToUpper\<close>. The callers compare the result with ASCII text only, so the runes that
  matter are those whose upper case is ASCII: a to z, dotless i and long s. Every other rune is
  left as it is; its upper case is never ASCII.
\<close>

definition upper_rune :: "nat \<Rightarrow> nat" where
  "upper_rune r =
     (if 97 \<le> r \<and> r \<le> 122 then r - 32 else if r = 0x131 then 73 else if r = 0x17F then 83 else r)"

definition to_upper :: "string \<Rightarrow> string" where
  "to_upper s = utf8 (map upper_rune (runes s))"

text \<open>
  \<open>strings.EqualFold\<close>, by simple case folding: ASCII letters, long s and the Kelvin sign. Runes
  with no ASCII letter in their folding orbit are compared as they are.
\<close>

definition fold_rune :: "nat \<Rightarrow> nat" where
  "fold_rune r =
     (if 65 \<le> r \<and> r \<le> 90 then r + 32 else if r = 0x17F then 115 else if r = 0x212A then 107 else r)"

definition equal_fold :: "string \<Rightarrow> string \<Rightarrow> bool" where
  "equal_fold s t \<longleftrightarrow> map fold_rune (runes s) = map fold_rune (runes t)"

lemma equal_fold_refl [simp]: "equal_fold s s"
  by (simp add: equal_fold_def)

lemma equal_fold_sym: "equal_fold s t \<longleftrightarrow> equal_fold t s"
  by (auto simp: equal_fold_def)

lemma equal_fold_trans: "equal_fold s t \<Longrightarrow> equal_fold t u \<Longrightarrow> equal_fold s u"
  by (simp add: equal_fold_def)

section \<open>File names\<close>

abbreviation slash :: char where
  "slash \<equiv> CHR ''/''"

text \<open>\<open>filepath.Base\<close> and \<open>filepath.Ext\<close> on a system whose only separator is the slash.\<close>

definition filepath_base :: "string \<Rightarrow> string" where
  "filepath_base s =
     (if s = [] then ''.''
      else let t = trim_right (\<lambda>c. c = slash) s in
        if t = [] then ''/'' else rev (takeWhile (\<lambda>c. c \<noteq> slash) (rev t)))"

definition filepath_ext :: "string \<Rightarrow> string" where
  "filepath_ext s =
     (let e = takeWhile (\<lambda>c. c \<noteq> CHR ''.'' \<and> c \<noteq> slash) (rev s) in
      case drop (length e) (rev s) of
        [] \<Rightarrow> []
      | c # _ \<Rightarrow> if c = CHR ''.'' then c # rev e else [])"

lemma filepath_base_no_slash:
  assumes "s \<noteq> []" and "slash \<notin> set s"
  shows "filepath_base s = s"
proof -
  have t: "trim_right (\<lambda>c. c = slash) s = s"
    using assms by (cases s rule: rev_cases) (auto simp: trim_right_def)
  have "takeWhile (\<lambda>c. c \<noteq> slash) (rev s) = rev s"
    using assms by (simp add: takeWhile_eq_all_conv) blast
  then show ?thesis unfolding filepath_base_def Let_def t using assms(1) by (simp only: rev_rev_ident if_False)
qed

lemma filepath_base_cases: "filepath_base s = ''/'' \<or> slash \<notin> set (filepath_base s)"
  by (auto simp: filepath_base_def Let_def dest: set_takeWhileD)

text \<open>A list cut at the last element that fails \<open>P\<close>.\<close>

lemma rev_takeWhile_cut:
  assumes "dropWhile P (rev t) = c # ds"
  shows "t = rev ds @ c # rev (takeWhile P (rev t))"
proof -
  have "rev t = takeWhile P (rev t) @ c # ds"
    using takeWhile_dropWhile_id [of P "rev t"] assms by simp
  then have "rev (rev t) = rev (takeWhile P (rev t) @ c # ds)" by (rule arg_cong)
  then show ?thesis by simp
qed

lemma drop_length_takeWhile: "drop (length (takeWhile P xs)) xs = dropWhile P xs"
  by (simp flip: dropWhile_eq_drop)

lemma valid_utf8_base:
  assumes "valid_utf8 s"
  shows "valid_utf8 (filepath_base s)"
proof -
  define t where "t = trim_right (\<lambda>c. c = slash) s"
  define e where "e = rev (takeWhile (\<lambda>c. c \<noteq> slash) (rev t))"
  have v: "valid_utf8 t"
    unfolding t_def using assms by (rule valid_utf8_trim_right) (simp add: ascii_def)
  have "valid_utf8 e"
  proof (cases "dropWhile (\<lambda>c. c \<noteq> slash) (rev t)")
    case Nil
    then have "e = t" unfolding e_def
      by (metis append_Nil2 takeWhile_dropWhile_id rev_rev_ident)
    with v show ?thesis by simp
  next
    case (Cons c ds)
    then have "c = slash" using hd_dropWhile [of "\<lambda>c. c \<noteq> slash" "rev t"] by simp
    moreover have "t = rev ds @ c # e" unfolding e_def by (rule rev_takeWhile_cut [OF Cons])
    ultimately show ?thesis using v valid_utf8_split [of "rev ds" c e] by (simp add: ascii_def)
  qed
  then show ?thesis
    unfolding filepath_base_def Let_def t_def [symmetric] e_def [symmetric]
    by (simp add: valid_utf8_Cons ascii_def)
qed

lemma filepath_ext_suffix: "suffix (filepath_ext s) s"
proof (cases "dropWhile (\<lambda>c. c \<noteq> CHR ''.'' \<and> c \<noteq> slash) (rev s)")
  case Nil
  show ?thesis unfolding filepath_ext_def Let_def drop_length_takeWhile Nil by simp
next
  case (Cons c ds)
  have "suffix (c # rev (takeWhile (\<lambda>c. c \<noteq> CHR ''.'' \<and> c \<noteq> slash) (rev s))) s"
    unfolding suffix_def using rev_takeWhile_cut [OF Cons] by blast
  then show ?thesis
    unfolding filepath_ext_def Let_def drop_length_takeWhile Cons by (auto split: if_split)
qed

lemma filepath_ext_shape: "filepath_ext s = [] \<or> (\<exists>e. filepath_ext s = CHR ''.'' # e
    \<and> CHR ''.'' \<notin> set e \<and> slash \<notin> set e)"
  by (auto simp: filepath_ext_def Let_def split: list.split dest: set_takeWhileD)

end
