(* ===== verification/Codecs.thy ===== *)
theory Codecs
  imports GoText
begin

text \<open>
  The text encodings of binary data and numbers: \<open>encoding/hex\<close>, the unpadded URL alphabet of
  \<open>encoding/base64\<close> and the decimal numbers of \<open>fmt\<close> and \<open>strconv\<close>. Each is a codec.
\<close>

section \<open>Hexadecimal\<close>

definition hex_digit :: "nat \<Rightarrow> char" where
  "hex_digit n = (if n < 10 then chr (48 + n) else chr (87 + n))"

definition hex_value :: "char \<Rightarrow> nat option" where
  "hex_value c =
     (if 48 \<le> byte c \<and> byte c \<le> 57 then Some (byte c - 48)
      else if 97 \<le> byte c \<and> byte c \<le> 102 then Some (byte c - 87)
      else if 65 \<le> byte c \<and> byte c \<le> 70 then Some (byte c - 55)
      else None)"

fun hex_encode :: "string \<Rightarrow> string" where
  "hex_encode [] = []"
| "hex_encode (c # s) = hex_digit (byte c div 16) # hex_digit (byte c mod 16) # hex_encode s"

fun hex_decode :: "string \<Rightarrow> string option" where
  "hex_decode [] = Some []"
| "hex_decode [a] = None"
| "hex_decode (a # b # s) =
     (case (hex_value a, hex_value b, hex_decode s) of
        (Some x, Some y, Some t) \<Rightarrow> Some (chr (x * 16 + y) # t)
      | _ \<Rightarrow> None)"

lemma byte_div16 [simp]: "byte c div 16 < 16"
  using byte_less [of c] by (intro less_mult_imp_div_less) simp

lemma byte_div_mod16 [simp]: "chr (byte c div 16 * 16 + byte c mod 16) = c"
  by (simp only: div_mult_mod_eq char_of_char)

lemma byte_hex_digit: "n < 16 \<Longrightarrow> byte (hex_digit n) = (if n < 10 then 48 + n else 87 + n)"
  by (simp add: hex_digit_def byte_chr del: of_char_of)

lemma hex_value_digit: "n < 16 \<Longrightarrow> hex_value (hex_digit n) = Some n"
  by (simp add: hex_value_def byte_hex_digit)

lemma hex_decode_encode: "hex_decode (hex_encode s) = Some s"
  by (induction s) (simp_all add: hex_value_digit)

interpretation hex_codec: codec hex_encode hex_decode "\<lambda>_. True"
  by unfold_locales (simp add: hex_decode_encode)

lemma length_hex_encode [simp]: "length (hex_encode s) = 2 * length s"
  by (induction s) simp_all

lemma hex_encode_ascii: "\<forall>c \<in> set (hex_encode s). ascii c"
proof -
  have "ascii (hex_digit n)" if "n < 16" for n
    using that by (simp add: ascii_def byte_hex_digit)
  then show ?thesis by (induction s) simp_all
qed

lemma hex_value_ascii: "hex_value c = Some x \<Longrightarrow> ascii c \<and> x < 16"
  by (auto simp: hex_value_def ascii_def split: if_splits)

text \<open>Two hexadecimal texts that agree up to case decode to the same bytes.\<close>

lemma runes_ascii: "\<forall>c \<in> set s. ascii c \<Longrightarrow> runes s = map byte s"
  by (induction s) (simp_all add: runes_def segs_ascii ascii_def del: segs.simps(2))

lemma ascii_of_runes: "\<forall>r \<in> set (runes s). r < 0x80 \<Longrightarrow> \<forall>c \<in> set s. ascii c"
proof -
  assume r: "\<forall>r \<in> set (runes s). r < 0x80"
  then have "valid_utf8 s"
    by (fastforce simp: runes_def valid_utf8_def rune_error_def)
  then have "s = utf8 (runes s)" using valid_utf8_runes by simp
  moreover have "\<forall>r \<in> set rs. r < 0x80 \<Longrightarrow> \<forall>c \<in> set (utf8 rs). ascii c" for rs
    by (induction rs) (auto simp: encode_rune_ascii ascii_def)
  ultimately show ?thesis using r by metis
qed

lemma fold_rune_hex:
  assumes "fold_rune r = byte (hex_digit n)" and "n < 16"
  shows "r < 0x80 \<and> hex_value (chr r) = Some n"
proof -
  have "byte (hex_digit n) \<in> {48..57} \<union> {97..102}"
    using assms(2) by (auto simp: byte_hex_digit)
  with assms have r: "r < 0x80" "fold_rune r = (if 65 \<le> r \<and> r \<le> 90 then r + 32 else r)"
    by (auto simp: fold_rune_def split: if_splits)
  then show ?thesis using assms
    by (auto simp: hex_value_def byte_hex_digit byte_chr split: if_splits simp del: of_char_of)
qed

lemma hex_decode_fold:
  assumes "equal_fold s (hex_encode b)"
  shows "hex_decode s = Some b"
proof -
  have e: "map fold_rune (runes s) = map fold_rune (map byte (hex_encode b))"
    using assms by (simp add: equal_fold_def runes_ascii hex_encode_ascii)
  have f: "fold_rune (byte (hex_digit n)) = byte (hex_digit n)" if "n < 16" for n
    using that by (simp add: fold_rune_def byte_hex_digit)
  have d: "\<forall>c \<in> set (hex_encode b). \<exists>n < 16. c = hex_digit n"
  proof (induction b)
    case (Cons c b)
    have "\<exists>n < 16. hex_digit m = hex_digit n" if "m < 16" for m using that by blast
    with Cons show ?case by simp
  qed simp
  have "\<forall>r \<in> set (runes s). r < 0x80"
  proof
    fix r assume "r \<in> set (runes s)"
    then have "fold_rune r \<in> set (map fold_rune (map byte (hex_encode b)))"
      unfolding e [symmetric] by simp
    then obtain n where "n < 16" "fold_rune r = byte (hex_digit n)" using d f by fastforce
    then show "r < 0x80" using fold_rune_hex by blast
  qed
  then have "runes s = map byte s" using ascii_of_runes runes_ascii by blast
  with e have "map (\<lambda>c. fold_rune (byte c)) s = map (\<lambda>c. fold_rune (byte c)) (hex_encode b)"
    by (simp add: comp_def)
  then show ?thesis
  proof (induction b arbitrary: s)
    case Nil
    then show ?case by simp
  next
    case (Cons c b)
    then obtain x y s' where s: "s = x # y # s'"
      and "fold_rune (byte x) = byte (hex_digit (byte c div 16))"
      and "fold_rune (byte y) = byte (hex_digit (byte c mod 16))"
      and s': "map (\<lambda>c. fold_rune (byte c)) s' = map (\<lambda>c. fold_rune (byte c)) (hex_encode b)"
      by (auto simp: f)
    then have "hex_value x = Some (byte c div 16)" "hex_value y = Some (byte c mod 16)"
      using fold_rune_hex [of "byte x"] fold_rune_hex [of "byte y"] by auto
    with s Cons.IH [OF s'] show ?case by simp
  qed
qed

section \<open>Unpadded base64url\<close>

definition b64_char :: "nat \<Rightarrow> char" where
  "b64_char n =
     (if n < 26 then chr (65 + n) else if n < 52 then chr (71 + n)
      else if n < 62 then chr (n - 4) else if n = 62 then CHR ''-'' else CHR ''_'')"

definition b64_value :: "char \<Rightarrow> nat option" where
  "b64_value c =
     (if 65 \<le> byte c \<and> byte c \<le> 90 then Some (byte c - 65)
      else if 97 \<le> byte c \<and> byte c \<le> 122 then Some (byte c - 71)
      else if 48 \<le> byte c \<and> byte c \<le> 57 then Some (byte c + 4)
      else if c = CHR ''-'' then Some 62 else if c = CHR ''_'' then Some 63 else None)"

fun sextets :: "nat list \<Rightarrow> nat list" where
  "sextets [] = []"
| "sextets [a] = [a div 4, a mod 4 * 16]"
| "sextets [a, b] = [a div 4, a mod 4 * 16 + b div 16, b mod 16 * 4]"
| "sextets (a # b # c # s) =
     a div 4 # (a mod 4 * 16 + b div 16) # (b mod 16 * 4 + c div 64) # c mod 64 # sextets s"

fun unsextets :: "nat list \<Rightarrow> nat list option" where
  "unsextets [] = Some []"
| "unsextets [x] = None"
| "unsextets [x, y] = Some [x * 4 + y div 16]"
| "unsextets [x, y, z] = Some [x * 4 + y div 16, y mod 16 * 16 + z div 4]"
| "unsextets (x # y # z # w # s) =
     map_option (\<lambda>t. (x * 4 + y div 16) # (y mod 16 * 16 + z div 4) # (z mod 4 * 64 + w) # t)
       (unsextets s)"

definition b64_encode :: "string \<Rightarrow> string" where
  "b64_encode s = map b64_char (sextets (map byte s))"

text \<open>\<open>RawURLEncoding.DecodeString\<close> skips carriage returns and newlines, and does not check trailing bits.\<close>

definition b64_decode :: "string \<Rightarrow> string option" where
  "b64_decode s =
     (case those (map b64_value (filter (\<lambda>c. byte c \<noteq> 13 \<and> byte c \<noteq> 10) s)) of
        None \<Rightarrow> None
      | Some xs \<Rightarrow> map_option (map chr) (unsextets xs))"

lemma byte_b64_char:
  "n < 64 \<Longrightarrow> byte (b64_char n) = (if n < 26 then 65 + n else if n < 52 then 71 + n
     else if n < 62 then n - 4 else if n = 62 then 45 else 95)"
  by (simp add: b64_char_def byte_chr del: of_char_of)

lemma b64_value_char: "n < 64 \<Longrightarrow> b64_value (b64_char n) = Some n"
proof -
  assume "n < 64"
  then consider "n < 26" | "26 \<le> n" "n < 52" | "52 \<le> n" "n < 62" | "n = 62" | "n = 63" by linarith
  then show ?thesis
    by cases (auto simp: b64_value_def byte_b64_char, auto simp: b64_char_def)
qed

lemma sextets_bound: "\<forall>a \<in> set s. a < 256 \<Longrightarrow> \<forall>x \<in> set (sextets s). x < 64"
  by (induction s rule: sextets.induct) auto

lemma unsextets_sextets: "\<forall>a \<in> set s. a < 256 \<Longrightarrow> unsextets (sextets s) = Some s"
proof -
  have d: "a div 4 * 4 + a mod 4 = a" "b div 16 * 16 + b mod 16 = b" "c div 64 * 64 + c mod 64 = c"
    for a b c :: nat by simp_all
  have e: "b div 16 div 16 = 0" "b div 16 mod 16 = b div 16" "b div 64 div 4 = 0" "b div 64 mod 4 = b div 64"
    if "b < 256" for b :: nat
    using that by (simp_all add: less_mult_imp_div_less flip: div_mult2_eq)
  show "\<forall>a \<in> set s. a < 256 \<Longrightarrow> unsextets (sextets s) = Some s"
    by (induction s rule: sextets.induct) (simp_all add: d e)
qed

lemma those_map_Some: "those (map Some xs) = Some xs"
  by (induction xs) simp_all

lemma b64_decode_encode: "b64_decode (b64_encode s) = Some s"
proof -
  let ?x = "sextets (map byte s)"
  have b: "\<forall>x \<in> set ?x. x < 64" by (rule sextets_bound) simp
  then have "\<forall>c \<in> set (b64_encode s). byte c \<noteq> 13 \<and> byte c \<noteq> 10"
    by (auto simp: b64_encode_def byte_b64_char)
  then have "filter (\<lambda>c. byte c \<noteq> 13 \<and> byte c \<noteq> 10) (b64_encode s) = b64_encode s"
    by (simp add: filter_id_conv)
  moreover have "map b64_value (b64_encode s) = map Some ?x"
    using b by (auto simp: b64_encode_def b64_value_char)
  moreover have "unsextets ?x = Some (map byte s)" by (rule unsextets_sextets) simp
  ultimately show ?thesis
    by (simp add: b64_decode_def those_map_Some comp_def)
qed

interpretation b64_codec: codec b64_encode b64_decode "\<lambda>_. True"
  by unfold_locales (simp add: b64_decode_encode)

text \<open>The alphabet is the one that request and upload identifiers are allowed to use.\<close>

definition id_char :: "char \<Rightarrow> bool" where
  "id_char c \<longleftrightarrow> (65 \<le> byte c \<and> byte c \<le> 90) \<or> (97 \<le> byte c \<and> byte c \<le> 122)
     \<or> (48 \<le> byte c \<and> byte c \<le> 57) \<or> c = CHR ''_'' \<or> c = CHR ''-''"

lemma b64_char_id: "n < 64 \<Longrightarrow> id_char (b64_char n)"
proof -
  assume "n < 64"
  then consider "n < 26" | "26 \<le> n" "n < 52" | "52 \<le> n" "n < 62" | "n = 62" | "n = 63" by linarith
  then show ?thesis
    by cases (auto simp: id_char_def byte_b64_char, auto simp: b64_char_def)
qed

lemma b64_encode_id: "\<forall>c \<in> set (b64_encode s). id_char c"
  using sextets_bound [of "map byte s"] by (auto simp: b64_encode_def intro: b64_char_id)

lemma length_sextets: "length (sextets s) = (4 * length s + 2) div 3"
  by (induction s rule: sextets.induct) simp_all

lemma length_b64_encode: "length (b64_encode s) = (4 * length s + 2) div 3"
  by (simp add: b64_encode_def length_sextets)

section \<open>Decimal numbers\<close>

definition is_digit :: "char \<Rightarrow> bool" where
  "is_digit c \<longleftrightarrow> 48 \<le> byte c \<and> byte c \<le> 57"

fun nat_str :: "nat \<Rightarrow> string" where
  "nat_str n = (if n < 10 then [chr (48 + n)] else nat_str (n div 10) @ [chr (48 + n mod 10)])"

declare nat_str.simps [simp del]

text \<open>The verb \<open>%d\<close>.\<close>

definition int_str :: "int \<Rightarrow> string" where
  "int_str i = (if i < 0 then CHR ''-'' # nat_str (nat (- i)) else nat_str (nat i))"

definition digits_value :: "string \<Rightarrow> nat" where
  "digits_value s = foldl (\<lambda>n c. n * 10 + (byte c - 48)) 0 s"

definition parse_digits :: "string \<Rightarrow> nat option" where
  "parse_digits s = (if s \<noteq> [] \<and> list_all is_digit s then Some (digits_value s) else None)"

lemma nat_str_digits: "nat_str n \<noteq> [] \<and> list_all is_digit (nat_str n) \<and> digits_value (nat_str n) = n"
proof (induction n rule: nat_str.induct)
  case (1 n)
  have b: "m < 10 \<Longrightarrow> byte (chr (48 + m)) = 48 + m" for m
    by (simp add: byte_chr del: of_char_of)
  show ?case
  proof (cases "n < 10")
    case True
    then show ?thesis using b [OF True]
      by (subst (1 2 3) nat_str.simps) (simp add: is_digit_def digits_value_def del: of_char_of)
  next
    case False
    note IH = "1.IH" [OF False]
    have "nat_str n = nat_str (n div 10) @ [chr (48 + n mod 10)]"
      using False by (subst nat_str.simps) simp
    then show ?thesis using IH b [of "n mod 10"]
      by (simp add: is_digit_def digits_value_def del: of_char_of)
  qed
qed

lemma parse_digits_nat_str: "parse_digits (nat_str n) = Some n"
  by (simp add: parse_digits_def nat_str_digits)

interpretation nat_codec: codec nat_str parse_digits "\<lambda>_. True"
  by unfold_locales (simp add: parse_digits_nat_str)

text \<open>Every character of a printed number is a digit or the sign.\<close>

lemma int_str_chars: "\<forall>c \<in> set (int_str i). is_digit c \<or> c = CHR ''-''"
  using nat_str_digits by (auto simp: int_str_def list_all_iff)

lemma int_str_inj: "int_str i = int_str j \<longleftrightarrow> i = j"
proof -
  have "\<not> is_digit CHR ''-''" by (simp add: is_digit_def)
  then have ne: "nat_str n \<noteq> CHR ''-'' # t" for n t
    using nat_str_digits [of n] by (metis list.set_intros(1) list_all_iff)
  have eq: "nat_str m = nat_str n \<longleftrightarrow> m = n" for m n using nat_codec.enc_eq_iff by blast
  show ?thesis using ne [of "nat i" "nat_str (nat (- j))"] ne [of "nat j" "nat_str (nat (- i))"]
    by (auto simp: int_str_def eq)
qed

text \<open>The verb \<open>%0wd\<close> for a number that is not negative.\<close>

definition pad_zero :: "nat \<Rightarrow> string \<Rightarrow> string" where
  "pad_zero w s = replicate (w - length s) CHR ''0'' @ s"

lemma digits_value_pad: "digits_value (pad_zero w s) = digits_value s"
proof -
  have "foldl (\<lambda>n c. n * 10 + (byte c - 48)) 0 (replicate k CHR ''0'') = 0" for k
    by (induction k) simp_all
  then show ?thesis by (simp add: digits_value_def pad_zero_def)
qed

lemma pad_zero_inj: "pad_zero w (nat_str m) = pad_zero w (nat_str n) \<longleftrightarrow> m = n"
  using digits_value_pad nat_str_digits by metis

lemma pad_zero_digits: "list_all is_digit s \<Longrightarrow> list_all is_digit (pad_zero w s)"
  by (auto simp: pad_zero_def list_all_iff is_digit_def)

text \<open>A number of at most \<open>k\<close> digits is below \<open>10 ^ k\<close>.\<close>

lemma digits_value_bound: "list_all is_digit s \<Longrightarrow> digits_value s < 10 ^ length s"
proof (induction s rule: rev_induct)
  case Nil
  show ?case by (simp add: digits_value_def)
next
  case (snoc c s)
  then have "digits_value s < 10 ^ length s" "byte c - 48 \<le> 9"
    by (auto simp: is_digit_def)
  then show ?case by (simp add: digits_value_def)
qed

end
