(* ===== verification/Sha256.thy ===== *)
theory Sha256
  imports Codecs
begin

text \<open>
  SHA-256 (FIPS 180-4), the hash of \<open>crypto/sha256\<close>, over 32-bit words. Nothing here is special
  to the program: capability hashes, the manifest header binding, chunk digests and the receipt
  root are all values of this function.
\<close>

unbundle bit_operations_syntax

type_synonym u32 = "32 word"

type_synonym hash_state = "u32 \<times> u32 \<times> u32 \<times> u32 \<times> u32 \<times> u32 \<times> u32 \<times> u32"

text \<open>The table of the 64 round constants, eight of them in a row, most significant word first.\<close>

definition row_words :: "nat \<Rightarrow> u32 list" where
  "row_words row = map (\<lambda>k. of_nat (row div 2 ^ (32 * k) mod 2 ^ 32)) [7, 6, 5, 4, 3, 2, 1, 0]"

definition round_constants :: "u32 list" where
  "round_constants = concat (map row_words
   [0x428a2f9871374491b5c0fbcfe9b5dba53956c25b59f111f1923f82a4ab1c5ed5,
    0xd807aa9812835b01243185be550c7dc372be5d7480deb1fe9bdc06a7c19bf174,
    0xe49b69c1efbe47860fc19dc6240ca1cc2de92c6f4a7484aa5cb0a9dc76f988da,
    0x983e5152a831c66db00327c8bf597fc7c6e00bf3d5a7914706ca635114292967,
    0x27b70a852e1b21384d2c6dfc53380d13650a7354766a0abb81c2c92e92722c85,
    0xa2bfe8a1a81a664bc24b8b70c76c51a3d192e819d6990624f40e3585106aa070,
    0x19a4c1161e376c082748774c34b0bcb5391c0cb34ed8aa4a5b9cca4f682e6ff3,
    0x748f82ee78a5636f84c878148cc7020890befffaa4506cebbef9a3f7c67178f2])"

lemma round_constants_ends:
  "length round_constants = 64" "hd round_constants = 0x428a2f98" "last round_constants = 0xc67178f2"
  by (simp_all add: round_constants_def row_words_def)

definition initial_hash :: hash_state where
  "initial_hash =
   (0x6a09e667, 0xbb67ae85, 0x3c6ef372, 0xa54ff53a, 0x510e527f, 0x9b05688c, 0x1f83d9ab, 0x5be0cd19)"

definition small_sigma0 :: "u32 \<Rightarrow> u32" where
  "small_sigma0 x = word_rotr 7 x XOR word_rotr 18 x XOR drop_bit 3 x"

definition small_sigma1 :: "u32 \<Rightarrow> u32" where
  "small_sigma1 x = word_rotr 17 x XOR word_rotr 19 x XOR drop_bit 10 x"

definition big_sigma0 :: "u32 \<Rightarrow> u32" where
  "big_sigma0 x = word_rotr 2 x XOR word_rotr 13 x XOR word_rotr 22 x"

definition big_sigma1 :: "u32 \<Rightarrow> u32" where
  "big_sigma1 x = word_rotr 6 x XOR word_rotr 11 x XOR word_rotr 25 x"

text \<open>The message schedule, newest word first.\<close>

fun schedule :: "nat \<Rightarrow> u32 list \<Rightarrow> u32 list" where
  "schedule 0 w = w"
| "schedule (Suc n) w =
     schedule n ((small_sigma1 (w ! 1) + w ! 6 + small_sigma0 (w ! 14) + w ! 15) # w)"

definition hash_round :: "hash_state \<Rightarrow> u32 \<times> u32 \<Rightarrow> hash_state" where
  "hash_round = (\<lambda>(a, b, c, d, e, f, g, h) (k, w).
     let t1 = h + big_sigma1 e + ((e AND f) XOR (NOT e AND g)) + k + w;
         t2 = big_sigma0 a + ((a AND b) XOR (a AND c) XOR (b AND c))
     in (t1 + t2, a, b, c, d + t1, e, f, g))"

definition add_state :: "hash_state \<Rightarrow> hash_state \<Rightarrow> hash_state" where
  "add_state = (\<lambda>(a, b, c, d, e, f, g, h) (a', b', c', d', e', f', g', h').
     (a + a', b + b', c + c', d + d', e + e', f + f', g + g', h + h'))"

definition hash_block :: "hash_state \<Rightarrow> u32 list \<Rightarrow> hash_state" where
  "hash_block s w = add_state s (foldl hash_round s (zip round_constants (rev (schedule 48 (rev w)))))"

text \<open>Padding to whole blocks, and the big-endian words of the padded message.\<close>

fun be_bytes :: "nat \<Rightarrow> nat \<Rightarrow> nat list" where
  "be_bytes 0 n = []"
| "be_bytes (Suc k) n = be_bytes k (n div 256) @ [n mod 256]"

definition pad_message :: "nat list \<Rightarrow> nat list" where
  "pad_message m =
     m @ [0x80] @ replicate (nat ((55 - int (length m)) mod 64)) 0
       @ be_bytes 8 (8 * length m mod 2 ^ 64)"

fun be_words :: "nat list \<Rightarrow> u32 list" where
  "be_words (a # b # c # d # s) = of_nat (((a * 256 + b) * 256 + c) * 256 + d) # be_words s"
| "be_words _ = []"

fun hash_blocks :: "nat \<Rightarrow> hash_state \<Rightarrow> u32 list \<Rightarrow> hash_state" where
  "hash_blocks 0 s w = s"
| "hash_blocks (Suc n) s w = hash_blocks n (hash_block s (take 16 w)) (drop 16 w)"

definition state_words :: "hash_state \<Rightarrow> u32 list" where
  "state_words = (\<lambda>(a, b, c, d, e, f, g, h). [a, b, c, d, e, f, g, h])"

definition digest_bytes :: "hash_state \<Rightarrow> string" where
  "digest_bytes s = map chr (concat (map (\<lambda>x. be_bytes 4 (unat x)) (state_words s)))"

definition sha256 :: "string \<Rightarrow> string" where
  "sha256 m =
     (let w = be_words (pad_message (map byte m))
      in digest_bytes (hash_blocks (length w div 16) initial_hash w))"

lemma length_be_bytes [simp]: "length (be_bytes k n) = k"
  by (induction k n rule: be_bytes.induct) simp_all

lemma length_digest_bytes: "length (digest_bytes s) = 32"
proof -
  have "length (state_words s) = 8" by (simp add: state_words_def split: prod.split)
  then show ?thesis by (simp add: digest_bytes_def length_concat comp_def sum_list_triv)
qed

lemma length_sha256 [simp]: "length (sha256 m) = 32"
  unfolding sha256_def Let_def by (rule length_digest_bytes)

text \<open>The padded message is a whole number of blocks, so no byte of it is left out.\<close>

lemma pad_message_blocks: "64 dvd length (pad_message m)"
proof -
  let ?l = "int (length m)"
  have "length (pad_message m) = length m + 1 + nat ((55 - ?l) mod 64) + 8"
    unfolding pad_message_def by (simp only: length_append length_be_bytes length_replicate
        list.size add_0_right Suc_eq_plus1 add_0_left)
  then have "int (length (pad_message m)) = (?l + 9) + (55 - ?l) mod 64" by simp
  moreover have "((?l + 9) + (55 - ?l) mod 64) mod 64 = 0"
    unfolding mod_add_right_eq by simp
  ultimately have "(64 :: int) dvd int (length (pad_message m))" by (simp add: dvd_eq_mod_eq_0)
  then show ?thesis by (metis int_dvd_int_iff of_nat_numeral)
qed

text \<open>\<open>sha256.Size\<close> bytes printed with \<open>hex.EncodeToString\<close> or \<open>%x\<close>.\<close>

definition sha256_hex :: "string \<Rightarrow> string" where
  "sha256_hex m = hex_encode (sha256 m)"

lemma length_sha256_hex [simp]: "length (sha256_hex m) = 64"
  by (simp add: sha256_hex_def)

lemma hex_decode_sha256 [simp]: "hex_decode (sha256_hex m) = Some (sha256 m)"
  by (simp add: sha256_hex_def hex_decode_encode)

lemma sha256_hex_eq_iff: "sha256_hex x = sha256_hex y \<longleftrightarrow> sha256 x = sha256 y"
  unfolding sha256_hex_def by (rule hex_codec.enc_eq_iff) simp_all

end
