(* ===== verification/Model.thy ===== *)
theory Model
  imports Sha256
begin

text \<open>
  The data of \<open>internal/model/model.go\<close>: one record per struct, with the fields' Go names behind a
  prefix that names the struct. An instant is a number of nanoseconds since Go's zero time, a
  duration a number of nanoseconds.
\<close>

section \<open>Time\<close>

datatype time = Time (nanos: int)

instantiation time :: linorder
begin

definition less_eq_time :: "time \<Rightarrow> time \<Rightarrow> bool" where
  "less_eq_time t u \<longleftrightarrow> nanos t \<le> nanos u"

definition less_time :: "time \<Rightarrow> time \<Rightarrow> bool" where
  "less_time t u \<longleftrightarrow> nanos t < nanos u"

instance
  by standard (auto simp: less_eq_time_def less_time_def time.expand)

end

lemma time_le_iff [simp]: "Time a \<le> Time b \<longleftrightarrow> a \<le> b"
  by (simp add: less_eq_time_def)

lemma time_less_iff [simp]: "Time a < Time b \<longleftrightarrow> a < b"
  by (simp add: less_time_def)

type_synonym duration = int

definition nanos_per_second :: duration where
  "nanos_per_second = 1000000000"

definition max_duration :: duration where
  "max_duration = 2 ^ 63 - 1"

definition min_duration :: duration where
  "min_duration = - (2 ^ 63)"

text \<open>\<open>Time.Add\<close>, \<open>Time.Sub\<close> (which saturates), \<open>Time.After\<close>, \<open>Time.IsZero\<close>.\<close>

definition time_add :: "time \<Rightarrow> duration \<Rightarrow> time" where
  "time_add t d = Time (nanos t + d)"

definition time_sub :: "time \<Rightarrow> time \<Rightarrow> duration" where
  "time_sub t u = max min_duration (min max_duration (nanos t - nanos u))"

definition after :: "time \<Rightarrow> time \<Rightarrow> bool" where
  "after t u \<longleftrightarrow> u < t"

definition is_zero_time :: "time \<Rightarrow> bool" where
  "is_zero_time t \<longleftrightarrow> nanos t = 0"

section \<open>Constants and structs\<close>

definition SchemaVersion :: int where
  "SchemaVersion = 1"

definition ProtocolVersion :: int where
  "ProtocolVersion = 1"

definition Algorithm :: string where
  "Algorithm = ''ECDH-P256+HKDF-SHA256+AES-256-GCM-CHUNKED''"

record RequestBundle =
  rbSchemaVersion :: int64
  rbID :: string
  rbLabel :: string
  rbCreatedAt :: time
  rbExpiresAt :: time
  rbMaxFiles :: int64
  rbMaxBytes :: int64
  rbDeleteAfterCollect :: bool
  rbPublicKey :: string
  rbSubmitTokenHash :: string
  rbCollectTokenHash :: string

record RequestClosure =
  clSchemaVersion :: int64
  clRequestID :: string
  clClosedAt :: time

record KeyFile =
  kfSchemaVersion :: int64
  kfRequestID :: string
  kfLabel :: string
  kfCreatedAt :: time
  kfExpiresAt :: time
  kfServerURL :: string
  kfSubmitURL :: string
  kfCollectToken :: string
  kfPrivateKey :: string
  kfPublicKey :: string

record Manifest =
  mfVersion :: int64
  mfRequestID :: string
  mfUploadID :: string
  mfAlgorithm :: string
  mfEphemeralPublicKey :: string
  mfSalt :: string
  mfNoncePrefix :: string
  mfChunkSize :: int64
  mfChunkCount :: int64
  mfPlainSize :: int64
  mfHeaderSHA256 :: string
  mfEncryptedMetadata :: string

record FileMetadata =
  fmName :: string
  fmType :: string
  fmLastModified :: int64

record UploadServerState =
  usRequestID :: string
  usUploadID :: string
  usCreatedAt :: time
  usPlainSize :: int64
  usChunkSize :: int64
  usChunkCount :: int64

record Receipt =
  rcVersion :: int64
  rcRequestID :: string
  rcUploadID :: string
  rcCompletedAt :: time
  rcPlainSize :: int64
  rcCipherBytes :: int64
  rcChunkCount :: int64
  rcReceiptSHA256 :: string
  rcAcknowledged :: bool

record RequestInfo =
  riID :: string
  riLabel :: string
  riExpiresAt :: time
  riMaxFiles :: int64
  riMaxBytes :: int64
  riUsedFiles :: int64
  riUsedBytes :: int64
  riPublicKey :: string
  riAlgorithm :: string

record CollectResult =
  crUploadID :: string
  crPath :: string
  crPlainBytes :: int64
  crPlainSHA256 :: string
  crReceiptSHA256 :: string

end
