(* ===== verification/Filename.thy ===== *)
theory Filename
  imports Model
begin

text \<open>
  \<open>core.SafeFilename\<close> and its helpers: how a decrypted file name becomes one path component on the
  recipient's disk. \<open>truncateUnits\<close> slices its argument at an offset it computes from the encoded
  lengths of the runes, so its model returns \<open>None\<close> where the slice would be out of range and Go
  would panic.
\<close>

section \<open>Definitions\<close>

definition maxFilenameBytes :: int where "maxFilenameBytes = 240"
definition maxFilenameUTF16Units :: int where "maxFilenameUTF16Units = 240"
definition maxExtensionBytes :: int where "maxExtensionBytes = 40"
definition maxExtensionUTF16 :: int where "maxExtensionUTF16 = 40"

definition windowsDeviceName :: "string \<Rightarrow> bool" where
  "windowsDeviceName name =
     (let stem = takeWhile (\<lambda>c. c \<noteq> CHR ''.'') name;
          stem = to_upper (trim_right (\<lambda>c. c = CHR '' '' \<or> c = CHR ''.'') stem) in
      if stem \<in> set [''CON'', ''PRN'', ''AUX'', ''NUL''] then True
      else let rs = runes stem in
        if length rs \<noteq> 4 \<or> (\<not> prefix ''COM'' stem \<and> \<not> prefix ''LPT'' stem) then False
        else (49 \<le> rs ! 3 \<and> rs ! 3 \<le> 57) \<or> rs ! 3 = 0xB9 \<or> rs ! 3 = 0xB2 \<or> rs ! 3 = 0xB3)"

definition unit_count :: "nat \<Rightarrow> int" where
  "unit_count r = (if r > 0xFFFF then 2 else 1)"

text \<open>The loop of \<open>truncateUnits\<close>: \<open>end\<close> when it leaves the loop.\<close>

fun truncate_loop :: "(nat \<times> string) list \<Rightarrow> nat \<Rightarrow> int \<Rightarrow> int \<Rightarrow> nat \<Rightarrow> int \<Rightarrow> int \<Rightarrow> nat" where
  "truncate_loop [] off bytesUsed unitsUsed e maxBytes maxUTF16 = e"
| "truncate_loop ((r, b) # rest) off bytesUsed unitsUsed e maxBytes maxUTF16 =
     (let byteCount = length (encode_rune r); unitCount = unit_count r in
      if bytesUsed + int byteCount > maxBytes \<or> unitsUsed + unitCount > maxUTF16 then e
      else truncate_loop rest (off + length b) (bytesUsed + int byteCount) (unitsUsed + unitCount)
             (off + byteCount) maxBytes maxUTF16)"

definition truncateUnits :: "string \<Rightarrow> int \<Rightarrow> int \<Rightarrow> string option" where
  "truncateUnits value maxBytes maxUTF16 =
     (let e = truncate_loop (segs value) 0 0 0 0 maxBytes maxUTF16
      in if e \<le> length value then Some (take e value) else None)"

definition utf16Units :: "string \<Rightarrow> int" where
  "utf16Units value = sum_list (map unit_count (runes value))"

definition truncateFilenameComponent :: "string \<Rightarrow> string option" where
  "truncateFilenameComponent name =
     (let extension = filepath_ext name;
          extension = (if extension = name then [] else extension);
          stem = trim_suffix extension name in
      case truncateUnits extension maxExtensionBytes maxExtensionUTF16 of
        None \<Rightarrow> None
      | Some extension \<Rightarrow>
          (case truncateUnits stem (maxFilenameBytes - int (length extension))
                  (maxFilenameUTF16Units - utf16Units extension) of
             None \<Rightarrow> None
           | Some stem \<Rightarrow>
               if stem = [] then
                 map_option (\<lambda>stem. stem @ extension)
                   (truncateUnits ''received-file'' (maxFilenameBytes - int (length extension))
                      (maxFilenameUTF16Units - utf16Units extension))
               else Some (stem @ extension)))"

text \<open>The class \<open>[<>:"/\\|?*\x00-\x1f]\<close> of the regular expression.\<close>

definition reserved_char :: "char \<Rightarrow> bool" where
  "reserved_char c \<longleftrightarrow> byte c < 32 \<or> c \<in> set [CHR ''<'', CHR ''>'', CHR '':'', CHR 0x22, CHR ''/'',
     CHR 0x5C, CHR ''|'', CHR ''?'', CHR ''*'']"

definition clean_chars :: "string \<Rightarrow> string" where
  "clean_chars name =
     (let name = trim_space (filter (\<lambda>c. c \<noteq> CHR 0x00)
            (map (\<lambda>c. if c = CHR 0x5C then slash else c) name));
          name = filepath_base name;
          name = map (\<lambda>c. if reserved_char c then CHR ''_'' else c) name
      in trim (\<lambda>c. c = CHR '' '' \<or> c = CHR ''.'') name)"

definition SafeFilename :: "string \<Rightarrow> string option" where
  "SafeFilename name =
     (let name = clean_chars name;
          name = (if name = [] \<or> name = ''.'' \<or> name = ''..'' then ''received-file'' else name);
          name = (if windowsDeviceName name then CHR ''_'' # name else name)
      in truncateFilenameComponent name)"

section \<open>Truncation of a valid text\<close>

text \<open>How many runes fit: the loop of \<open>truncateUnits\<close> read on the list of runes.\<close>

fun fitting :: "nat list \<Rightarrow> int \<Rightarrow> int \<Rightarrow> nat list" where
  "fitting [] b u = []"
| "fitting (r # rs) b u =
     (if int (length (encode_rune r)) > b \<or> unit_count r > u then []
      else r # fitting rs (b - int (length (encode_rune r))) (u - unit_count r))"

lemma truncate_loop_fitting:
  "truncate_loop (map (\<lambda>r. (r, encode_rune r)) rs) off bu uu off mb mu
     = off + length (utf8 (fitting rs (mb - bu) (mu - uu)))"
proof (induction rs arbitrary: off bu uu)
  case Nil
  show ?case by simp
next
  case (Cons r rs)
  have "mb - (bu + x) = mb - bu - x" for x by simp
  moreover have "mu - (uu + x) = mu - uu - x" for x by simp
  ultimately show ?case using Cons
    by (auto simp: Let_def algebra_simps)
qed

lemma fitting_prefix: "\<exists>rs'. rs = fitting rs b u @ rs'"
  by (induction rs b u rule: fitting.induct) auto

lemma truncateUnits_utf8:
  assumes "\<forall>r \<in> set rs. scalar r"
  shows "truncateUnits (utf8 rs) b u = Some (utf8 (fitting rs b u))"
proof -
  obtain rs' where "rs = fitting rs b u @ rs'" using fitting_prefix by blast
  then have eq: "utf8 rs = utf8 (fitting rs b u) @ utf8 rs'" using utf8_simps(3) by metis
  have "truncate_loop (segs (utf8 rs)) 0 0 0 0 b u = length (utf8 (fitting rs b u))"
    using truncate_loop_fitting [of rs 0 0 0 b u] by (simp add: segs_utf8 assms)
  then show ?thesis unfolding truncateUnits_def Let_def by (simp add: eq)
qed

lemma fitting_bytes: "0 \<le> b \<Longrightarrow> int (length (utf8 (fitting rs b u))) \<le> b"
  by (induction rs b u rule: fitting.induct) auto

lemma fitting_units: "0 \<le> u \<Longrightarrow> sum_list (map unit_count (fitting rs b u)) \<le> u"
  by (induction rs b u rule: fitting.induct) auto

lemma fitting_scalar: "\<forall>r \<in> set rs. scalar r \<Longrightarrow> \<forall>r \<in> set (fitting rs b u). scalar r"
  using fitting_prefix [of rs b u] by (metis UnCI set_append)

lemma length_encode_rune: "int (length (encode_rune r)) \<le> 4"
  by (simp add: encode_rune_def Let_def)

lemma fitting_nonempty: "4 \<le> b \<Longrightarrow> 2 \<le> u \<Longrightarrow> rs \<noteq> [] \<Longrightarrow> fitting rs b u \<noteq> []"
  using length_encode_rune [of "hd rs"] by (cases rs) (auto simp: unit_count_def)

text \<open>On a valid text \<open>truncateUnits\<close> returns a valid prefix within both budgets.\<close>

lemma truncateUnits_valid:
  assumes "valid_utf8 s" and "0 \<le> b" and "0 \<le> u"
  obtains t where "truncateUnits s b u = Some t" and "prefix t s" and "valid_utf8 t"
    and "int (length t) \<le> b" and "utf16Units t \<le> u"
    and "4 \<le> b \<Longrightarrow> 2 \<le> u \<Longrightarrow> s \<noteq> [] \<Longrightarrow> t \<noteq> []"
proof -
  obtain rs where rs: "\<forall>r \<in> set rs. scalar r" "s = utf8 rs" using assms(1) by (auto simp: valid_utf8_iff)
  let ?t = "utf8 (fitting rs b u)"
  note sc = fitting_scalar [OF rs(1), of b u]
  obtain rs' where "rs = fitting rs b u @ rs'" using fitting_prefix by blast
  then have "s = ?t @ utf8 rs'" using rs(2) utf8_simps(3) by metis
  then have "prefix ?t s" by simp
  moreover have "utf16Units ?t \<le> u"
    using fitting_units [OF assms(3)] by (simp add: utf16Units_def runes_utf8 sc)
  moreover have "?t \<noteq> []" if "4 \<le> b" "2 \<le> u" "s \<noteq> []"
  proof -
    have "rs \<noteq> []" using that(3) rs(2) by auto
    then have "fitting rs b u \<noteq> []" using fitting_nonempty that by blast
    then show ?thesis by (cases "fitting rs b u") auto
  qed
  ultimately show thesis
    using truncateUnits_utf8 [OF rs(1)] rs(2) valid_utf8_utf8 [OF sc] fitting_bytes [OF assms(2)]
    by (intro that [of ?t]) simp_all
qed

lemma utf16Units_append:
  assumes "valid_utf8 x"
  shows "utf16Units (x @ y) = utf16Units x + utf16Units y"
proof -
  have "segs (utf8 rs @ y) = map (\<lambda>r. (r, encode_rune r)) rs @ segs y" if "\<forall>r \<in> set rs. scalar r" for rs
    using that by (induction rs) (simp_all add: segs_encode_rune)
  then show ?thesis using assms
    by (auto simp: valid_utf8_iff utf16Units_def runes_def segs_utf8)
qed

lemma utf16Units_nonneg: "0 \<le> utf16Units s"
  unfolding utf16Units_def by (rule sum_list_nonneg) (auto simp: unit_count_def)

section \<open>The resulting component\<close>

definition space_or_dot :: "char \<Rightarrow> bool" where
  "space_or_dot c \<longleftrightarrow> c = CHR '' '' \<or> c = CHR ''.''"

text \<open>What the recipient's file system needs of the name.\<close>

definition safe_component :: "string \<Rightarrow> bool" where
  "safe_component r \<longleftrightarrow> r \<noteq> [] \<and> r \<noteq> ''.'' \<and> r \<noteq> ''..'' \<and> \<not> space_or_dot (hd r)
     \<and> list_all (\<lambda>c. \<not> reserved_char c) r \<and> valid_utf8 r
     \<and> int (length r) \<le> maxFilenameBytes \<and> utf16Units r \<le> maxFilenameUTF16Units"

lemma reserved_ascii: "reserved_char c \<Longrightarrow> ascii c"
  by (auto simp: reserved_char_def ascii_def)

lemma not_reserved_simps [simp]: "\<not> reserved_char CHR ''_''"
  by (simp add: reserved_char_def)

lemma clean_chars_eq:
  "clean_chars name = trim space_or_dot
     (map (\<lambda>c. if reserved_char c then CHR ''_'' else c)
       (filepath_base (trim_space (filter (\<lambda>c. c \<noteq> CHR 0x00)
         (map (\<lambda>c. if c = CHR 0x5C then slash else c) name)))))"
  by (simp add: clean_chars_def Let_def space_or_dot_def [abs_def])

lemma clean_chars_valid: "valid_utf8 name \<Longrightarrow> valid_utf8 (clean_chars name)"
  unfolding clean_chars_eq
  by (intro valid_utf8_trim valid_utf8_map valid_utf8_base valid_utf8_trim_space valid_utf8_filter)
    (auto simp: ascii_def space_or_dot_def dest: reserved_ascii)

lemma clean_chars_not_reserved: "\<forall>c \<in> set (clean_chars name). \<not> reserved_char c"
  unfolding clean_chars_eq using set_trim by fastforce

lemma clean_chars_hd: "clean_chars name \<noteq> [] \<Longrightarrow> \<not> space_or_dot (hd (clean_chars name))"
  unfolding clean_chars_eq by (rule trim_hd)

lemma truncate_component:
  assumes v: "valid_utf8 n" and ne: "n \<noteq> []" and hd: "hd n \<noteq> CHR ''.''"
  obtains r where "truncateFilenameComponent n = Some r" and "r \<noteq> []" and "hd r = hd n"
    and "set r \<subseteq> set n" and "valid_utf8 r"
    and "int (length r) \<le> maxFilenameBytes" and "utf16Units r \<le> maxFilenameUTF16Units"
proof -
  define e where "e = filepath_ext n"
  obtain stem where n: "n = stem @ e"
    using filepath_ext_suffix [of n] by (auto simp: suffix_def e_def)
  have shape: "e = [] \<or> (\<exists>x. e = CHR ''.'' # x)" using filepath_ext_shape [of n] by (auto simp: e_def)
  then have stem: "stem \<noteq> []" "hd stem = hd n" "e \<noteq> n" using n ne hd by (cases stem; auto)+
  have ve: "valid_utf8 e \<and> valid_utf8 stem"
    using shape v n valid_utf8_split [of stem "CHR ''.''"] by (auto simp: ascii_def valid_utf8_Cons)
  then obtain e' where e': "truncateUnits e maxExtensionBytes maxExtensionUTF16 = Some e'"
      "prefix e' e" "valid_utf8 e'" "int (length e') \<le> 40" "utf16Units e' \<le> 40"
    using truncateUnits_valid [of e maxExtensionBytes maxExtensionUTF16]
    by (auto simp: maxExtensionBytes_def maxExtensionUTF16_def)
  let ?b = "maxFilenameBytes - int (length e')" and ?u = "maxFilenameUTF16Units - utf16Units e'"
  have "0 \<le> ?b" "0 \<le> ?u" "4 \<le> ?b" "2 \<le> ?u"
    using e' by (simp_all add: maxFilenameBytes_def maxFilenameUTF16Units_def)
  then obtain s' where s': "truncateUnits stem ?b ?u = Some s'" "prefix s' stem" "valid_utf8 s'"
      "int (length s') \<le> ?b" "utf16Units s' \<le> ?u" "s' \<noteq> []"
    using truncateUnits_valid [of stem ?b ?u] ve stem(1) by metis
  have ts: "trim_suffix e n = stem" unfolding n by simp
  have "truncateFilenameComponent n = Some (s' @ e')"
    unfolding truncateFilenameComponent_def Let_def e_def [symmetric] if_not_P [OF stem(3)] ts
    using e'(1) s'(1,6) by simp
  moreover have "hd (s' @ e') = hd n" using s'(2,6) stem by (auto simp: prefix_def)
  moreover have "set (s' @ e') \<subseteq> set n" using s'(2) e'(2) n by (auto simp: prefix_def)
  moreover have "utf16Units (s' @ e') \<le> maxFilenameUTF16Units"
    using utf16Units_append [OF s'(3)] s'(5) by simp
  ultimately show thesis
    using s' e' by (intro that [of "s' @ e'"]) (simp_all add: valid_utf8_append)
qed

lemma SafeFilename_safe:
  assumes "valid_utf8 name"
  shows "\<exists>r. SafeFilename name = Some r \<and> safe_component r"
proof -
  define a where "a = clean_chars name"
  define b where "b = (if a = [] \<or> a = ''.'' \<or> a = ''..'' then ''received-file'' else a)"
  define n where "n = (if windowsDeviceName b then CHR ''_'' # b else b)"
  have r: "list_all (\<lambda>c. \<not> reserved_char c) ''received-file''" "list_all ascii ''received-file''"
    by (simp_all add: reserved_char_def ascii_def)
  have b: "valid_utf8 b" "b \<noteq> []" "\<not> space_or_dot (hd b)" "\<forall>c \<in> set b. \<not> reserved_char c"
    using clean_chars_valid [OF assms] clean_chars_hd [of name] clean_chars_not_reserved [of name] r
    by (auto simp: b_def a_def space_or_dot_def list_all_iff intro: valid_utf8_ascii)
  have n: "valid_utf8 n" "n \<noteq> []" "\<not> space_or_dot (hd n)" "\<forall>c \<in> set n. \<not> reserved_char c"
    using b by (auto simp: n_def valid_utf8_Cons ascii_def space_or_dot_def)
  then obtain r where r: "truncateFilenameComponent n = Some r" "r \<noteq> []" "hd r = hd n"
      "set r \<subseteq> set n" "valid_utf8 r"
      "int (length r) \<le> maxFilenameBytes" "utf16Units r \<le> maxFilenameUTF16Units"
    using truncate_component [of n] by (auto simp: space_or_dot_def)
  have "SafeFilename name = Some r"
    unfolding SafeFilename_def Let_def a_def [symmetric] b_def [symmetric] n_def [symmetric]
    by (rule r(1))
  moreover have "safe_component r"
    using r n(3,4) by (auto simp: safe_component_def list_all_iff space_or_dot_def)
  ultimately show ?thesis by blast
qed

end
