(* ===== verification/Core.thy ===== *)
theory Core
  imports Filename
begin

text \<open>
  \<open>internal/core/core.go\<close>, except for the file names of \<open>Filename\<close>: identifiers and capability
  tokens, the making of a request, and byte sizes. What the random generator and the key generator
  return is an argument of the functions that draw from them.
\<close>

section \<open>Identifiers and tokens\<close>

text \<open>\<open>^[A-Za-z0-9_-]{20,32}$\<close>\<close>

definition ValidID :: "string \<Rightarrow> bool" where
  "ValidID i \<longleftrightarrow> 20 \<le> length i \<and> length i \<le> 32 \<and> list_all id_char i"

text \<open>\<open>rand.Read\<close> gives the bytes, or an error.\<close>

definition RandomToken :: "string option \<Rightarrow> string + string" where
  "RandomToken read =
     (case read of None \<Rightarrow> Inl ''rand'' | Some b \<Rightarrow> Inr (b64_encode b))"

definition HashToken :: "string \<Rightarrow> string" where
  "HashToken token = sha256_hex token"

lemma id_char_not_special: "id_char c \<Longrightarrow> c \<noteq> slash \<and> c \<noteq> CHR ''.'' \<and> c \<noteq> CHR 0x5C \<and> c \<noteq> CHR ''|''
    \<and> c \<noteq> CHR 0x0A \<and> c \<noteq> CHR ''=''"
  by (auto simp: id_char_def)

lemma ValidID_chars:
  assumes "ValidID i"
  shows "slash \<notin> set i" "CHR ''.'' \<notin> set i" "CHR 0x5C \<notin> set i" "CHR ''|'' \<notin> set i"
    "CHR 0x0A \<notin> set i" "i \<noteq> []"
  using assms id_char_not_special by (auto simp: ValidID_def list_all_iff)

lemma ValidID_base [simp]: "ValidID i \<Longrightarrow> filepath_base i = i"
  using ValidID_chars filepath_base_no_slash by blast

text \<open>A token of 16 random bytes is a valid identifier.\<close>

lemma RandomToken_valid:
  assumes "RandomToken read = Inr t" and "\<forall>b. read = Some b \<longrightarrow> length b = 16"
  shows "ValidID t"
proof -
  obtain b where b: "read = Some b" "t = b64_encode b"
    using assms(1) by (auto simp: RandomToken_def split: option.splits)
  with assms(2) have "length t = 22" by (simp add: length_b64_encode)
  then show ?thesis using b64_encode_id [of b] b by (simp add: ValidID_def list_all_iff)
qed

section \<open>Making a request\<close>

text \<open>
  \<open>URL.Hostname\<close>: the host without its port and without the brackets of an IPv6 literal.
\<close>

definition valid_optional_port :: "string \<Rightarrow> bool" where
  "valid_optional_port port =
     (case port of [] \<Rightarrow> True | c # ds \<Rightarrow> c = CHR '':'' \<and> list_all is_digit ds)"

definition url_hostname :: "string \<Rightarrow> string" where
  "url_hostname hostport =
     (let tail = takeWhile (\<lambda>c. c \<noteq> CHR '':'') (rev hostport);
          host = (if CHR '':'' \<in> set hostport \<and> valid_optional_port (CHR '':'' # rev tail)
                  then take (length hostport - length tail - 1) hostport else hostport)
      in if prefix ''['' host \<and> suffix '']'' host then drop 1 (take (length host - 1) host) else host)"

text \<open>\<open>url.QueryEscape\<close> of one byte, and of a string.\<close>

definition query_escape_char :: "char \<Rightarrow> string" where
  "query_escape_char c =
     (if id_char c \<or> c = CHR ''.'' \<or> c = CHR ''~'' then [c]
      else if c = CHR '' '' then ''+''
      else let h = (\<lambda>n. if n < 10 then chr (48 + n) else chr (55 + n))
        in [CHR ''%'', h (byte c div 16), h (byte c mod 16)])"

definition QueryEscape :: "string \<Rightarrow> string" where
  "QueryEscape s = concat (map query_escape_char s)"

lemma QueryEscape_id: "\<forall>c \<in> set s. id_char c \<Longrightarrow> QueryEscape s = s"
  by (induction s) (simp_all add: QueryEscape_def query_escape_char_def)

text \<open>
  \<open>url.Parse\<close> is an argument that gives the scheme and the host of a URL it accepts. The draws of
  the generators come in the order of the code: identifier, submit token, collect token, key pair
  (private and public bytes).
\<close>

record draws =
  drawID :: "string option"
  drawSubmit :: "string option"
  drawCollect :: "string option"
  drawKey :: "(string \<times> string) option"

definition loopback_name :: "string \<Rightarrow> bool" where
  "loopback_name h \<longleftrightarrow> h = ''localhost'' \<or> h = ''127.0.0.1'' \<or> h = ''[::1]''"

definition MakeRequest ::
  "(string \<Rightarrow> (string \<times> string) option) \<Rightarrow> draws \<Rightarrow> string \<Rightarrow> string \<Rightarrow> time \<Rightarrow> time \<Rightarrow> int64
    \<Rightarrow> int64 \<Rightarrow> bool \<Rightarrow> string + RequestBundle \<times> KeyFile" where
  "MakeRequest parse rnd baseURL label createdAt expiresAt maxFiles maxBytes deleteAfterCollect =
     (let baseURL = trim_right (\<lambda>c. c = slash) (trim_space baseURL) in
      case parse baseURL of
        None \<Rightarrow> Inl ''base URL must be an absolute http or https URL''
      | Some (scheme, host) \<Rightarrow>
      if scheme = [] \<or> host = [] then Inl ''base URL must be an absolute http or https URL''
      else if scheme \<noteq> ''https'' \<and> \<not> (scheme = ''http'' \<and> loopback_name (url_hostname host))
      then Inl ''base URL must use HTTPS (HTTP is allowed only for localhost)''
      else let label = trim_space label in
      if label = [] \<or> length label > 120 then Inl ''label must contain 1 to 120 characters''
      else if \<not> after expiresAt createdAt then Inl ''expiration must be in the future''
      else if maxFiles < 1 \<or> maxFiles > 10000 then Inl ''max files must be between 1 and 10000''
      else if maxBytes < 1 \<or> maxBytes > 2 ^ 50
      then Inl ''max bytes must be between 1 byte and 1 PiB''
      else case RandomToken (drawID rnd) of Inl e \<Rightarrow> Inl e | Inr rid \<Rightarrow>
      case RandomToken (drawSubmit rnd) of Inl e \<Rightarrow> Inl e | Inr submitToken \<Rightarrow>
      case RandomToken (drawCollect rnd) of Inl e \<Rightarrow> Inl e | Inr collectToken \<Rightarrow>
      case drawKey rnd of None \<Rightarrow> Inl ''rand'' | Some (priv, pub) \<Rightarrow>
      let publicKey = b64_encode pub;
          bundle = \<lparr>rbSchemaVersion = SchemaVersion, rbID = rid, rbLabel = label,
            rbCreatedAt = createdAt, rbExpiresAt = expiresAt, rbMaxFiles = maxFiles,
            rbMaxBytes = maxBytes, rbDeleteAfterCollect = deleteAfterCollect,
            rbPublicKey = publicKey, rbSubmitTokenHash = HashToken submitToken,
            rbCollectTokenHash = HashToken collectToken\<rparr>;
          submitURL = baseURL @ ''/r/'' @ rid @ ''#t='' @ QueryEscape submitToken;
          key = \<lparr>kfSchemaVersion = SchemaVersion, kfRequestID = rid, kfLabel = label,
            kfCreatedAt = createdAt, kfExpiresAt = expiresAt, kfServerURL = baseURL,
            kfSubmitURL = submitURL, kfCollectToken = collectToken,
            kfPrivateKey = b64_encode priv, kfPublicKey = publicKey\<rparr>
      in Inr (bundle, key))"

section \<open>Byte sizes\<close>

definition re_space :: "char \<Rightarrow> bool" where
  "re_space c \<longleftrightarrow> c \<in> set [CHR 0x09, CHR 0x0A, CHR 0x0C, CHR 0x0D, CHR '' '']"

definition multipliers :: "(string \<times> int64) list" where
  "multipliers = [('''', 1), (''B'', 1), (''KB'', 1000), (''KIB'', 2 ^ 10), (''MB'', 1000 * 1000),
     (''MIB'', 2 ^ 20), (''GB'', 1000 * 1000 * 1000), (''GIB'', 2 ^ 30),
     (''TB'', 1000 * 1000 * 1000 * 1000), (''TIB'', 2 ^ 40)]"

text \<open>
  The regular expression \<open>^([0-9]+)\s*(B|KB|...)?$\<close>: its three parts are over disjoint alphabets, so
  there is at most one way to match.
\<close>

definition size_match :: "string \<Rightarrow> (string \<times> string) option" where
  "size_match s =
     (let d = takeWhile is_digit s; u = dropWhile re_space (dropWhile is_digit s)
      in if d \<noteq> [] \<and> u \<in> set (map fst multipliers) then Some (d, u) else None)"

definition ParseBytes :: "string \<Rightarrow> string + int64" where
  "ParseBytes value =
     (case size_match (trim_space (to_upper value)) of
        None \<Rightarrow> Inl ''invalid byte size''
      | Some (d, u) \<Rightarrow>
          let n = int (digits_value d) in
          if n \<ge> 2 ^ 63 then Inl ''integer overflow''
          else let mul = the (map_of multipliers u) in
            if n \<le> 0 \<or> n > 2 ^ 62 div mul then Inl ''byte size is out of range''
            else Inr (wrap64 (n * mul)))"

lemma multiplier_pos: "map_of multipliers u = Some m \<Longrightarrow> 1 \<le> m"
proof -
  assume "map_of multipliers u = Some m"
  then have "snd (u, m) \<in> snd ` set multipliers" by (intro imageI map_of_SomeD)
  then have "m \<in> set (map snd multipliers)" by (simp only: snd_conv set_map)
  moreover have "list_all (\<lambda>x. 1 \<le> x) (map snd multipliers)" by (simp add: multipliers_def)
  ultimately show "1 \<le> m" unfolding list_all_iff by blast
qed

text \<open>A parsed size is the exact product of the number and its unit; the multiplication cannot wrap.\<close>

lemma ParseBytes_exact:
  assumes "ParseBytes value = Inr n"
  obtains d u mul where "size_match (trim_space (to_upper value)) = Some (d, u)"
    and "map_of multipliers u = Some mul" and "n = int (digits_value d) * mul"
    and "1 \<le> n" and "n \<le> 2 ^ 62"
proof -
  obtain d u where m: "size_match (trim_space (to_upper value)) = Some (d, u)"
    using assms by (auto simp: ParseBytes_def split: option.splits)
  then have "u \<in> set (map fst multipliers)" by (auto simp: size_match_def Let_def split: if_splits)
  then obtain mul where mul: "map_of multipliers u = Some mul"
    by (metis (no_types) image_set map_of_eq_None_iff option.exhaust)
  let ?n = "int (digits_value d)"
  have n: "\<not> ?n \<le> 0" "\<not> ?n > 2 ^ 62 div mul" "n = wrap64 (?n * mul)"
    using assms m mul by (simp_all add: ParseBytes_def Let_def split: if_splits)
  have "1 \<le> mul" using multiplier_pos mul by blast
  then have "?n * mul \<le> 2 ^ 62 div mul * mul" using n(2) by (intro mult_right_mono) simp_all
  also have "\<dots> \<le> 2 ^ 62" using \<open>1 \<le> mul\<close> by (simp add: minus_mod_eq_div_mult [symmetric])
  finally have le: "?n * mul \<le> 2 ^ 62" .
  moreover have "0 < ?n * mul" by (rule mult_pos_pos) (use n(1) \<open>1 \<le> mul\<close> in linarith)+
  then have ge: "1 \<le> ?n * mul" by linarith
  ultimately have "wrap64 (?n * mul) = ?n * mul" by (intro wrap64_id) (simp add: in_int64_def)
  with n(3) le ge show thesis by (intro that [OF m mul]) simp_all
qed

end
