(* ===== verification/Cryptobox.thy ===== *)
theory Cryptobox
  imports Core
begin

text \<open>
  \<open>internal/cryptobox/cryptobox.go\<close>: the canonical texts that bind a manifest, the nonces, the
  associated data, the receipt root, and the recipient's opener. ECDH, HKDF, AES-GCM and the JSON
  decoder of the metadata are the fields of a record that the functions take as an argument;
  the check that a P-256 public key or scalar is well formed is written out.
\<close>

section \<open>P-256 key encodings\<close>

definition bytes_int :: "string \<Rightarrow> int" where
  "bytes_int s = foldl (\<lambda>n c. n * 256 + int (byte c)) 0 s"

definition p256_p :: int where
  "p256_p = 0xffffffff00000001000000000000000000000000ffffffffffffffffffffffff"

definition p256_n :: int where
  "p256_n = 0xffffffff00000000ffffffffffffffffbce6faada7179e84f3b9cac2fc632551"

definition p256_b :: int where
  "p256_b = 0x5ac635d8aa3a93e7b3ebbd55769886bc651d06b0cc53b0f63bce3c3e27d2604b"

text \<open>\<open>ecdh.P256().NewPublicKey\<close> takes an uncompressed point on the curve, \<open>NewPrivateKey\<close> a scalar in range.\<close>

definition NewPublicKey_ok :: "string \<Rightarrow> bool" where
  "NewPublicKey_ok b \<longleftrightarrow> length b = 65 \<and> byte (hd b) = 4 \<and>
     (let x = bytes_int (take 32 (drop 1 b)); y = bytes_int (drop 33 b) in
      x < p256_p \<and> y < p256_p \<and> (y * y - (x * x * x - 3 * x + p256_b)) mod p256_p = 0)"

definition NewPrivateKey_ok :: "string \<Rightarrow> bool" where
  "NewPrivateKey_ok b \<longleftrightarrow> length b = 32 \<and> 0 < bytes_int b \<and> bytes_int b < p256_n"

text \<open>A field of a bundle or manifest that holds a public key.\<close>

definition public_key_field_ok :: "string \<Rightarrow> bool" where
  "public_key_field_ok f = (case b64_decode f of None \<Rightarrow> False | Some b \<Rightarrow> NewPublicKey_ok b)"

section \<open>Canonical texts\<close>

abbreviation newline :: char where
  "newline \<equiv> CHR 0x0A"

definition KDFInfo :: "string \<Rightarrow> string \<Rightarrow> string" where
  "KDFInfo requestID uploadID = ''OpaqueDrop/v1/request/'' @ requestID @ ''/upload/'' @ uploadID"

definition MetadataAAD :: "string \<Rightarrow> string \<Rightarrow> string \<Rightarrow> string" where
  "MetadataAAD requestID uploadID headerHash =
     ''opaquedrop/v1|'' @ requestID @ ''|'' @ uploadID @ ''|header|'' @ headerHash @ ''|metadata''"

definition ChunkAAD :: "string \<Rightarrow> string \<Rightarrow> string \<Rightarrow> int \<Rightarrow> string" where
  "ChunkAAD requestID uploadID headerHash index =
     ''opaquedrop/v1|'' @ requestID @ ''|'' @ uploadID @ ''|header|'' @ headerHash @ ''|chunk|''
       @ int_str index"

definition HeaderCanonical :: "Manifest \<Rightarrow> string" where
  "HeaderCanonical m =
     ''opaquedrop/v1/header'' @ [newline] @ ''version='' @ int_str (mfVersion m)
       @ [newline] @ ''request_id='' @ mfRequestID m
       @ [newline] @ ''upload_id='' @ mfUploadID m
       @ [newline] @ ''algorithm='' @ mfAlgorithm m
       @ [newline] @ ''ephemeral_public_key='' @ mfEphemeralPublicKey m
       @ [newline] @ ''salt='' @ mfSalt m
       @ [newline] @ ''nonce_prefix='' @ mfNoncePrefix m
       @ [newline] @ ''chunk_size='' @ int_str (mfChunkSize m)
       @ [newline] @ ''chunk_count='' @ int_str (mfChunkCount m)
       @ [newline] @ ''plain_size='' @ int_str (mfPlainSize m) @ [newline]"

definition HeaderSHA256 :: "Manifest \<Rightarrow> string" where
  "HeaderSHA256 m = sha256_hex (HeaderCanonical m)"

definition receipt_preimage :: "string \<Rightarrow> string list \<Rightarrow> string" where
  "receipt_preimage manifest chunkDigests =
     ''OpaqueDrop receipt v1'' @ [CHR 0x00] @ sha256 manifest @ concat chunkDigests"

definition ReceiptRoot :: "string \<Rightarrow> string list \<Rightarrow> string" where
  "ReceiptRoot manifest chunkDigests = sha256_hex (receipt_preimage manifest chunkDigests)"

text \<open>A value followed by a fixed text and a separator that neither contains can be read back.\<close>

lemma field_inj:
  assumes "a @ fixed @ c # r = a' @ fixed @ c # r'"
    and "c \<notin> set a" and "c \<notin> set a'" and "c \<notin> set fixed"
  shows "a = a' \<and> r = r'"
proof -
  have "(a @ fixed) @ c # r = (a' @ fixed) @ c # r'" using assms(1) by simp
  then have "a @ fixed = a' @ fixed \<and> r = r'"
    by (rule append_sep_inj) (use assms in auto)
  then show ?thesis by simp
qed

text \<open>
  The canonical header determines the public fields when no value holds an equals sign. A value
  may hold a line break (the base64 decoder skips them): the names and equals signs still fix
  where each value ends.
\<close>

definition eq_free :: "Manifest \<Rightarrow> bool" where
  "eq_free m \<longleftrightarrow> CHR ''='' \<notin> set (mfRequestID m) \<union> set (mfUploadID m) \<union> set (mfAlgorithm m)
     \<union> set (mfEphemeralPublicKey m) \<union> set (mfSalt m) \<union> set (mfNoncePrefix m)"

definition public_fields :: "Manifest \<Rightarrow> Manifest" where
  "public_fields m = m\<lparr>mfHeaderSHA256 := [], mfEncryptedMetadata := []\<rparr>"

lemma int_str_no_eq: "CHR ''='' \<notin> set (int_str i)"
  using int_str_chars [of i] by (auto simp: is_digit_def)

lemma HeaderCanonical_inj:
  assumes "HeaderCanonical m = HeaderCanonical m'" and "eq_free m" and "eq_free m'"
  shows "public_fields m = public_fields m'"
proof -
  note ne = assms(2,3) [unfolded eq_free_def]
  note i = int_str_no_eq
  let ?E = "CHR ''=''"
  have h0: "int_str (mfVersion m) @ (newline # ''request_id'') @ ?E # mfRequestID m
       @ (newline # ''upload_id'') @ ?E # mfUploadID m
       @ (newline # ''algorithm'') @ ?E # mfAlgorithm m
       @ (newline # ''ephemeral_public_key'') @ ?E # mfEphemeralPublicKey m
       @ (newline # ''salt'') @ ?E # mfSalt m
       @ (newline # ''nonce_prefix'') @ ?E # mfNoncePrefix m
       @ (newline # ''chunk_size'') @ ?E # int_str (mfChunkSize m)
       @ (newline # ''chunk_count'') @ ?E # int_str (mfChunkCount m)
       @ (newline # ''plain_size'') @ ?E # int_str (mfPlainSize m) @ [newline]
     = int_str (mfVersion m') @ (newline # ''request_id'') @ ?E # mfRequestID m'
       @ (newline # ''upload_id'') @ ?E # mfUploadID m'
       @ (newline # ''algorithm'') @ ?E # mfAlgorithm m'
       @ (newline # ''ephemeral_public_key'') @ ?E # mfEphemeralPublicKey m'
       @ (newline # ''salt'') @ ?E # mfSalt m'
       @ (newline # ''nonce_prefix'') @ ?E # mfNoncePrefix m'
       @ (newline # ''chunk_size'') @ ?E # int_str (mfChunkSize m')
       @ (newline # ''chunk_count'') @ ?E # int_str (mfChunkCount m')
       @ (newline # ''plain_size'') @ ?E # int_str (mfPlainSize m') @ [newline]"
    using assms(1) unfolding HeaderCanonical_def by simp
  have f: "?E \<notin> set (newline # ''request_id'')"
    "?E \<notin> set (newline # ''upload_id'')"
    "?E \<notin> set (newline # ''algorithm'')"
    "?E \<notin> set (newline # ''ephemeral_public_key'')"
    "?E \<notin> set (newline # ''salt'')"
    "?E \<notin> set (newline # ''nonce_prefix'')"
    "?E \<notin> set (newline # ''chunk_size'')"
    "?E \<notin> set (newline # ''chunk_count'')"
    "?E \<notin> set (newline # ''plain_size'')"
    by simp_all
  have v: "?E \<notin> set (mfRequestID m)" "?E \<notin> set (mfRequestID m')"
    "?E \<notin> set (mfUploadID m)" "?E \<notin> set (mfUploadID m')"
    "?E \<notin> set (mfAlgorithm m)" "?E \<notin> set (mfAlgorithm m')"
    "?E \<notin> set (mfEphemeralPublicKey m)" "?E \<notin> set (mfEphemeralPublicKey m')"
    "?E \<notin> set (mfSalt m)" "?E \<notin> set (mfSalt m')"
    "?E \<notin> set (mfNoncePrefix m)" "?E \<notin> set (mfNoncePrefix m')"
    using ne by blast+
  note h1 = field_inj [OF h0 i i f(1)]
  note h2 = field_inj [OF h1 [THEN conjunct2] v(1) v(2) f(2)]
  note h3 = field_inj [OF h2 [THEN conjunct2] v(3) v(4) f(3)]
  note h4 = field_inj [OF h3 [THEN conjunct2] v(5) v(6) f(4)]
  note h5 = field_inj [OF h4 [THEN conjunct2] v(7) v(8) f(5)]
  note h6 = field_inj [OF h5 [THEN conjunct2] v(9) v(10) f(6)]
  note h7 = field_inj [OF h6 [THEN conjunct2] v(11) v(12) f(7)]
  note h8 = field_inj [OF h7 [THEN conjunct2] i i f(8)]
  note h9 = field_inj [OF h8 [THEN conjunct2] i i f(9)]
  note h = h1 [THEN conjunct1] h2 [THEN conjunct1] h3 [THEN conjunct1] h4 [THEN conjunct1]
    h5 [THEN conjunct1] h6 [THEN conjunct1] h7 [THEN conjunct1] h8 [THEN conjunct1]
    h9 [THEN conjunct1] h9 [THEN conjunct2]
  have "mfVersion m = mfVersion m'" "mfChunkSize m = mfChunkSize m'"
    "mfChunkCount m = mfChunkCount m'" "mfPlainSize m = mfPlainSize m'"
    using h by (simp_all add: int_str_inj)
  with h show ?thesis by (simp add: public_fields_def)
qed

text \<open>The associated data names the request, the upload, the header and the position.\<close>

definition bar_free :: "string \<Rightarrow> bool" where
  "bar_free s \<longleftrightarrow> CHR ''|'' \<notin> set s"

lemma int_str_no_bar: "CHR ''|'' \<notin> set (int_str i)"
  using int_str_chars [of i] by (auto simp: is_digit_def)

lemma aad_inj:
  assumes "''opaquedrop/v1|'' @ r @ ''|'' @ u @ ''|header|'' @ h @ ''|'' @ rest
     = ''opaquedrop/v1|'' @ r' @ ''|'' @ u' @ ''|header|'' @ h' @ ''|'' @ rest'"
    and "bar_free r" "bar_free u" "bar_free h" "bar_free r'" "bar_free u'" "bar_free h'"
  shows "r = r' \<and> u = u' \<and> h = h' \<and> rest = rest'"
proof -
  let ?B = "CHR ''|''"
  note f = assms(2-7) [unfolded bar_free_def]
  have h0: "r @ ?B # u @ ?B # ''header'' @ ?B # h @ ?B # rest
     = r' @ ?B # u' @ ?B # ''header'' @ ?B # h' @ ?B # rest'"
    using assms(1) by simp
  note h1 = append_sep_inj [OF h0 f(1) f(4)]
  note h2 = append_sep_inj [OF h1 [THEN conjunct2] f(2) f(5)]
  have "h @ ?B # rest = h' @ ?B # rest'" using h2 by simp
  note h3 = append_sep_inj [OF this f(3) f(6)]
  show ?thesis using h1 h2 h3 by simp
qed

lemma ChunkAAD_eq:
  "ChunkAAD r u h i = ''opaquedrop/v1|'' @ r @ ''|'' @ u @ ''|header|'' @ h @ ''|'' @ (''chunk|'' @ int_str i)"
  by (simp add: ChunkAAD_def)

lemma MetadataAAD_eq:
  "MetadataAAD r u h = ''opaquedrop/v1|'' @ r @ ''|'' @ u @ ''|header|'' @ h @ ''|'' @ ''metadata''"
  by (simp add: MetadataAAD_def)

lemma ChunkAAD_inj:
  assumes "ChunkAAD r u h i = ChunkAAD r' u' h' i'"
    and "bar_free r" "bar_free u" "bar_free h" "bar_free r'" "bar_free u'" "bar_free h'"
  shows "r = r' \<and> u = u' \<and> h = h' \<and> i = i'"
  using aad_inj [OF assms(1) [unfolded ChunkAAD_eq] assms(2-7)] by (simp add: int_str_inj)

lemma Chunk_Metadata_AAD_differ:
  assumes "bar_free r" "bar_free u" "bar_free h" "bar_free r'" "bar_free u'" "bar_free h'"
  shows "ChunkAAD r u h i \<noteq> MetadataAAD r' u' h'"
  using aad_inj [of r u h "''chunk|'' @ int_str i" r' u' h' "''metadata''"] assms
  by (auto simp: ChunkAAD_eq MetadataAAD_eq)

lemma KDFInfo_inj:
  assumes "KDFInfo r u = KDFInfo r' u'" and "slash \<notin> set r" and "slash \<notin> set r'"
  shows "r = r' \<and> u = u'"
proof -
  have "r @ slash # ''upload/'' @ u = r' @ slash # ''upload/'' @ u'"
    using assms(1) by (simp add: KDFInfo_def)
  from append_sep_inj [OF this assms(2,3)] show ?thesis by simp
qed

text \<open>The receipt preimage fixes the manifest digest and every chunk digest in its position.\<close>

lemma concat_blocks_inj:
  assumes "concat xs = concat ys" and "\<forall>x \<in> set xs. length x = k" and "\<forall>y \<in> set ys. length y = k"
    and "0 < k"
  shows "xs = ys"
  using assms
proof (induction xs arbitrary: ys)
  case Nil
  then show ?case by (cases ys) auto
next
  case (Cons x xs)
  then show ?case by (cases ys) auto
qed

lemma receipt_preimage_inj:
  assumes "receipt_preimage m ds = receipt_preimage m' ds'"
    and "\<forall>d \<in> set ds. length d = 32" and "\<forall>d \<in> set ds'. length d = 32"
  shows "sha256 m = sha256 m' \<and> ds = ds'"
proof -
  have "sha256 m @ concat ds = sha256 m' @ concat ds'"
    using assms(1) by (simp add: receipt_preimage_def)
  then have "sha256 m = sha256 m'" and "concat ds = concat ds'" by simp_all
  then show ?thesis using concat_blocks_inj [of ds ds' 32] assms(2,3) by simp
qed

section \<open>Nonces\<close>

definition metadataNonceIndex :: nat where
  "metadataNonceIndex = 2 ^ 32 - 1"

text \<open>\<open>copy(nonce, o.noncePrefix)\<close> into twelve zero bytes, then the big-endian index over the last four.\<close>

definition make_nonce :: "string \<Rightarrow> nat \<Rightarrow> string" where
  "make_nonce noncePrefix index =
     take 8 (noncePrefix @ replicate 12 CHR 0x00) @ map chr (be_bytes 4 index)"

lemma be_bytes_inj: "be_bytes k m = be_bytes k n \<Longrightarrow> m < 256 ^ k \<Longrightarrow> n < 256 ^ k \<Longrightarrow> m = n"
proof (induction k m arbitrary: n rule: be_bytes.induct)
  case (1 m)
  then show ?case by simp
next
  case (2 k m)
  then have "be_bytes k (m div 256) = be_bytes k (n div 256)" and mod: "m mod 256 = n mod 256"
    by simp_all
  moreover have "m div 256 < 256 ^ k" "n div 256 < 256 ^ k"
    using 2 by (simp_all add: less_mult_imp_div_less mult.commute)
  ultimately have "m div 256 = n div 256" using 2 by blast
  with mod show ?case by (metis div_mult_mod_eq)
qed

lemma be_bytes_bound: "\<forall>b \<in> set (be_bytes k n). b < 256"
  by (induction k n rule: be_bytes.induct) auto

lemma make_nonce_inj:
  assumes "make_nonce p i = make_nonce p j" and "i < 2 ^ 32" and "j < 2 ^ 32"
  shows "i = j"
proof -
  have "map chr (be_bytes 4 i) = map chr (be_bytes 4 j)" using assms(1) by (simp add: make_nonce_def)
  then have "map byte (map chr (be_bytes 4 i)) = map byte (map chr (be_bytes 4 j))" by simp
  moreover have "map byte (map chr (be_bytes 4 n)) = be_bytes 4 n" for n
    unfolding map_map comp_def by (rule map_idI) (use be_bytes_bound in auto)
  ultimately have "be_bytes 4 i = be_bytes 4 j" by simp
  then show ?thesis using assms(2,3) by (intro be_bytes_inj [of 4]) simp_all
qed

lemma length_make_nonce: "length (make_nonce p i) = 12"
  by (simp add: make_nonce_def)

section \<open>The opener\<close>

text \<open>
  What \<open>crypto/ecdh\<close>, \<open>crypto/hkdf\<close>, AES-GCM and \<open>json.Unmarshal\<close> into \<open>FileMetadata\<close> compute:
  \<open>prOpen key nonce ciphertext aad\<close> is the plaintext when the tag is right.
\<close>

record primitives =
  prECDH :: "string \<Rightarrow> string \<Rightarrow> string option"
  prHKDF :: "string \<Rightarrow> string \<Rightarrow> string \<Rightarrow> string option"
  prOpen :: "string \<Rightarrow> string \<Rightarrow> string \<Rightarrow> string \<Rightarrow> string option"
  prMetadata :: "string \<Rightarrow> FileMetadata option"

record Opener =
  opKey :: string
  opNoncePrefix :: string
  opRequestID :: string
  opUploadID :: string
  opHeaderHash :: string

definition NewOpener :: "primitives \<Rightarrow> KeyFile \<Rightarrow> Manifest \<Rightarrow> string + Opener" where
  "NewOpener pr key manifest =
     (if mfVersion manifest \<noteq> ProtocolVersion \<or> mfAlgorithm manifest \<noteq> Algorithm
      then Inl ''unsupported encryption protocol''
      else if mfRequestID manifest \<noteq> kfRequestID key then Inl ''key file does not match request''
      else let headerHash = HeaderSHA256 manifest in
      case hex_decode (mfHeaderSHA256 manifest) of
        None \<Rightarrow> Inl ''invalid manifest header binding''
      | Some want \<Rightarrow>
      if length want \<noteq> 32 then Inl ''invalid manifest header binding''
      else if hex_decode headerHash \<noteq> Some want then Inl ''manifest header binding mismatch''
      else case b64_decode (kfPrivateKey key) of
        None \<Rightarrow> Inl ''decode private key''
      | Some privateBytes \<Rightarrow>
      if \<not> NewPrivateKey_ok privateBytes then Inl ''invalid private key''
      else case b64_decode (mfEphemeralPublicKey manifest) of
        None \<Rightarrow> Inl ''decode ephemeral public key''
      | Some publicBytes \<Rightarrow>
      if \<not> NewPublicKey_ok publicBytes then Inl ''invalid ephemeral public key''
      else case prECDH pr privateBytes publicBytes of
        None \<Rightarrow> Inl ''derive shared secret''
      | Some shared \<Rightarrow>
      case b64_decode (mfSalt manifest) of
        None \<Rightarrow> Inl ''invalid HKDF salt''
      | Some salt \<Rightarrow>
      if length salt \<noteq> 32 then Inl ''invalid HKDF salt''
      else case prHKDF pr shared salt (KDFInfo (mfRequestID manifest) (mfUploadID manifest)) of
        None \<Rightarrow> Inl ''derive AES key''
      | Some aesKey \<Rightarrow>
      case b64_decode (mfNoncePrefix manifest) of
        None \<Rightarrow> Inl ''invalid nonce prefix''
      | Some pre \<Rightarrow>
      if length pre \<noteq> 8 then Inl ''invalid nonce prefix''
      else Inr \<lparr>opKey = aesKey, opNoncePrefix = pre, opRequestID = mfRequestID manifest,
        opUploadID = mfUploadID manifest, opHeaderHash = headerHash\<rparr>)"

definition opener_nonce :: "Opener \<Rightarrow> nat \<Rightarrow> string" where
  "opener_nonce op index = make_nonce (opNoncePrefix op) index"

definition Metadata :: "primitives \<Rightarrow> Opener \<Rightarrow> string \<Rightarrow> string + FileMetadata" where
  "Metadata pr op ciphertext =
     (case b64_decode ciphertext of
        None \<Rightarrow> Inl ''invalid encrypted metadata encoding''
      | Some b \<Rightarrow>
      case prOpen pr (opKey op) (opener_nonce op metadataNonceIndex) b
             (MetadataAAD (opRequestID op) (opUploadID op) (opHeaderHash op)) of
        None \<Rightarrow> Inl ''metadata authentication failed''
      | Some plain \<Rightarrow>
      (case prMetadata pr plain of
         None \<Rightarrow> Inl ''decrypted metadata is invalid''
       | Some metadata \<Rightarrow> Inr metadata))"

definition Chunk :: "primitives \<Rightarrow> Opener \<Rightarrow> int \<Rightarrow> string \<Rightarrow> string + string" where
  "Chunk pr op index ciphertext =
     (if index < 0 \<or> int metadataNonceIndex \<le> index then Inl ''chunk index out of range''
      else case prOpen pr (opKey op) (opener_nonce op (nat (index mod 2 ^ 32))) ciphertext
             (ChunkAAD (opRequestID op) (opUploadID op) (opHeaderHash op) index) of
        None \<Rightarrow> Inl ''chunk authentication failed''
      | Some plain \<Rightarrow> Inr plain)"

text \<open>What a successful \<open>NewOpener\<close> has checked.\<close>

lemma NewOpener_ok:
  assumes "NewOpener pr key m = Inr op"
  shows "mfVersion m = ProtocolVersion" and "mfAlgorithm m = Algorithm"
    and "mfRequestID m = kfRequestID key" and "hex_decode (mfHeaderSHA256 m) = Some (sha256 (HeaderCanonical m))"
    and "opRequestID op = mfRequestID m" and "opUploadID op = mfUploadID m"
    and "opHeaderHash op = HeaderSHA256 m" and "length (opNoncePrefix op) = 8"
  using assms by (auto simp: NewOpener_def Let_def HeaderSHA256_def split: ok_split)

lemma Chunk_ok:
  assumes "Chunk pr op i c = Inr p"
  shows "0 \<le> i" and "i < int metadataNonceIndex"
    and "prOpen pr (opKey op) (opener_nonce op (nat i)) c
           (ChunkAAD (opRequestID op) (opUploadID op) (opHeaderHash op) i) = Some p"
proof -
  have r: "0 \<le> i" "i < int metadataNonceIndex"
    using assms by (auto simp: Chunk_def split: ok_split)
  then show "0 \<le> i" "i < int metadataNonceIndex" by blast+
  have "i mod 2 ^ 32 = i" using r by (simp add: metadataNonceIndex_def)
  then show "prOpen pr (opKey op) (opener_nonce op (nat i)) c
           (ChunkAAD (opRequestID op) (opUploadID op) (opHeaderHash op) i) = Some p"
    using assms by (auto simp: Chunk_def split: ok_split)
qed

end
