(* ===== verification/Files.thy ===== *)
theory Files
  imports Cryptobox
begin

text \<open>
  The data directory as the program uses it through package \<open>os\<close>: a finite table from paths
  (relative to the root of the data directory) to nodes, and one function per call. Every call can
  fail: the environment says which calls on which paths report an I/O error. A JSON file that the
  server writes holds the value it encodes; files with bytes from a client hold those bytes.
\<close>

section \<open>Nodes and the table\<close>

type_synonym path = "string list"

datatype content =
    Raw string
  | JBundle RequestBundle
  | JClosure RequestClosure
  | JState UploadServerState
  | JReceipt Receipt
  | JAck time
  | JMarker time

text \<open>\<open>Special\<close> is an entry that is neither a directory nor a regular file, such as a symbolic link.\<close>

datatype node = Dir | File content | Special

datatype os_error = NotExist | Exist | IOError

datatype fop = OpStat | OpLstat | OpOpen | OpRead | OpReadDir | OpMkdir | OpCreate | OpWrite
  | OpRename | OpChmod | OpRemove | OpSync | OpLink

type_synonym disk = "(path \<times> node) list"

text \<open>
  What a call of the store finds around it: the clock, the faults of the disk, whether the data path
  itself is a symbolic link, the JSON decoder for manifests and the JSON text of a written value.
\<close>

record env =
  envNow :: time
  envFault :: "fop \<Rightarrow> path \<Rightarrow> bool"
  envRootLink :: bool
  envManifest :: "string \<Rightarrow> Manifest option"
  envJSON :: "content \<Rightarrow> string"

definition get :: "disk \<Rightarrow> path \<Rightarrow> node option" where
  "get d p = map_of d p"

definition put :: "disk \<Rightarrow> path \<Rightarrow> node \<Rightarrow> disk" where
  "put d p n = AList.update p n d"

definition del :: "disk \<Rightarrow> (path \<Rightarrow> bool) \<Rightarrow> disk" where
  "del d P = filter (\<lambda>e. \<not> P (fst e)) d"

text \<open>The table as its clients see it: one entry changes, or the entries of a predicate go.\<close>

locale file_table =
  fixes look :: "'d \<Rightarrow> path \<Rightarrow> node option"
    and upd :: "'d \<Rightarrow> path \<Rightarrow> node \<Rightarrow> 'd"
    and rem :: "'d \<Rightarrow> (path \<Rightarrow> bool) \<Rightarrow> 'd"
  assumes look_upd: "look (upd d p n) q = (if q = p then Some n else look d q)"
    and look_rem: "look (rem d P) q = (if P q then None else look d q)"
begin

text \<open>Every entry but the root lies in a directory.\<close>

definition tree :: "'d \<Rightarrow> bool" where
  "tree d \<longleftrightarrow> (\<forall>p n. look d p = Some n \<longrightarrow> p = [] \<or> look d (butlast p) = Some Dir)"

lemma tree_upd:
  assumes "tree d" and "p = [] \<or> look d (butlast p) = Some Dir"
    and "look d p = Some Dir \<Longrightarrow> n = Dir"
  shows "tree (upd d p n)"
proof -
  have "p \<noteq> [] \<Longrightarrow> butlast p \<noteq> p" by (metis append_butlast_last_id not_Cons_self2 self_append_conv)
  then show ?thesis using assms unfolding tree_def look_upd
    by (metis (full_types) option.inject)
qed

lemma tree_rem:
  assumes "tree d" and "\<And>q. q \<noteq> [] \<Longrightarrow> P (butlast q) \<Longrightarrow> look d q \<noteq> None \<Longrightarrow> P q"
  shows "tree (rem d P)"
  using assms unfolding tree_def look_rem by (metis option.distinct(1))

end

lemma get_put: "get (put d p n) q = (if q = p then Some n else get d q)"
  by (simp add: get_def put_def update_conv)

lemma get_del: "get (del d P) q = (if P q then None else get d q)"
  unfolding get_def del_def by (simp add: map_of_filter_key [where P = "\<lambda>k. \<not> P k"])

interpretation files: file_table get put del
  by unfold_locales (simp_all add: get_put get_del)

lemmas table_simps [simp] = files.look_upd files.look_rem

definition content_bytes :: "env \<Rightarrow> content \<Rightarrow> string" where
  "content_bytes E c = (case c of Raw b \<Rightarrow> b | _ \<Rightarrow> envJSON E c)"

lemma content_bytes_Raw [simp]: "content_bytes E (Raw b) = b"
  by (simp add: content_bytes_def)

text \<open>\<open>FileInfo.Size\<close> of a regular file; the program asks for the size of nothing else.\<close>

definition node_size :: "env \<Rightarrow> node \<Rightarrow> int" where
  "node_size E n = (case n of File c \<Rightarrow> int (length (content_bytes E c)) | _ \<Rightarrow> 0)"

section \<open>Reading\<close>

definition os_stat :: "env \<Rightarrow> disk \<Rightarrow> path \<Rightarrow> os_error + node" where
  "os_stat E d p =
     (if envFault E OpStat p then Inl IOError
      else case get d p of None \<Rightarrow> Inl NotExist | Some n \<Rightarrow> Inr n)"

definition os_lstat :: "env \<Rightarrow> disk \<Rightarrow> path \<Rightarrow> os_error + node" where
  "os_lstat E d p =
     (if envFault E OpLstat p then Inl IOError
      else case get d p of None \<Rightarrow> Inl NotExist | Some n \<Rightarrow> Inr n)"

definition os_read_file :: "env \<Rightarrow> disk \<Rightarrow> path \<Rightarrow> os_error + content" where
  "os_read_file E d p =
     (if envFault E OpRead p then Inl IOError
      else case get d p of
        None \<Rightarrow> Inl NotExist | Some (File c) \<Rightarrow> Inr c | Some _ \<Rightarrow> Inl IOError)"

text \<open>\<open>os.Open\<close> of a file that is then copied out: opening and reading can each fail.\<close>

definition os_open :: "env \<Rightarrow> disk \<Rightarrow> path \<Rightarrow> os_error + node" where
  "os_open E d p =
     (if envFault E OpOpen p then Inl IOError
      else case get d p of None \<Rightarrow> Inl NotExist | Some n \<Rightarrow> Inr n)"

definition children :: "disk \<Rightarrow> path \<Rightarrow> string list" where
  "children d p = sort (remdups (map last (filter (\<lambda>q. q \<noteq> [] \<and> butlast q = p) (map fst d))))"

text \<open>\<open>os.ReadDir\<close>: the entries sorted by name, each with \<open>IsDir\<close>.\<close>

definition os_read_dir :: "env \<Rightarrow> disk \<Rightarrow> path \<Rightarrow> os_error + (string \<times> bool) list" where
  "os_read_dir E d p =
     (if envFault E OpReadDir p then Inl IOError
      else case get d p of
        None \<Rightarrow> Inl NotExist
      | Some Dir \<Rightarrow> Inr (map (\<lambda>x. (x, get d (p @ [x]) = Some Dir)) (children d p))
      | Some _ \<Rightarrow> Inl IOError)"

lemma set_children: "set (children d p) = {x. get d (p @ [x]) \<noteq> None}"
proof -
  have "get d q \<noteq> None \<longleftrightarrow> q \<in> fst ` set d" for q
    by (simp add: get_def map_of_eq_None_iff)
  then show ?thesis
    by (auto simp: children_def image_iff) (metis append_butlast_last_id fst_conv, force)
qed

lemma distinct_children: "distinct (children d p)"
  by (simp add: children_def)

lemma sorted_children: "sorted (children d p)"
  by (simp add: children_def)

text \<open>\<open>filepath.Walk\<close> adding up the sizes of what is not a directory.\<close>

definition dirSize :: "env \<Rightarrow> disk \<Rightarrow> path \<Rightarrow> int" where
  "dirSize E d root =
     sum_list (map (\<lambda>e. if prefix root (fst e) then node_size E (snd e) else 0) d)"

definition fileExists :: "env \<Rightarrow> disk \<Rightarrow> path \<Rightarrow> bool" where
  "fileExists E d p = is_ok (os_stat E d p)"

section \<open>Writing\<close>

text \<open>A call that writes gives its result and the table after it.\<close>

definition os_mkdir :: "env \<Rightarrow> disk \<Rightarrow> path \<Rightarrow> (os_error + unit) \<times> disk" where
  "os_mkdir E d p =
     (if envFault E OpMkdir p then (Inl IOError, d)
      else if get d p \<noteq> None then (Inl Exist, d)
      else if p \<noteq> [] \<and> get d (butlast p) \<noteq> Some Dir then (Inl NotExist, d)
      else (Inr (), put d p Dir))"

fun mkdir_each :: "env \<Rightarrow> disk \<Rightarrow> path list \<Rightarrow> (os_error + unit) \<times> disk" where
  "mkdir_each E d [] = (Inr (), d)"
| "mkdir_each E d (q # qs) =
     (case get d q of
        Some Dir \<Rightarrow> mkdir_each E d qs
      | Some _ \<Rightarrow> (Inl IOError, d)
      | None \<Rightarrow> if envFault E OpMkdir q then (Inl IOError, d) else mkdir_each E (put d q Dir) qs)"

definition os_mkdir_all :: "env \<Rightarrow> disk \<Rightarrow> path \<Rightarrow> (os_error + unit) \<times> disk" where
  "os_mkdir_all E d p = mkdir_each E d (prefixes p)"

text \<open>
  \<open>os.RemoveAll\<close>: an entry stays when its own removal or that of something below it fails, and then
  the call reports an error.
\<close>

definition stuck :: "env \<Rightarrow> disk \<Rightarrow> path \<Rightarrow> bool" where
  "stuck E d q = list_ex (\<lambda>e. prefix q (fst e) \<and> envFault E OpRemove (fst e)) d"

definition os_remove_all :: "env \<Rightarrow> disk \<Rightarrow> path \<Rightarrow> (os_error + unit) \<times> disk" where
  "os_remove_all E d p =
     (let d' = del d (\<lambda>q. prefix p q \<and> \<not> stuck E d q)
      in (if list_ex (\<lambda>e. prefix p (fst e)) d' then Inl IOError else Inr (), d'))"

text \<open>\<open>os.Rename\<close> of a regular file.\<close>

definition os_rename :: "env \<Rightarrow> disk \<Rightarrow> path \<Rightarrow> path \<Rightarrow> (os_error + unit) \<times> disk" where
  "os_rename E d p q =
     (if envFault E OpRename q then (Inl IOError, d)
      else case get d p of
        None \<Rightarrow> (Inl NotExist, d)
      | Some n \<Rightarrow>
          if get d (butlast q) \<noteq> Some Dir then (Inl NotExist, d)
          else (Inr (), put (del d (\<lambda>r. r = p)) q n))"

text \<open>
  A temporary file in the directory of \<open>p\<close>, written, closed and renamed to \<open>p\<close>. The temporary name
  is gone when the caller returns (a deferred removal), so only the outcome is modelled: creating,
  writing and renaming can each fail and then nothing has changed.
\<close>

definition write_temp_rename :: "env \<Rightarrow> disk \<Rightarrow> path \<Rightarrow> content \<Rightarrow> (os_error + unit) \<times> disk" where
  "write_temp_rename E d p c =
     (if envFault E OpCreate (butlast p) then (Inl IOError, d)
      else if get d (butlast p) \<noteq> Some Dir then (Inl NotExist, d)
      else if envFault E OpWrite p then (Inl IOError, d)
      else if envFault E OpRename p then
        (if is_ok (os_stat E d p) then (Inl Exist, d) else (Inl IOError, d))
      else (Inr (), put d p (File c)))"

text \<open>\<open>writeNew\<close> of \<open>store.go\<close>: never replaces an entry that exists.\<close>

definition writeNew :: "env \<Rightarrow> disk \<Rightarrow> path \<Rightarrow> content \<Rightarrow> (os_error + unit) \<times> disk" where
  "writeNew E d p c =
     (case os_stat E d p of
        Inr _ \<Rightarrow> (Inl Exist, d)
      | Inl NotExist \<Rightarrow>
          (case write_temp_rename E d p c of
             (Inl e, d') \<Rightarrow> (Inl e, d')
           | (Inr _, d') \<Rightarrow> if envFault E OpChmod p then (Inl IOError, d') else (Inr (), d'))
      | Inl e \<Rightarrow> (Inl e, d))"

section \<open>What each call changes\<close>

lemma get_mkdir: "get (snd (os_mkdir E d p)) q = get d q \<or> (q = p \<and> get d p = None
    \<and> get (snd (os_mkdir E d p)) p = Some Dir)"
  by (auto simp: os_mkdir_def)

lemma os_mkdir_ok:
  "os_mkdir E d p = (Inr (), d') \<Longrightarrow> get d p = None \<and> (p = [] \<or> get d (butlast p) = Some Dir) \<and> d' = put d p Dir"
  by (auto simp: os_mkdir_def split: if_splits)

lemma get_mkdir_each:
  "get (snd (mkdir_each E d qs)) q = get d q
     \<or> (q \<in> set qs \<and> get d q = None \<and> get (snd (mkdir_each E d qs)) q = Some Dir)"
proof (induction E d qs rule: mkdir_each.induct)
  case (2 E d p qs)
  show ?case
  proof (cases "get d p")
    case None
    with 2 show ?thesis by (auto split: if_splits)
  next
    case (Some n)
    with 2 show ?thesis by (cases n) auto
  qed
qed simp

lemma get_mkdir_all:
  "get (snd (os_mkdir_all E d p)) q = get d q
     \<or> (prefix q p \<and> get d q = None \<and> get (snd (os_mkdir_all E d p)) q = Some Dir)"
  unfolding os_mkdir_all_def using get_mkdir_each [of E d "prefixes p" q] by auto

lemma mkdir_each_ok:
  "mkdir_each E d qs = (Inr (), d') \<Longrightarrow> \<forall>q \<in> set qs. get d' q = Some Dir"
proof (induction E d qs arbitrary: d' rule: mkdir_each.induct)
  case (2 E d p qs)
  note m = get_mkdir_each [of E _ qs p]
  show ?case
  proof (cases "get d p")
    case None
    with 2 m [of "put d p Dir"] show ?thesis by (auto split: if_splits)
  next
    case (Some n)
    with 2 m [of d] show ?thesis by (cases n) auto
  qed
qed simp

lemma mkdir_all_ok: "os_mkdir_all E d p = (Inr (), d') \<Longrightarrow> get d' p = Some Dir"
  unfolding os_mkdir_all_def using mkdir_each_ok by fastforce

lemma get_remove_all:
  "get (snd (os_remove_all E d p)) q = (if prefix p q \<and> \<not> stuck E d q then None else get d q)"
  by (simp add: os_remove_all_def Let_def)

lemma get_remove_all_other: "\<not> prefix p q \<Longrightarrow> get (snd (os_remove_all E d p)) q = get d q"
  by (simp add: get_remove_all)

lemma list_ex_table: "list_ex (\<lambda>e. P (fst e)) d \<longleftrightarrow> (\<exists>q. P q \<and> get d q \<noteq> None)"
  by (auto simp: list_ex_iff get_def map_of_eq_None_iff)

lemma remove_all_ok:
  assumes "os_remove_all E d p = (Inr (), d')" and "prefix p q"
  shows "get d' q = None"
  using assms list_ex_table [of "prefix p" d'] by (auto simp: os_remove_all_def Let_def split: if_splits)

text \<open>A file written by \<^const>\<open>writeNew\<close> was not there before; nothing else changes.\<close>

lemma writeNew_cases:
  obtains (same) e where "writeNew E d p c = (Inl e, d)"
  | (new) r where "writeNew E d p c = (r, put d p (File c))" and "get d p = None"
      and "get d (butlast p) = Some Dir" and "r = Inr () \<or> r = Inl IOError"
proof (cases "os_stat E d p")
  case (Inr n)
  then show thesis by (intro same [of Exist]) (simp add: writeNew_def)
next
  case (Inl e)
  show thesis
  proof (cases e)
    case NotExist
    with Inl have abs: "get d p = None" by (auto simp: os_stat_def split: ok_split)
    show thesis
    proof (cases "write_temp_rename E d p c")
      case (Pair r d')
      show thesis
      proof (cases r)
        case (Inl e')
        with Pair have "d' = d" by (auto simp: write_temp_rename_def split: if_splits)
        with Pair Inl NotExist \<open>os_stat E d p = Inl e\<close> show thesis
          by (intro same [of e']) (simp add: writeNew_def)
      next
        case (Inr u)
        with Pair have "d' = put d p (File c)" "get d (butlast p) = Some Dir"
          by (auto simp: write_temp_rename_def split: if_splits)
        with Pair Inr NotExist \<open>os_stat E d p = Inl e\<close> abs show thesis
          by (intro new [of "if envFault E OpChmod p then Inl IOError else Inr ()"])
            (auto simp: writeNew_def)
      qed
    qed
  next
    case Exist
    with Inl show thesis by (intro same [of Exist]) (simp add: writeNew_def)
  next
    case IOError
    with Inl show thesis by (intro same [of IOError]) (simp add: writeNew_def)
  qed
qed

lemma writeNew_ok:
  assumes "writeNew E d p c = (Inr u, d')"
  shows "d' = put d p (File c)" and "get d p = None" and "get d (butlast p) = Some Dir"
  using assms by (cases rule: writeNew_cases [of E d p c]; auto)+

lemma get_writeNew: "get d q \<noteq> None \<Longrightarrow> get (snd (writeNew E d p c)) q = get d q"
  by (cases rule: writeNew_cases [of E d p c]) auto

lemma get_writeNew_other: "q \<noteq> p \<Longrightarrow> get (snd (writeNew E d p c)) q = get d q"
  by (cases rule: writeNew_cases [of E d p c]) auto

lemma writeNew_exist: "fst (writeNew E d p c) = Inl Exist \<Longrightarrow> get d p \<noteq> None"
  by (auto simp: writeNew_def write_temp_rename_def os_stat_def split: ok_split os_error.splits)

text \<open>Without faults a new file is written when its directory is there.\<close>

definition no_faults :: "env \<Rightarrow> bool" where
  "no_faults E \<longleftrightarrow> envFault E = (\<lambda>_ _. False)"

lemma writeNew_no_faults:
  assumes "no_faults E" and "get d p = None" and "get d (butlast p) = Some Dir"
  shows "writeNew E d p c = (Inr (), put d p (File c))"
  using assms by (simp add: writeNew_def write_temp_rename_def os_stat_def no_faults_def)

end
