(* ===== verification/StoreCheck.thy ===== *)
theory StoreCheck
  imports Files
begin

text \<open>
  \<open>internal/store/store.go\<close>, the parts that do not touch the disk: the errors, the checks of bundles
  and manifests, the arithmetic of chunks, the paths of the data directory and chunk indices.
\<close>

section \<open>Errors and limits\<close>

text \<open>
  The exported errors. \<open>ErrConflict\<close> and \<open>ErrInvalid\<close> carry the text that \<open>fmt.Errorf("%w: ...")\<close>
  adds (empty for the bare error); errors of the operating system and of the JSON decoder are
  passed on as they are. \<open>Panic\<close> is a panic of the run time.
\<close>

datatype err = ErrNotFound | ErrConflict string | ErrExpired | ErrClosed | ErrQuota
  | ErrInvalid string | ErrOS os_error | ErrJSON | Panic

definition MinChunkSize :: int64 where "MinChunkSize = 64 * 1024"
definition MaxChunkSize :: int64 where "MaxChunkSize = 8 * 1024 * 1024"
definition MaxManifest :: nat where "MaxManifest = 64 * 1024"

lemmas limits = MinChunkSize_def MaxChunkSize_def MaxManifest_def

section \<open>Bundles\<close>

definition digest_field_ok :: "string \<Rightarrow> bool" where
  "digest_field_ok v = (case hex_decode v of None \<Rightarrow> False | Some d \<Rightarrow> length d = 32)"

definition validateBundle :: "RequestBundle \<Rightarrow> err + unit" where
  "validateBundle b =
     (if rbSchemaVersion b \<noteq> SchemaVersion \<or> \<not> ValidID (rbID b)
      then Inl (ErrInvalid ''bundle version or id'')
      else if trim_space (rbLabel b) = [] \<or> length (rbLabel b) > 120
        \<or> \<not> after (rbExpiresAt b) (rbCreatedAt b)
      then Inl (ErrInvalid ''bundle metadata'')
      else if rbMaxFiles b < 1 \<or> rbMaxFiles b > 10000 \<or> rbMaxBytes b < 1 \<or> rbMaxBytes b > 2 ^ 50
      then Inl (ErrInvalid ''bundle quota'')
      else if \<not> public_key_field_ok (rbPublicKey b) then Inl (ErrInvalid ''public key'')
      else if \<not> list_all digest_field_ok [rbSubmitTokenHash b, rbCollectTokenHash b]
      then Inl (ErrInvalid ''token hash'')
      else Inr ())"

lemma validateBundle_ok:
  "validateBundle b = Inr u \<longleftrightarrow> rbSchemaVersion b = SchemaVersion \<and> ValidID (rbID b)
     \<and> trim_space (rbLabel b) \<noteq> [] \<and> length (rbLabel b) \<le> 120
     \<and> after (rbExpiresAt b) (rbCreatedAt b) \<and> 1 \<le> rbMaxFiles b \<and> rbMaxFiles b \<le> 10000
     \<and> 1 \<le> rbMaxBytes b \<and> rbMaxBytes b \<le> 2 ^ 50 \<and> public_key_field_ok (rbPublicKey b)
     \<and> digest_field_ok (rbSubmitTokenHash b) \<and> digest_field_ok (rbCollectTokenHash b)"
  by (auto simp: validateBundle_def)

section \<open>Manifests\<close>

text \<open>The number of chunks the sizes ask for: a rounded-up quotient, one for an empty file.\<close>

definition expected_chunks :: "Manifest \<Rightarrow> int64" where
  "expected_chunks m =
     (let n = wrap64 (wrap64 (wrap64 (mfPlainSize m + mfChunkSize m) - 1) sdiv mfChunkSize m)
      in if n = 0 then 1 else n)"

definition b64_field :: "string \<Rightarrow> (nat \<Rightarrow> bool) \<Rightarrow> bool" where
  "b64_field f P = (case b64_decode f of None \<Rightarrow> False | Some b \<Rightarrow> P (length b))"

definition validateManifest :: "RequestBundle \<Rightarrow> Manifest \<Rightarrow> err + unit" where
  "validateManifest b m =
     (if mfVersion m \<noteq> ProtocolVersion \<or> mfAlgorithm m \<noteq> Algorithm \<or> mfRequestID m \<noteq> rbID b
        \<or> \<not> ValidID (mfUploadID m)
      then Inl (ErrInvalid ''protocol fields'')
      else if mfPlainSize m < 0 \<or> mfPlainSize m > rbMaxBytes b \<or> mfChunkSize m < MinChunkSize
        \<or> mfChunkSize m > MaxChunkSize
      then Inl (ErrInvalid ''sizes'')
      else if mfChunkCount m \<noteq> expected_chunks m \<or> mfChunkCount m < 1
        \<or> mfChunkCount m \<ge> 2 ^ 32 - 1
      then Inl (ErrInvalid ''chunk count'')
      else if \<not> public_key_field_ok (mfEphemeralPublicKey m) then Inl (ErrInvalid ''ephemeral key'')
      else if \<not> b64_field (mfSalt m) (\<lambda>n. n = 32) \<or> \<not> b64_field (mfNoncePrefix m) (\<lambda>n. n = 8)
        \<or> \<not> b64_field (mfEncryptedMetadata m) (\<lambda>n. 16 \<le> n \<and> n \<le> 16 * 1024)
        \<or> \<not> digest_field_ok (mfHeaderSHA256 m)
      then Inl (ErrInvalid ''encryption parameters'')
      else if \<not> equal_fold (mfHeaderSHA256 m) (HeaderSHA256 m)
      then Inl (ErrInvalid ''manifest header binding'')
      else Inr ())"

lemma validateManifest_ok:
  "validateManifest b m = Inr u \<longleftrightarrow> mfVersion m = ProtocolVersion \<and> mfAlgorithm m = Algorithm
     \<and> mfRequestID m = rbID b \<and> ValidID (mfUploadID m)
     \<and> 0 \<le> mfPlainSize m \<and> mfPlainSize m \<le> rbMaxBytes b
     \<and> MinChunkSize \<le> mfChunkSize m \<and> mfChunkSize m \<le> MaxChunkSize
     \<and> mfChunkCount m = expected_chunks m \<and> 1 \<le> mfChunkCount m \<and> mfChunkCount m < 2 ^ 32 - 1
     \<and> public_key_field_ok (mfEphemeralPublicKey m)
     \<and> b64_field (mfSalt m) (\<lambda>n. n = 32) \<and> b64_field (mfNoncePrefix m) (\<lambda>n. n = 8)
     \<and> b64_field (mfEncryptedMetadata m) (\<lambda>n. 16 \<le> n \<and> n \<le> 16 * 1024)
     \<and> digest_field_ok (mfHeaderSHA256 m) \<and> equal_fold (mfHeaderSHA256 m) (HeaderSHA256 m)"
  by (auto simp: validateManifest_def)

text \<open>Text that decodes as base64 holds no equals sign, so an accepted header is unambiguous.\<close>

lemma those_Some: "those xs = Some ys \<Longrightarrow> xs = map Some ys"
  by (induction xs arbitrary: ys) (auto split: option.splits)

lemma b64_decode_no_eq: "b64_decode s = Some b \<Longrightarrow> CHR ''='' \<notin> set s"
proof
  assume d: "b64_decode s = Some b" and e: "CHR ''='' \<in> set s"
  from d obtain xs where "those (map b64_value (filter (\<lambda>c. byte c \<noteq> 13 \<and> byte c \<noteq> 10) s)) = Some xs"
    by (auto simp: b64_decode_def split: option.splits)
  then have "map b64_value (filter (\<lambda>c. byte c \<noteq> 13 \<and> byte c \<noteq> 10) s) = map Some xs"
    by (rule those_Some)
  moreover have "b64_value CHR ''='' \<in> set (map b64_value (filter (\<lambda>c. byte c \<noteq> 13 \<and> byte c \<noteq> 10) s))"
    using e by auto
  ultimately show False by (auto simp: b64_value_def)
qed

lemma valid_manifest_eq_free:
  assumes "validateManifest b m = Inr u" and "ValidID (rbID b)"
  shows "eq_free m"
proof -
  have i: "ValidID i \<Longrightarrow> CHR ''='' \<notin> set i" for i
    using id_char_not_special by (auto simp: ValidID_def list_all_iff)
  have "CHR ''='' \<notin> set Algorithm" by (simp add: Algorithm_def)
  then show ?thesis using assms i b64_decode_no_eq
    by (auto simp: validateManifest_ok eq_free_def b64_field_def public_key_field_ok_def split: option.splits)
qed

text \<open>The sizes of an accepted manifest are small enough for 64-bit arithmetic, so the count is exact.\<close>

definition chunk_shape :: "Manifest \<Rightarrow> bool" where
  "chunk_shape m \<longleftrightarrow> 0 \<le> mfPlainSize m \<and> mfPlainSize m \<le> 2 ^ 50 \<and> MinChunkSize \<le> mfChunkSize m
     \<and> mfChunkSize m \<le> MaxChunkSize \<and> 1 \<le> mfChunkCount m \<and> mfChunkCount m < 2 ^ 32 - 1
     \<and> mfChunkCount m = max 1 ((mfPlainSize m + mfChunkSize m - 1) div mfChunkSize m)"

lemma expected_chunks_exact:
  assumes "0 \<le> mfPlainSize m" "mfPlainSize m \<le> 2 ^ 50" "MinChunkSize \<le> mfChunkSize m"
    "mfChunkSize m \<le> MaxChunkSize"
  shows "expected_chunks m = max 1 ((mfPlainSize m + mfChunkSize m - 1) div mfChunkSize m)"
proof -
  let ?p = "mfPlainSize m" and ?c = "mfChunkSize m"
  have w: "wrap64 (?p + ?c) = ?p + ?c" "wrap64 (?p + ?c - 1) = ?p + ?c - 1"
    using assms by (auto intro!: wrap64_id simp: in_int64_def limits)
  let ?q = "(?p + ?c - 1) div ?c"
  have q: "0 \<le> ?q" using assms by (simp add: limits pos_imp_zdiv_nonneg_iff)
  have c: "1 \<le> ?c" and pc: "0 \<le> ?p + ?c - 1" using assms by (simp_all add: limits)
  have "?q \<le> ?p + ?c - 1"
    using zdiv_mono2 [of "?p + ?c - 1" 1 ?c] c pc by simp
  then have "?q < 2 ^ 63" using assms by (simp add: limits)
  with q have "wrap64 ?q = ?q" by (intro wrap64_id) (simp add: in_int64_def)
  moreover have "(?p + ?c - 1) sdiv ?c = ?q" using assms by (intro sdiv_nonneg) (simp_all add: limits)
  ultimately show ?thesis using w q by (simp add: expected_chunks_def Let_def max_def)
qed

lemma valid_manifest_shape:
  assumes "validateManifest b m = Inr u" and "rbMaxBytes b \<le> 2 ^ 50"
  shows "chunk_shape m"
  using assms expected_chunks_exact [of m] by (auto simp: validateManifest_ok chunk_shape_def)

section \<open>Chunks\<close>

definition expectedCipherChunkSize :: "Manifest \<Rightarrow> int \<Rightarrow> int64" where
  "expectedCipherChunkSize m index =
     (let plain = (if index = mfChunkCount m - 1
                   then wrap64 (mfPlainSize m - wrap64 (index * mfChunkSize m))
                   else mfChunkSize m)
      in wrap64 (plain + 16))"

text \<open>The plaintext bytes of chunk \<open>i\<close>: all full but the last, which holds the rest.\<close>

definition plain_chunk_size :: "Manifest \<Rightarrow> int \<Rightarrow> int" where
  "plain_chunk_size m i =
     (if i = mfChunkCount m - 1 then mfPlainSize m - i * mfChunkSize m else mfChunkSize m)"

lemma chunk_count_bounds:
  assumes "chunk_shape m"
  shows "(mfChunkCount m - 1) * mfChunkSize m \<le> mfPlainSize m"
    and "mfPlainSize m \<le> mfChunkCount m * mfChunkSize m"
    and "0 < mfPlainSize m \<Longrightarrow> (mfChunkCount m - 1) * mfChunkSize m < mfPlainSize m"
proof -
  let ?p = "mfPlainSize m" and ?c = "mfChunkSize m" and ?n = "mfChunkCount m"
  let ?q = "(?p + ?c - 1) div ?c"
  have c: "0 < ?c" and p: "0 \<le> ?p" and n: "?n = max 1 ?q"
    using assms by (auto simp: chunk_shape_def limits)
  have lo: "?q * ?c \<le> ?p + ?c - 1" and hi: "?p + ?c - 1 < ?q * ?c + ?c"
    using div_mult_mod_eq [of "?p + ?c - 1" ?c] pos_mod_sign [OF c, of "?p + ?c - 1"]
      pos_mod_bound [OF c, of "?p + ?c - 1"] by linarith+
  have nc: "(?n - 1) * ?c = ?n * ?c - ?c" by (simp add: algebra_simps)
  show "(?n - 1) * ?c \<le> ?p" and "0 < ?p \<Longrightarrow> (?n - 1) * ?c < ?p"
    using n nc lo c p by (auto simp: max_def split: if_splits)
  have "?q * ?c \<le> ?n * ?c" using c n by (intro mult_right_mono) auto
  with hi show "?p \<le> ?n * ?c" by linarith
qed

lemma expected_size_exact:
  assumes "chunk_shape m" and "0 \<le> i" and "i < mfChunkCount m"
  shows "expectedCipherChunkSize m i = plain_chunk_size m i + 16"
    and "0 \<le> plain_chunk_size m i" and "plain_chunk_size m i \<le> mfChunkSize m"
proof -
  note b = chunk_count_bounds [OF assms(1)]
  have c: "0 < mfChunkSize m" "mfChunkSize m \<le> 2 ^ 23" "0 \<le> mfPlainSize m" "mfPlainSize m \<le> 2 ^ 50"
    using assms(1) by (simp_all add: chunk_shape_def limits)
  have "i * mfChunkSize m \<le> (mfChunkCount m - 1) * mfChunkSize m"
    using assms c by (intro mult_right_mono) simp_all
  then have "i * mfChunkSize m \<le> mfPlainSize m" using b(1) by (rule order_trans)
  moreover have "0 \<le> i * mfChunkSize m" using assms c by simp
  ultimately have i: "0 \<le> i * mfChunkSize m" "i * mfChunkSize m \<le> mfPlainSize m" by blast+
  have eq: "(mfChunkCount m - 1) * mfChunkSize m = mfChunkCount m * mfChunkSize m - mfChunkSize m"
    by (simp add: algebra_simps)
  show p: "0 \<le> plain_chunk_size m i" "plain_chunk_size m i \<le> mfChunkSize m"
    using b c i eq by (auto simp: plain_chunk_size_def)
  have w: "wrap64 x = x" if "0 \<le> x" "x \<le> 2251799813685248" for x
    using that by (intro wrap64_id) (simp add: in_int64_def)
  have c': "mfPlainSize m \<le> 1125899906842624" "mfChunkSize m \<le> 8388608" using c by simp_all
  have "wrap64 (i * mfChunkSize m) = i * mfChunkSize m" using i c' by (intro w) linarith+
  moreover have "wrap64 (mfPlainSize m - i * mfChunkSize m) = mfPlainSize m - i * mfChunkSize m"
    using i c' by (intro w) linarith+
  moreover have "wrap64 (plain_chunk_size m i + 16) = plain_chunk_size m i + 16"
    using p c' by (intro w) linarith+
  ultimately show "expectedCipherChunkSize m i = plain_chunk_size m i + 16"
    by (auto simp: expectedCipherChunkSize_def plain_chunk_size_def Let_def)
qed

text \<open>The chunks partition the plaintext: together they hold exactly its bytes.\<close>

lemma sum_plain_chunks:
  assumes "chunk_shape m"
  shows "sum_list (map (plain_chunk_size m) (map int [0..<nat (mfChunkCount m)])) = mfPlainSize m"
proof -
  define k where "k = nat (mfChunkCount m - 1)"
  have n: "mfChunkCount m = int k + 1" using assms by (simp add: k_def chunk_shape_def)
  have "sum_list (map (\<lambda>i. plain_chunk_size m (int i)) [0..<j]) = int j * mfChunkSize m" if "j \<le> k" for j
    using that by (induction j) (simp_all add: plain_chunk_size_def n algebra_simps)
  then have "sum_list (map (\<lambda>i. plain_chunk_size m (int i)) [0..<Suc k]) = int k * mfChunkSize m
      + (mfPlainSize m - int k * mfChunkSize m)"
    by (simp add: plain_chunk_size_def n)
  moreover have "nat (mfChunkCount m) = Suc k" using n by simp
  ultimately show ?thesis by (simp add: comp_def)
qed

section \<open>Chunk indices\<close>

text \<open>\<open>strconv.Atoi\<close> on at most ten characters: an optional sign, then digits.\<close>

definition atoi :: "string \<Rightarrow> int option" where
  "atoi s =
     (case s of
        c # ds \<Rightarrow> if c = CHR ''+'' then map_option int (parse_digits ds)
          else if c = CHR ''-'' then map_option (\<lambda>n. - int n) (parse_digits ds)
          else map_option int (parse_digits s)
      | [] \<Rightarrow> None)"

definition ParseChunkIndex :: "string \<Rightarrow> err + int" where
  "ParseChunkIndex value =
     (if value = [] \<or> length value > 10 then Inl (ErrInvalid [])
      else case atoi value of
        None \<Rightarrow> Inl (ErrInvalid [])
      | Some i \<Rightarrow> if i < 0 then Inl (ErrInvalid []) else Inr i)"

lemma parse_digits_bound: "parse_digits s = Some n \<Longrightarrow> n < 10 ^ length s"
  by (auto simp: parse_digits_def dest: digits_value_bound split: if_splits)

lemma ParseChunkIndex_bounds:
  assumes "ParseChunkIndex v = Inr i"
  shows "0 \<le> i" and "i < 10 ^ 10"
proof -
  have l: "length v \<le> 10" and a: "atoi v = Some i" and i: "0 \<le> i"
    using assms by (auto simp: ParseChunkIndex_def split: ok_split)
  show "0 \<le> i" by (rule i)
  have m: "int n < 10 ^ 10" if "n < 10 ^ k" "k \<le> 10" for n k
  proof -
    have "n < 10 ^ 10" using that power_increasing [of k 10 "10 :: nat"] by linarith
    then show ?thesis by simp
  qed
  obtain c ds where v: "v = c # ds" using a by (cases v) (auto simp: atoi_def)
  with a obtain n where n: "parse_digits ds = Some n \<and> i \<le> int n \<or> parse_digits v = Some n \<and> i = int n"
    by (auto simp: atoi_def split: if_splits)
  then have "n < 10 ^ length ds \<or> n < 10 ^ length v" using parse_digits_bound by blast
  with l v m [of n "length ds"] m [of n "length v"] have "int n < 10 ^ 10" by auto
  with n show "i < 10 ^ 10" by auto
qed

lemma nat_str_length: "n < 10 ^ k \<Longrightarrow> 0 < k \<Longrightarrow> length (nat_str n) \<le> k"
proof (induction k arbitrary: n)
  case 0
  then show ?case by simp
next
  case (Suc k)
  show ?case
  proof (cases "n < 10")
    case True
    then show ?thesis by (subst nat_str.simps) simp
  next
    case False
    then have "0 < k" using Suc.prems by (cases k) simp_all
    moreover have "n div 10 < 10 ^ k" using Suc.prems by (simp add: less_mult_imp_div_less mult.commute)
    ultimately have "length (nat_str (n div 10)) \<le> k" using Suc.IH by blast
    with False show ?thesis by (subst nat_str.simps) simp
  qed
qed

lemma ParseChunkIndex_nat_str:
  assumes "n < 10 ^ 10"
  shows "ParseChunkIndex (nat_str n) = Inr (int n)"
proof -
  note d = nat_str_digits [of n]
  obtain c ds where s: "nat_str n = c # ds" using d by (cases "nat_str n") auto
  with d have "is_digit c" by simp
  then have "c \<noteq> CHR ''+''" "c \<noteq> CHR ''-''" by (auto simp: is_digit_def)
  then have "atoi (nat_str n) = Some (int n)"
    using s parse_digits_nat_str [of n] by (simp add: atoi_def)
  moreover have "length (nat_str n) \<le> 10" using nat_str_length [OF assms] by simp
  ultimately show ?thesis using d by (simp add: ParseChunkIndex_def)
qed

section \<open>Paths\<close>

text \<open>\<open>filepath.Join\<close> under the root: empty, dot and slash components vanish, dot-dot goes up.\<close>

definition join_step :: "path \<Rightarrow> string \<Rightarrow> path" where
  "join_step acc c =
     (if c = [] \<or> c = ''.'' \<or> c = ''/'' then acc
      else if c = ''..'' then butlast acc else acc @ [c])"

definition path_join :: "string list \<Rightarrow> path" where
  "path_join cs = foldl join_step [] cs"

definition requestsDir :: path where "requestsDir = [''requests'']"
definition closedRequestsDir :: path where "closedRequestsDir = [''closed-requests'']"
definition uploadsDir :: path where "uploadsDir = [''uploads'']"
definition markerPath :: path where "markerPath = [''opaquedrop.json'']"

definition requestPath :: "string \<Rightarrow> path" where
  "requestPath i = requestsDir @ [filepath_base i @ ''.json'']"

definition closedRequestPath :: "string \<Rightarrow> path" where
  "closedRequestPath i = closedRequestsDir @ [filepath_base i @ ''.json'']"

definition closurePath :: "string \<Rightarrow> path" where
  "closurePath i = closedRequestsDir @ [filepath_base i @ ''.closure.json'']"

definition requestUploadDir :: "string \<Rightarrow> path" where
  "requestUploadDir requestID = path_join (uploadsDir @ [filepath_base requestID])"

definition uploadDir :: "string \<Rightarrow> string \<Rightarrow> path" where
  "uploadDir requestID uploadID =
     path_join (uploadsDir @ [filepath_base requestID, filepath_base uploadID])"

definition manifestPath :: "string \<Rightarrow> string \<Rightarrow> path" where
  "manifestPath requestID uploadID = uploadDir requestID uploadID @ [''manifest.json'']"

definition statePath :: "string \<Rightarrow> string \<Rightarrow> path" where
  "statePath requestID uploadID = uploadDir requestID uploadID @ [''server.json'']"

definition chunksDir :: "string \<Rightarrow> string \<Rightarrow> path" where
  "chunksDir requestID uploadID = uploadDir requestID uploadID @ [''chunks'']"

definition chunkPath :: "string \<Rightarrow> string \<Rightarrow> int \<Rightarrow> path" where
  "chunkPath requestID uploadID index =
     chunksDir requestID uploadID @ [pad_zero 8 (int_str index) @ ''.bin'']"

definition completePath :: "string \<Rightarrow> string \<Rightarrow> path" where
  "completePath requestID uploadID = uploadDir requestID uploadID @ [''complete.json'']"

definition ackPath :: "string \<Rightarrow> string \<Rightarrow> path" where
  "ackPath requestID uploadID = uploadDir requestID uploadID @ [''acknowledged.json'']"

lemma ValidID_not_dots: "ValidID i \<Longrightarrow> i \<noteq> [] \<and> i \<noteq> ''.'' \<and> i \<noteq> ''..'' \<and> i \<noteq> ''/''"
  by (auto simp: ValidID_def)

text \<open>Valid identifiers are single components, so the paths of an upload lie where they should.\<close>

lemma uploadDir_valid:
  "ValidID r \<Longrightarrow> ValidID u \<Longrightarrow> uploadDir r u = [''uploads'', r, u]"
  using ValidID_not_dots [of r] ValidID_not_dots [of u]
  by (simp add: uploadDir_def path_join_def join_step_def uploadsDir_def)

lemma requestUploadDir_valid: "ValidID r \<Longrightarrow> requestUploadDir r = [''uploads'', r]"
  using ValidID_not_dots [of r]
  by (simp add: requestUploadDir_def path_join_def join_step_def uploadsDir_def)

lemmas upload_file_defs = manifestPath_def statePath_def chunksDir_def chunkPath_def
  completePath_def ackPath_def

lemmas request_file_defs = requestPath_def closedRequestPath_def closurePath_def requestsDir_def
  closedRequestsDir_def

lemma chunkPath_inj:
  assumes "ValidID r" "ValidID u" "ValidID r'" "ValidID u'" "0 \<le> i" "0 \<le> j"
    and "chunkPath r u i = chunkPath r' u' j"
  shows "r = r' \<and> u = u' \<and> i = j"
proof -
  have eq: "r = r'" "u = u'" "pad_zero 8 (nat_str (nat i)) = pad_zero 8 (nat_str (nat j))"
    using assms by (auto simp: chunkPath_def chunksDir_def uploadDir_valid int_str_def)
  then have "nat i = nat j" using pad_zero_inj by blast
  with eq assms(5,6) show ?thesis by simp
qed

end
