(* ===== verification/StoreRead.thy ===== *)
theory StoreRead
  imports StoreCheck
begin

text \<open>
  \<open>internal/store/store.go\<close>, the operations that only read the data directory: requests, closures,
  authentication, usage, manifests, receipts and chunks. A JSON file of the server that holds
  something else than its kind does not decode (\<open>ErrJSON\<close>).
\<close>

section \<open>Requests\<close>

definition readRequestPath :: "env \<Rightarrow> disk \<Rightarrow> string \<Rightarrow> path \<Rightarrow> err + RequestBundle" where
  "readRequestPath E d i p =
     (if \<not> ValidID i then Inl ErrNotFound
      else case os_read_file E d p of
        Inl NotExist \<Rightarrow> Inl ErrNotFound
      | Inl e \<Rightarrow> Inl (ErrOS e)
      | Inr (JBundle b) \<Rightarrow> Inr b
      | Inr _ \<Rightarrow> Inl ErrJSON)"

definition Request :: "env \<Rightarrow> disk \<Rightarrow> string \<Rightarrow> err + RequestBundle" where
  "Request E d i = readRequestPath E d i (requestPath i)"

definition RequestIncludingClosed :: "env \<Rightarrow> disk \<Rightarrow> string \<Rightarrow> err + RequestBundle" where
  "RequestIncludingClosed E d i =
     (case Request E d i of
        Inl ErrNotFound \<Rightarrow> readRequestPath E d i (closedRequestPath i)
      | r \<Rightarrow> r)"

definition Closed :: "env \<Rightarrow> disk \<Rightarrow> string \<Rightarrow> err + bool" where
  "Closed E d i =
     (if \<not> ValidID i then Inl ErrNotFound
      else case os_stat E d (closurePath i) of
        Inr _ \<Rightarrow> Inr True
      | Inl NotExist \<Rightarrow> Inr False
      | Inl e \<Rightarrow> Inl (ErrOS e))"

definition readClosure :: "env \<Rightarrow> disk \<Rightarrow> string \<Rightarrow> err + RequestClosure" where
  "readClosure E d i =
     (case os_read_file E d (closurePath i) of
        Inl NotExist \<Rightarrow> Inl ErrNotFound
      | Inl e \<Rightarrow> Inl (ErrOS e)
      | Inr (JClosure c) \<Rightarrow>
          if clSchemaVersion c \<noteq> SchemaVersion \<or> clRequestID c \<noteq> i \<or> is_zero_time (clClosedAt c)
          then Inl (ErrInvalid ''closure record'') else Inr c
      | Inr _ \<Rightarrow> Inl ErrJSON)"

definition Authenticate :: "env \<Rightarrow> disk \<Rightarrow> string \<Rightarrow> string \<Rightarrow> string \<Rightarrow> RequestBundle option" where
  "Authenticate E d i token kind =
     (case RequestIncludingClosed E d i of
        Inl _ \<Rightarrow> None
      | Inr b \<Rightarrow>
          if token = [] then None
          else case hex_decode (if kind = ''collect'' then rbCollectTokenHash b else rbSubmitTokenHash b) of
            None \<Rightarrow> None
          | Some want \<Rightarrow>
              if length want \<noteq> 32 then None
              else if sha256 token = want then Some b else None)"

section \<open>The files of an upload\<close>

definition readManifest :: "env \<Rightarrow> disk \<Rightarrow> string \<Rightarrow> string \<Rightarrow> err + (Manifest \<times> string)" where
  "readManifest E d requestID uploadID =
     (if \<not> ValidID requestID \<or> \<not> ValidID uploadID then Inl ErrNotFound
      else case os_read_file E d (manifestPath requestID uploadID) of
        Inl NotExist \<Rightarrow> Inl ErrNotFound
      | Inl e \<Rightarrow> Inl (ErrOS e)
      | Inr c \<Rightarrow>
          (case envManifest E (content_bytes E c) of
             None \<Rightarrow> Inl ErrJSON
           | Some m \<Rightarrow> Inr (m, content_bytes E c)))"

definition ReadManifest :: "env \<Rightarrow> disk \<Rightarrow> string \<Rightarrow> string \<Rightarrow> err + string" where
  "ReadManifest E d requestID uploadID =
     (case readManifest E d requestID uploadID of Inl e \<Rightarrow> Inl e | Inr (m, raw) \<Rightarrow> Inr raw)"

definition readServerState :: "env \<Rightarrow> disk \<Rightarrow> string \<Rightarrow> string \<Rightarrow> err + UploadServerState" where
  "readServerState E d requestID uploadID =
     (case os_read_file E d (statePath requestID uploadID) of
        Inl e \<Rightarrow> Inl (ErrOS e)
      | Inr (JState s) \<Rightarrow> Inr s
      | Inr _ \<Rightarrow> Inl ErrJSON)"

definition readReceipt :: "env \<Rightarrow> disk \<Rightarrow> string \<Rightarrow> string \<Rightarrow> err + Receipt" where
  "readReceipt E d requestID uploadID =
     (case os_read_file E d (completePath requestID uploadID) of
        Inl NotExist \<Rightarrow> Inl ErrNotFound
      | Inl e \<Rightarrow> Inl (ErrOS e)
      | Inr (JReceipt r) \<Rightarrow> Inr r
      | Inr _ \<Rightarrow> Inl ErrJSON)"

section \<open>Usage and information\<close>

text \<open>The directory entries that count as uploads: directories with a valid identifier as name.\<close>

definition upload_entries :: "(string \<times> bool) list \<Rightarrow> string list" where
  "upload_entries es = map fst (filter (\<lambda>(x, isdir). isdir \<and> ValidID x) es)"

definition usage_step :: "env \<Rightarrow> disk \<Rightarrow> string \<Rightarrow> int64 \<times> int64 \<Rightarrow> string \<Rightarrow> int64 \<times> int64" where
  "usage_step E d requestID acc u =
     (case readServerState E d requestID u of
        Inl _ \<Rightarrow> acc
      | Inr s \<Rightarrow> (wrap64 (fst acc + 1), wrap64 (snd acc + usPlainSize s)))"

definition usage :: "env \<Rightarrow> disk \<Rightarrow> string \<Rightarrow> err + (int64 \<times> int64)" where
  "usage E d requestID =
     (if \<not> ValidID requestID then Inl (ErrInvalid [])
      else case os_read_dir E d (requestUploadDir requestID) of
        Inl NotExist \<Rightarrow> Inr (0, 0)
      | Inl e \<Rightarrow> Inl (ErrOS e)
      | Inr es \<Rightarrow> Inr (foldl (usage_step E d requestID) (0, 0) (upload_entries es)))"

definition Info :: "env \<Rightarrow> disk \<Rightarrow> RequestBundle \<Rightarrow> err + RequestInfo" where
  "Info E d b =
     (case validateBundle b of
        Inl e \<Rightarrow> Inl e
      | Inr _ \<Rightarrow>
          (case usage E d (rbID b) of
             Inl e \<Rightarrow> Inl e
           | Inr (files, bytes) \<Rightarrow>
               Inr \<lparr>riID = rbID b, riLabel = rbLabel b, riExpiresAt = rbExpiresAt b,
                 riMaxFiles = rbMaxFiles b, riMaxBytes = rbMaxBytes b, riUsedFiles = files,
                 riUsedBytes = bytes, riPublicKey = rbPublicKey b, riAlgorithm = Algorithm\<rparr>))"

section \<open>Chunks and receipts\<close>

definition ChunkDigest :: "env \<Rightarrow> disk \<Rightarrow> string \<Rightarrow> string \<Rightarrow> int \<Rightarrow> err + string" where
  "ChunkDigest E d requestID uploadID index =
     (case Closed E d requestID of
        Inl e \<Rightarrow> Inl e
      | Inr True \<Rightarrow> Inl ErrClosed
      | Inr False \<Rightarrow>
          (case readManifest E d requestID uploadID of
             Inl _ \<Rightarrow> Inl ErrNotFound
           | Inr (m, _) \<Rightarrow>
               if index < 0 \<or> index \<ge> mfChunkCount m then Inl ErrNotFound
               else let p = chunkPath requestID uploadID index in
                 (case os_open E d p of
                    Inl NotExist \<Rightarrow> Inl ErrNotFound
                  | Inl e \<Rightarrow> Inl (ErrOS e)
                  | Inr _ \<Rightarrow>
                      (case os_read_file E d p of
                         Inl e \<Rightarrow> Inl (ErrOS e)
                       | Inr c \<Rightarrow> Inr (sha256_hex (content_bytes E c))))))"

text \<open>The opened file is its node; its bytes are read by the caller.\<close>

definition OpenChunk :: "env \<Rightarrow> disk \<Rightarrow> string \<Rightarrow> string \<Rightarrow> int \<Rightarrow> err + (node \<times> int64)" where
  "OpenChunk E d requestID uploadID index =
     (case readManifest E d requestID uploadID of
        Inl _ \<Rightarrow> Inl ErrNotFound
      | Inr (m, _) \<Rightarrow>
          if index < 0 \<or> index \<ge> mfChunkCount m then Inl ErrNotFound
          else (case readReceipt E d requestID uploadID of
            Inl _ \<Rightarrow> Inl ErrNotFound
          | Inr _ \<Rightarrow>
              let p = chunkPath requestID uploadID index in
              (case os_open E d p of
                 Inl NotExist \<Rightarrow> Inl ErrNotFound
               | Inl e \<Rightarrow> Inl (ErrOS e)
               | Inr n \<Rightarrow> if envFault E OpStat p then Inl (ErrOS IOError) else Inr (n, node_size E n))))"

definition listed_receipt :: "env \<Rightarrow> disk \<Rightarrow> string \<Rightarrow> string \<Rightarrow> Receipt option" where
  "listed_receipt E d requestID u =
     (case readReceipt E d requestID u of
        Inl _ \<Rightarrow> None
      | Inr r \<Rightarrow> Some (r\<lparr>rcAcknowledged := is_ok (os_stat E d (ackPath requestID u))\<rparr>))"

text \<open>\<open>sort.Slice\<close> does not promise the order of receipts completed at the same instant.\<close>

definition ListReceipts :: "env \<Rightarrow> disk \<Rightarrow> string \<Rightarrow> err + Receipt list" where
  "ListReceipts E d requestID =
     (if \<not> ValidID requestID then Inl (ErrInvalid [])
      else case os_read_dir E d (requestUploadDir requestID) of
        Inl NotExist \<Rightarrow> Inr []
      | Inl e \<Rightarrow> Inl (ErrOS e)
      | Inr es \<Rightarrow> Inr (sort_key rcCompletedAt
          (List.map_filter (listed_receipt E d requestID) (upload_entries es))))"

section \<open>Doctor\<close>

datatype doctor_error = DataDirectory os_error | NotADirectory | SymbolicLink
  | RequiredPath path os_error

fun first_missing :: "env \<Rightarrow> disk \<Rightarrow> path list \<Rightarrow> doctor_error option" where
  "first_missing E d [] = None"
| "first_missing E d (p # ps) =
     (case os_stat E d p of Inl e \<Rightarrow> Some (RequiredPath p e) | Inr _ \<Rightarrow> first_missing E d ps)"

definition Doctor :: "env \<Rightarrow> disk \<Rightarrow> string list \<times> doctor_error option" where
  "Doctor E d =
     (case os_stat E d [] of
        Inl e \<Rightarrow> ([], Some (DataDirectory e))
      | Inr n \<Rightarrow>
          if n \<noteq> Dir then ([], Some NotADirectory)
          else let checks = [''data directory exists''] in
            if is_ok (os_lstat E d []) \<and> envRootLink E then (checks, Some SymbolicLink)
            else let checks = checks @ [''data directory is not a symlink''] in
              (case first_missing E d [markerPath, requestsDir, closedRequestsDir, uploadsDir] of
                 Some e \<Rightarrow> (checks, Some e)
               | None \<Rightarrow> (checks @ [''state marker and storage directories exist''], None)))"

end
