(* ===== verification/StoreWrite.thy ===== *)
theory StoreWrite
  imports StoreRead
begin

text \<open>
  \<open>internal/store/store.go\<close>, the operations that write: each is a function from the data directory
  to its result and the data directory after it, on every path, failed calls included.
\<close>

section \<open>Sequencing\<close>

definition os_err :: "(os_error + 'a) \<times> disk \<Rightarrow> (err + 'a) \<times> disk" where
  "os_err r = (case r of (Inl e, d) \<Rightarrow> (Inl (ErrOS e), d) | (Inr x, d) \<Rightarrow> (Inr x, d))"

lemma snd_os_err [simp]: "snd (os_err r) = snd r"
  by (auto simp: os_err_def split: ok_split)

lemma os_err_ok [simp]: "os_err r = (Inr x, d) \<longleftrightarrow> r = (Inr x, d)"
  by (auto simp: os_err_def split: ok_split)

section \<open>Init and import\<close>

fun mkdir_dirs :: "env \<Rightarrow> path list \<Rightarrow> disk \<Rightarrow> (err + unit) \<times> disk" where
  "mkdir_dirs E [] d = (Inr (), d)"
| "mkdir_dirs E (p # ps) d = and_then (os_err (os_mkdir_all E d p)) (\<lambda>_. mkdir_dirs E ps)"

definition Init :: "env \<Rightarrow> disk \<Rightarrow> (err + unit) \<times> disk" where
  "Init E d =
     and_then (mkdir_dirs E [[], requestsDir, closedRequestsDir, uploadsDir] d) (\<lambda>_ d.
       case os_stat E d markerPath of
         Inr _ \<Rightarrow> (Inr (), d)
       | Inl NotExist \<Rightarrow> os_err (writeNew E d markerPath (JMarker (envNow E)))
       | Inl e \<Rightarrow> (Inl (ErrOS e), d))"

definition ImportRequest :: "env \<Rightarrow> disk \<Rightarrow> RequestBundle \<Rightarrow> (err + unit) \<times> disk" where
  "ImportRequest E d b =
     (case validateBundle b of
        Inl e \<Rightarrow> (Inl e, d)
      | Inr _ \<Rightarrow>
          and_then (Init E d) (\<lambda>_ d.
            case writeNew E d (requestPath (rbID b)) (JBundle b) of
              (Inl Exist, d) \<Rightarrow> (Inl (ErrConflict []), d)
            | r \<Rightarrow> os_err r))"

section \<open>Closing a request\<close>

text \<open>The closure that counts: the recorded one, or a new one that is written first.\<close>

definition ensure_closure :: "env \<Rightarrow> disk \<Rightarrow> string \<Rightarrow> err + RequestClosure
    \<Rightarrow> (err + RequestClosure) \<times> disk" where
  "ensure_closure E d i recorded =
     (case recorded of
        Inl ErrNotFound \<Rightarrow>
          (let c = \<lparr>clSchemaVersion = SchemaVersion, clRequestID = i, clClosedAt = envNow E\<rparr> in
           case writeNew E d (closurePath i) (JClosure c) of
             (Inl Exist, d) \<Rightarrow> (readClosure E d i, d)
           | (Inl e, d) \<Rightarrow> (Inl (ErrOS e), d)
           | (Inr _, d) \<Rightarrow> (Inr c, d))
      | r \<Rightarrow> (r, d))"

definition move_closed :: "env \<Rightarrow> disk \<Rightarrow> string \<Rightarrow> (err + unit) \<times> disk" where
  "move_closed E d i =
     and_then (os_err (os_rename E d (requestPath i) (closedRequestPath i))) (\<lambda>_ d.
       if envFault E OpChmod (closedRequestPath i) then (Inl (ErrOS IOError), d) else (Inr (), d))"

text \<open>An error of \<open>os.Stat\<close> other than that the file does not exist.\<close>

definition hard_error :: "os_error + 'a \<Rightarrow> err option" where
  "hard_error r =
     (case r of Inl NotExist \<Rightarrow> None | Inl e \<Rightarrow> Some (ErrOS e) | Inr _ \<Rightarrow> None)"

definition close_locked :: "env \<Rightarrow> disk \<Rightarrow> string \<Rightarrow> (err + RequestClosure) \<times> disk" where
  "close_locked E d i =
     (let closure = readClosure E d i;
          active = os_stat E d (requestPath i);
          closed = os_stat E d (closedRequestPath i)
      in if \<not> is_ok closure \<and> closure \<noteq> Inl ErrNotFound then (closure, d)
         else (case hard_error active of
           Some e \<Rightarrow> (Inl e, d)
         | None \<Rightarrow> (case hard_error closed of
           Some e \<Rightarrow> (Inl e, d)
         | None \<Rightarrow>
             if \<not> is_ok active \<and> \<not> is_ok closed then (Inl ErrNotFound, d)
             else if is_ok active \<and> is_ok closed then (Inl (ErrConflict []), d)
             else and_then (ensure_closure E d i closure) (\<lambda>c d.
               if is_ok active then and_then (move_closed E d i) (\<lambda>_ d. (Inr c, d))
               else (Inr c, d)))))"

definition CloseRequest :: "env \<Rightarrow> disk \<Rightarrow> string \<Rightarrow> (err + RequestClosure) \<times> disk" where
  "CloseRequest E d i =
     (if \<not> ValidID i then (Inl ErrNotFound, d)
      else and_then (Init E d) (\<lambda>_ d. close_locked E d i))"

section \<open>Beginning an upload\<close>

text \<open>\<open>strings.Contains\<close> with a slash, a backslash or two dots.\<close>

definition unsafe_component :: "string \<Rightarrow> bool" where
  "unsafe_component i \<longleftrightarrow> slash \<in> set i \<or> CHR 0x5C \<in> set i \<or> list_ex (prefix ''..'') (suffixes i)"

text \<open>
  The upload directory exists: the same manifest and a complete initial state make the call a
  replay, anything else is a conflict.
\<close>

definition begin_existing :: "env \<Rightarrow> disk \<Rightarrow> RequestBundle \<Rightarrow> Manifest \<Rightarrow> string \<Rightarrow> node
    \<Rightarrow> err + Manifest" where
  "begin_existing E d b m raw n =
     (let missing = (\<lambda>e. if e = NotExist then Inl (ErrConflict []) else Inl (ErrOS e)) in
      if n \<noteq> Dir then Inl (ErrConflict [])
      else case os_read_file E d (manifestPath (rbID b) (mfUploadID m)) of
        Inl e \<Rightarrow> missing e
      | Inr existing \<Rightarrow>
          if content_bytes E existing \<noteq> raw then Inl (ErrConflict [])
          else case os_read_file E d (statePath (rbID b) (mfUploadID m)) of
            Inl e \<Rightarrow> missing e
          | Inr (JState s) \<Rightarrow>
              (case os_lstat E d (chunksDir (rbID b) (mfUploadID m)) of
                 Inl e \<Rightarrow> missing e
               | Inr c \<Rightarrow>
                   if c \<noteq> Dir \<or> is_zero_time (usCreatedAt s) \<or> usRequestID s \<noteq> rbID b
                     \<or> usUploadID s \<noteq> mfUploadID m \<or> usPlainSize s \<noteq> mfPlainSize m
                     \<or> usChunkSize s \<noteq> mfChunkSize m \<or> usChunkCount s \<noteq> mfChunkCount m
                   then Inl (ErrConflict []) else Inr m)
          | Inr _ \<Rightarrow> Inl ErrJSON)"

definition initial_state :: "env \<Rightarrow> RequestBundle \<Rightarrow> Manifest \<Rightarrow> UploadServerState" where
  "initial_state E b m =
     \<lparr>usRequestID = rbID b, usUploadID = mfUploadID m, usCreatedAt = envNow E,
      usPlainSize = mfPlainSize m, usChunkSize = mfChunkSize m, usChunkCount = mfChunkCount m\<rparr>"

text \<open>What is written into the new directory, before the deferred clean-up.\<close>

definition begin_files :: "env \<Rightarrow> disk \<Rightarrow> RequestBundle \<Rightarrow> Manifest \<Rightarrow> string \<Rightarrow> (err + unit) \<times> disk" where
  "begin_files E d b m raw =
     and_then (os_err (os_mkdir E d (chunksDir (rbID b) (mfUploadID m)))) (\<lambda>_ d.
     and_then (os_err (writeNew E d (manifestPath (rbID b) (mfUploadID m)) (Raw raw))) (\<lambda>_ d.
       os_err (writeNew E d (statePath (rbID b) (mfUploadID m)) (JState (initial_state E b m)))))"

definition begin_create :: "env \<Rightarrow> disk \<Rightarrow> RequestBundle \<Rightarrow> Manifest \<Rightarrow> string \<Rightarrow> path
    \<Rightarrow> (err + Manifest) \<times> disk" where
  "begin_create E d b m raw dir =
     (case usage E d (rbID b) of
        Inl e \<Rightarrow> (Inl e, d)
      | Inr (files, bytes) \<Rightarrow>
          if files \<ge> rbMaxFiles b \<or> mfPlainSize m > wrap64 (rbMaxBytes b - bytes)
          then (Inl ErrQuota, d)
          else and_then (os_err (os_mkdir_all E d (requestUploadDir (rbID b)))) (\<lambda>_ d.
            case os_mkdir E d dir of
              (Inl Exist, d) \<Rightarrow> (Inl (ErrConflict []), d)
            | (Inl e, d) \<Rightarrow> (Inl (ErrOS e), d)
            | (Inr _, d) \<Rightarrow>
                (case begin_files E d b m raw of
                   (Inl e, d) \<Rightarrow> (Inl e, snd (os_remove_all E d dir))
                 | (Inr _, d) \<Rightarrow> (Inr m, d))))"

definition begin_locked :: "env \<Rightarrow> disk \<Rightarrow> RequestBundle \<Rightarrow> Manifest \<Rightarrow> string \<Rightarrow> (err + Manifest) \<times> disk" where
  "begin_locked E d b m raw =
     (case Closed E d (rbID b) of
        Inl e \<Rightarrow> (Inl e, d)
      | Inr True \<Rightarrow> (Inl ErrClosed, d)
      | Inr False \<Rightarrow>
          if \<not> after (rbExpiresAt b) (envNow E) then (Inl ErrExpired, d)
          else if unsafe_component (rbID b) \<or> unsafe_component (mfUploadID m)
          then (Inl (ErrInvalid ''upload path components''), d)
          else let dir = path_join (uploadsDir @ [rbID b, mfUploadID m]) in
            (case os_open E d uploadsDir of
               Inr Dir \<Rightarrow>
                 (case os_lstat E d dir of
                    Inr n \<Rightarrow> (begin_existing E d b m raw n, d)
                  | Inl NotExist \<Rightarrow> begin_create E d b m raw dir
                  | Inl e \<Rightarrow> (Inl (ErrOS e), d))
             | Inr _ \<Rightarrow> (Inl (ErrOS IOError), d)
             | Inl NotExist \<Rightarrow> begin_create E d b m raw dir
             | Inl e \<Rightarrow> (Inl (ErrOS e), d)))"

definition BeginUpload :: "env \<Rightarrow> disk \<Rightarrow> RequestBundle \<Rightarrow> string \<Rightarrow> (err + Manifest) \<times> disk" where
  "BeginUpload E d b raw =
     (case validateBundle b of
        Inl e \<Rightarrow> (Inl e, d)
      | Inr _ \<Rightarrow>
          if raw = [] \<or> length raw > MaxManifest then (Inl (ErrInvalid ''manifest size''), d)
          else case envManifest E raw of
            None \<Rightarrow> (Inl (ErrInvalid ''invalid manifest JSON''), d)
          | Some m \<Rightarrow>
              if mfPlainSize m > rbMaxBytes b then (Inl ErrQuota, d)
              else case validateManifest b m of
                Inl e \<Rightarrow> (Inl e, d)
              | Inr _ \<Rightarrow> begin_locked E d b m raw)"

section \<open>Chunks\<close>

text \<open>A request body: the bytes it delivers and whether it then fails instead of ending.\<close>

record body =
  bodyBytes :: string
  bodyFails :: bool

definition store_chunk :: "env \<Rightarrow> disk \<Rightarrow> path \<Rightarrow> body \<Rightarrow> int64 \<Rightarrow> (err + unit) \<times> disk" where
  "store_chunk E d dest r expected =
     (let limit = nat (wrap64 (expected + 1));
          got = take limit (bodyBytes r)
      in if envFault E OpCreate (butlast dest) then (Inl (ErrOS IOError), d)
         else if get d (butlast dest) \<noteq> Some Dir then (Inl (ErrOS NotExist), d)
         else if envFault E OpWrite dest \<or> bodyFails r \<and> length (bodyBytes r) < limit
         then (Inl (ErrOS IOError), d)
         else if int (length got) \<noteq> expected then (Inl (ErrInvalid ''chunk length''), d)
         else if envFault E OpRename dest
         then (if is_ok (os_stat E d dest) then (Inl (ErrConflict []), d) else (Inl (ErrOS IOError), d))
         else (Inr (), put d dest (File (Raw got))))"

definition PutChunk :: "env \<Rightarrow> disk \<Rightarrow> string \<Rightarrow> string \<Rightarrow> int \<Rightarrow> body \<Rightarrow> int64 \<Rightarrow> (err + unit) \<times> disk" where
  "PutChunk E d requestID uploadID index r contentLength =
     (case readManifest E d requestID uploadID of
        Inl e \<Rightarrow> (Inl e, d)
      | Inr (m, _) \<Rightarrow>
          if index < 0 \<or> index \<ge> mfChunkCount m then (Inl (ErrInvalid ''chunk index''), d)
          else let expected = expectedCipherChunkSize m index in
            if contentLength \<ge> 0 \<and> contentLength \<noteq> expected
            then (Inl (ErrInvalid ''chunk length''), d)
            else case Closed E d requestID of
              Inl e \<Rightarrow> (Inl e, d)
            | Inr True \<Rightarrow> (Inl ErrClosed, d)
            | Inr False \<Rightarrow>
                let dest = chunkPath requestID uploadID index in
                (case os_stat E d dest of
                   Inr _ \<Rightarrow> (Inl (ErrConflict []), d)
                 | Inl NotExist \<Rightarrow> store_chunk E d dest r expected
                 | Inl e \<Rightarrow> (Inl (ErrOS e), d)))"

section \<open>Completion\<close>

text \<open>The digest and the size of one chunk, or why the upload is not complete.\<close>

definition chunk_summary :: "env \<Rightarrow> disk \<Rightarrow> string \<Rightarrow> string \<Rightarrow> Manifest \<Rightarrow> int \<Rightarrow> err + (string \<times> int)" where
  "chunk_summary E d requestID uploadID m i =
     (let p = chunkPath requestID uploadID i in
      case os_stat E d p of
        Inl NotExist \<Rightarrow> Inl (ErrConflict (''missing chunk '' @ int_str i))
      | Inl e \<Rightarrow> Inl (ErrOS e)
      | Inr n \<Rightarrow>
          if node_size E n \<noteq> expectedCipherChunkSize m i
          then Inl (ErrConflict (''invalid chunk '' @ int_str i @ '' size''))
          else case os_read_file E d p of
            Inl e \<Rightarrow> Inl (ErrOS e)
          | Inr c \<Rightarrow> Inr (sha256 (content_bytes E c), int (length (content_bytes E c))))"

fun complete_chunks :: "env \<Rightarrow> disk \<Rightarrow> string \<Rightarrow> string \<Rightarrow> Manifest \<Rightarrow> int list \<Rightarrow> string list \<times> int64
    \<Rightarrow> err + (string list \<times> int64)" where
  "complete_chunks E d requestID uploadID m [] acc = Inr acc"
| "complete_chunks E d requestID uploadID m (i # is) (digests, n) =
     (case chunk_summary E d requestID uploadID m i of
        Inl e \<Rightarrow> Inl e
      | Inr (h, k) \<Rightarrow> complete_chunks E d requestID uploadID m is (digests @ [h], wrap64 (n + k)))"

definition write_receipt :: "env \<Rightarrow> disk \<Rightarrow> string \<Rightarrow> string \<Rightarrow> Receipt \<Rightarrow> (err + Receipt) \<times> disk" where
  "write_receipt E d requestID uploadID receipt =
     (case writeNew E d (completePath requestID uploadID) (JReceipt receipt) of
        (Inl Exist, d) \<Rightarrow> (readReceipt E d requestID uploadID, d)
      | (Inl e, d) \<Rightarrow> (Inl (ErrOS e), d)
      | (Inr _, d) \<Rightarrow> (Inr receipt, d))"

definition complete_receipt :: "env \<Rightarrow> string \<Rightarrow> string \<Rightarrow> Manifest \<Rightarrow> string \<Rightarrow> string list \<Rightarrow> int64 \<Rightarrow> Receipt" where
  "complete_receipt E requestID uploadID m raw digests n =
     \<lparr>rcVersion = 1, rcRequestID = requestID, rcUploadID = uploadID, rcCompletedAt = envNow E,
      rcPlainSize = mfPlainSize m, rcCipherBytes = n, rcChunkCount = mfChunkCount m,
      rcReceiptSHA256 = ReceiptRoot raw digests, rcAcknowledged = False\<rparr>"

definition Complete :: "env \<Rightarrow> disk \<Rightarrow> string \<Rightarrow> string \<Rightarrow> (err + Receipt) \<times> disk" where
  "Complete E d requestID uploadID =
     (case Closed E d requestID of
        Inl e \<Rightarrow> (Inl e, d)
      | Inr True \<Rightarrow> (Inl ErrClosed, d)
      | Inr False \<Rightarrow>
          (case readReceipt E d requestID uploadID of
             Inr receipt \<Rightarrow> (Inr receipt, d)
           | Inl _ \<Rightarrow>
               (case readManifest E d requestID uploadID of
                  Inl e \<Rightarrow> (Inl e, d)
                | Inr (m, raw) \<Rightarrow>
                    if mfChunkCount m < 0 then (Inl Panic, d)
                    else (case complete_chunks E d requestID uploadID m
                        (map int [0..<nat (mfChunkCount m)]) ([], 0) of
                      Inl e \<Rightarrow> (Inl e, d)
                    | Inr (digests, n) \<Rightarrow> write_receipt E d requestID uploadID
                        (complete_receipt E requestID uploadID m raw digests n)))))"

section \<open>Acknowledgement\<close>

definition Acknowledge :: "env \<Rightarrow> disk \<Rightarrow> RequestBundle \<Rightarrow> string \<Rightarrow> (err + unit) \<times> disk" where
  "Acknowledge E d b uploadID =
     (if \<not> is_ok (validateBundle b) \<or> \<not> ValidID uploadID then (Inl (ErrInvalid []), d)
      else case readReceipt E d (rbID b) uploadID of
        Inl _ \<Rightarrow> (Inl ErrNotFound, d)
      | Inr _ \<Rightarrow>
          (case writeNew E d (ackPath (rbID b) uploadID) (JAck (envNow E)) of
             (Inl e, d) \<Rightarrow>
               if e \<noteq> Exist then (Inl (ErrOS e), d)
               else if rbDeleteAfterCollect b
               then os_err (os_remove_all E d (uploadDir (rbID b) uploadID)) else (Inr (), d)
           | (Inr _, d) \<Rightarrow>
               if rbDeleteAfterCollect b
               then os_err (os_remove_all E d (uploadDir (rbID b) uploadID)) else (Inr (), d)))"

section \<open>Purge\<close>

record PurgeResult =
  prUploadDirs :: "path list"
  prBytes :: int64

definition purge_due :: "env \<Rightarrow> disk \<Rightarrow> duration \<Rightarrow> string \<Rightarrow> string \<Rightarrow> bool" where
  "purge_due E d staleIncomplete requestID u =
     (let expired = (case RequestIncludingClosed E d requestID of
            Inl _ \<Rightarrow> True | Inr b \<Rightarrow> \<not> after (rbExpiresAt b) (envNow E));
          stale = (case readServerState E d requestID u of
            Inl _ \<Rightarrow> True
          | Inr s \<Rightarrow> time_sub (envNow E) (usCreatedAt s) > staleIncomplete
              \<and> \<not> fileExists E d (completePath requestID u))
      in expired \<or> stale)"

fun purge_each :: "env \<Rightarrow> bool \<Rightarrow> duration \<Rightarrow> (string \<times> string) list \<Rightarrow> PurgeResult \<Rightarrow> disk
    \<Rightarrow> (PurgeResult \<times> err option) \<times> disk" where
  "purge_each E apply_it stale [] result d = ((result, None), d)"
| "purge_each E apply_it stale ((r, u) # us) result d =
     (if \<not> purge_due E d stale r u then purge_each E apply_it stale us result d
      else let dir = uploadDir r u;
               result = result\<lparr>prUploadDirs := prUploadDirs result @ [dir],
                 prBytes := wrap64 (prBytes result + dirSize E d dir)\<rparr>
        in if \<not> apply_it then purge_each E apply_it stale us result d
           else (case os_remove_all E d dir of
             (Inl e, d) \<Rightarrow> ((result, Some (ErrOS e)), d)
           | (Inr _, d) \<Rightarrow> purge_each E apply_it stale us result d))"

text \<open>The uploads of the directory of one request; an unreadable directory has none.\<close>

definition purge_uploads :: "env \<Rightarrow> disk \<Rightarrow> string \<Rightarrow> (string \<times> string) list" where
  "purge_uploads E d r =
     (case os_read_dir E d (path_join (uploadsDir @ [r])) of
        Inl _ \<Rightarrow> [] | Inr es \<Rightarrow> map (Pair r) (upload_entries es))"

definition Purge :: "env \<Rightarrow> disk \<Rightarrow> bool \<Rightarrow> duration \<Rightarrow> (PurgeResult \<times> err option) \<times> disk" where
  "Purge E d apply_it staleIncomplete =
     (let result = \<lparr>prUploadDirs = [], prBytes = 0\<rparr> in
      case os_read_dir E d uploadsDir of
        Inl NotExist \<Rightarrow> ((result, None), d)
      | Inl e \<Rightarrow> ((result, Some (ErrOS e)), d)
      | Inr es \<Rightarrow> purge_each E apply_it staleIncomplete
          (concat (map (purge_uploads E d) (upload_entries es))) result d)"

end
