(* ===== verification/StoreFrame.thy ===== *)
theory StoreFrame
  imports StoreWrite
begin

text \<open>
  What each operation of the store can change: the set of paths outside which the data directory
  stays the same, and whether entries only appear or only vanish. Every fault of the disk and every
  error path is covered.
\<close>

section \<open>Frames\<close>

definition grows :: "path set \<Rightarrow> disk \<Rightarrow> disk \<Rightarrow> bool" where
  "grows S d d' \<longleftrightarrow> (\<forall>q. get d' q = get d q \<or> q \<in> S \<and> get d q = None)"

definition shrinks :: "path set \<Rightarrow> disk \<Rightarrow> disk \<Rightarrow> bool" where
  "shrinks S d d' \<longleftrightarrow> (\<forall>q. get d' q = get d q \<or> q \<in> S \<and> get d' q = None)"

definition changes :: "path set \<Rightarrow> disk \<Rightarrow> disk \<Rightarrow> bool" where
  "changes S d d' \<longleftrightarrow> (\<forall>q. q \<notin> S \<longrightarrow> get d' q = get d q)"

text \<open>Every entry after the call was there before it or is one that the predicate describes.\<close>

definition adds :: "(path \<Rightarrow> node \<Rightarrow> bool) \<Rightarrow> disk \<Rightarrow> disk \<Rightarrow> bool" where
  "adds P d d' \<longleftrightarrow> (\<forall>q n. get d' q = Some n \<longrightarrow> get d q = Some n \<or> P q n)"

text \<open>A frame holds of a sequence of calls when it holds of each.\<close>

locale frame =
  fixes R :: "'p :: order \<Rightarrow> disk \<Rightarrow> disk \<Rightarrow> bool"
  assumes refl: "R S d d"
    and trans: "R S d1 d2 \<Longrightarrow> R S d2 d3 \<Longrightarrow> R S d1 d3"
    and mono: "R S d d' \<Longrightarrow> S \<le> T \<Longrightarrow> R T d d'"
begin

lemma and_then:
  assumes "R S d (snd r)" and "\<And>x d1. r = (Inr x, d1) \<Longrightarrow> R S d1 (snd (f x d1))"
  shows "R S d (snd (and_then r f))"
proof (cases r)
  case (Pair a d1)
  show ?thesis
  proof (cases a)
    case (Inl e)
    with assms(1) Pair show ?thesis by (simp add: and_then_def)
  next
    case (Inr x)
    with assms(1) assms(2) [of x d1] Pair trans [of S d d1] show ?thesis by (simp add: and_then_def)
  qed
qed

text \<open>The creation of an upload, from its four calls.\<close>

lemma begin_create:
  assumes all: "\<And>d. R S d (snd (os_mkdir_all E d (requestUploadDir (rbID b))))"
    and mk: "\<And>d. R S d (snd (os_mkdir E d dir))"
    and bf: "\<And>d. R S d (snd (begin_files E d b m raw))"
    and rm: "\<And>d. R S d (snd (os_remove_all E d dir))"
  shows "R S d (snd (begin_create E d b m raw dir))"
proof -
  have body: "R S d (snd (case os_mkdir E d dir of
              (Inl Exist, d) \<Rightarrow> (Inl (ErrConflict []), d)
            | (Inl e, d) \<Rightarrow> (Inl (ErrOS e), d)
            | (Inr _, d) \<Rightarrow>
                (case begin_files E d b m raw of
                   (Inl e, d) \<Rightarrow> (Inl e, snd (os_remove_all E d dir))
                 | (Inr _, d) \<Rightarrow> (Inr m, d))))" for d
  proof (cases "os_mkdir E d dir")
    case (Pair r d1)
    have d1: "R S d d1" using mk [of d] Pair by simp
    show ?thesis
    proof (cases r)
      case (Inl e)
      with Pair d1 show ?thesis by (cases e) simp_all
    next
      case (Inr x)
      obtain r2 d2 where f: "begin_files E d1 b m raw = (r2, d2)" by fastforce
      then have d2: "R S d d2" using bf [of d1] trans [OF d1] by simp
      show ?thesis using Pair Inr f d2 trans [OF d2 rm] by (cases r2) simp_all
    qed
  qed
  show ?thesis
    unfolding begin_create_def by (auto simp: refl split: ok_split intro!: and_then body all)
qed

end

interpretation grow: frame grows
  by unfold_locales (auto simp: grows_def, metis+)

interpretation shrink: frame shrinks
  by unfold_locales (auto simp: shrinks_def, metis+)

interpretation change: frame changes
  by unfold_locales (auto simp: changes_def)

interpretation add: frame adds
  by unfold_locales (auto simp: adds_def le_fun_def)

lemma grows_changes: "grows S d d' \<Longrightarrow> changes S d d'"
  by (auto simp: grows_def changes_def)

lemma shrinks_changes: "shrinks S d d' \<Longrightarrow> changes S d d'"
  by (auto simp: shrinks_def changes_def)

lemma grows_keeps: "grows S d d' \<Longrightarrow> get d q = Some n \<Longrightarrow> get d' q = Some n"
  by (metis grows_def option.distinct(1))

lemma changes_other: "changes S d d' \<Longrightarrow> q \<notin> S \<Longrightarrow> get d' q = get d q"
  by (simp add: changes_def)

section \<open>Calls of the operating system\<close>

lemma grows_mkdir: "p \<in> S \<Longrightarrow> grows S d (snd (os_mkdir E d p))"
  by (auto simp: grows_def os_mkdir_def)

lemma grows_mkdir_all: "grows {q. prefix q p} d (snd (os_mkdir_all E d p))"
  unfolding grows_def using get_mkdir_all [of E d p] by blast

lemma grows_writeNew: "p \<in> S \<Longrightarrow> grows S d (snd (writeNew E d p c))"
  by (cases rule: writeNew_cases [of E d p c]) (auto simp: grows_def)

lemma shrinks_remove_all: "shrinks {q. prefix p q} d (snd (os_remove_all E d p))"
  by (auto simp: shrinks_def get_remove_all)

lemma changes_rename: "changes {p, q} d (snd (os_rename E d p q))"
  by (auto simp: changes_def os_rename_def split: ok_split)

section \<open>Operations\<close>

definition init_paths :: "path set" where
  "init_paths = {[], requestsDir, closedRequestsDir, uploadsDir, markerPath}"

lemma grows_mkdir_dirs: "grows {q. \<exists>p \<in> set ps. prefix q p} d (snd (mkdir_dirs E ps d))"
proof (induction ps arbitrary: d)
  case Nil
  show ?case by (simp add: grow.refl)
next
  case (Cons p ps)
  show ?case
    unfolding mkdir_dirs.simps
    by (rule grow.and_then)
      (auto intro: grow.mono [OF grows_mkdir_all] grow.mono [OF Cons.IH])
qed

lemma grows_Init: "grows init_paths d (snd (Init E d))"
proof -
  have s: "{q. \<exists>p \<in> set [[], requestsDir, closedRequestsDir, uploadsDir]. prefix q p} \<subseteq> init_paths"
    by (auto simp: init_paths_def requestsDir_def closedRequestsDir_def uploadsDir_def prefix_Cons)
  have w: "grows init_paths d (snd (writeNew E d markerPath c))" for d c
    by (rule grows_writeNew) (simp add: init_paths_def)
  show ?thesis
    unfolding Init_def
    by (rule grow.and_then [OF grow.mono [OF grows_mkdir_dirs s]])
      (auto simp: grow.refl w split: ok_split os_error.splits)
qed

lemma grows_ImportRequest: "grows (insert (requestPath (rbID b)) init_paths) d (snd (ImportRequest E d b))"
proof -
  have w: "grows (insert (requestPath (rbID b)) init_paths) d (snd (writeNew E d (requestPath (rbID b)) c))" for d c
    by (rule grows_writeNew) simp
  have "grows (insert (requestPath (rbID b)) init_paths) d (snd (case writeNew E d (requestPath (rbID b)) (JBundle b) of
              (Inl Exist, d) \<Rightarrow> (Inl (ErrConflict []), d) | r \<Rightarrow> os_err r))" for d
    using w [of d "JBundle b"] by (auto split: ok_split os_error.splits)
  then show ?thesis
    unfolding ImportRequest_def
    by (auto simp: grow.refl split: ok_split intro!: grow.and_then grow.mono [OF grows_Init])
qed

lemma grows_ensure_closure: "grows {closurePath i} d (snd (ensure_closure E d i r))"
  using grows_writeNew [of "closurePath i" "{closurePath i}" d E]
  by (auto simp: ensure_closure_def Let_def grow.refl split: ok_split err.splits os_error.splits)
    (metis snd_conv)+

definition close_paths :: "string \<Rightarrow> path set" where
  "close_paths i = {closurePath i, requestPath i, closedRequestPath i}"

lemma changes_move_closed:
  "changes {requestPath i, closedRequestPath i} d (snd (move_closed E d i))"
  unfolding move_closed_def by (rule change.and_then) (auto simp: change.refl changes_rename)

lemma changes_close_locked: "changes (close_paths i) d (snd (close_locked E d i))"
proof -
  have e: "changes (close_paths i) d (snd (ensure_closure E d i r))" for d r
    by (rule change.mono [OF grows_changes [OF grows_ensure_closure]]) (simp add: close_paths_def)
  have m: "changes (close_paths i) d (snd (and_then (move_closed E d i) (\<lambda>_ d. (Inr c, d))))" for d c
    by (rule change.and_then [OF change.mono [OF changes_move_closed]])
      (auto simp: change.refl close_paths_def)
  show ?thesis
    unfolding close_locked_def Let_def
    by (auto simp: change.refl split: option.split intro!: change.and_then e m)
qed

lemma changes_CloseRequest: "changes (close_paths i \<union> init_paths) d (snd (CloseRequest E d i))"
  unfolding CloseRequest_def
  by (auto simp: change.refl intro!: change.and_then change.mono [OF changes_close_locked]
      change.mono [OF grows_changes [OF grows_Init]])

text \<open>The directories on the way to an upload, and the upload's own directory with all below it.\<close>

definition upload_parents :: "string \<Rightarrow> path set" where
  "upload_parents r = {[], uploadsDir, requestUploadDir r}"

definition upload_paths :: "string \<Rightarrow> string \<Rightarrow> path set" where
  "upload_paths r u = {q. prefix (uploadDir r u) q}"

lemma upload_paths_files:
  "manifestPath r u \<in> upload_paths r u" "statePath r u \<in> upload_paths r u"
  "chunksDir r u \<in> upload_paths r u" "completePath r u \<in> upload_paths r u"
  "ackPath r u \<in> upload_paths r u" "chunkPath r u i \<in> upload_paths r u"
  by (simp_all add: upload_paths_def upload_file_defs)

lemma grows_mkdir_upload_parents:
  "ValidID r \<Longrightarrow> grows (upload_parents r) d (snd (os_mkdir_all E d (requestUploadDir r)))"
  by (rule grow.mono [OF grows_mkdir_all])
    (auto simp: upload_parents_def requestUploadDir_valid uploadsDir_def prefix_Cons)

lemma grows_begin_files:
  "grows (upload_paths (rbID b) (mfUploadID m)) d (snd (begin_files E d b m raw))"
  unfolding begin_files_def
  by (auto intro!: grow.and_then grows_mkdir grows_writeNew simp: upload_paths_files)

lemma join_upload:
  assumes "ValidID r" "ValidID u"
  shows "path_join (uploadsDir @ [r, u]) = uploadDir r u"
  using assms by (simp add: uploadDir_def)

lemma changes_begin_create:
  assumes "ValidID (rbID b)" and "ValidID (mfUploadID m)"
  shows "changes (upload_parents (rbID b) \<union> upload_paths (rbID b) (mfUploadID m)) d
    (snd (begin_create E d b m raw (uploadDir (rbID b) (mfUploadID m))))" (is "changes ?S _ _")
proof (rule change.begin_create)
  let ?dir = "uploadDir (rbID b) (mfUploadID m)"
  fix d
  show "changes ?S d (snd (os_mkdir_all E d (requestUploadDir (rbID b))))"
    by (rule change.mono [OF grows_changes [OF grows_mkdir_upload_parents [OF assms(1)]]]) simp
  show "changes ?S d (snd (os_mkdir E d ?dir))"
    by (rule grows_changes [OF grows_mkdir]) (simp add: upload_paths_def)
  show "changes ?S d (snd (begin_files E d b m raw))"
    by (rule change.mono [OF grows_changes [OF grows_begin_files]]) auto
  show "changes ?S d (snd (os_remove_all E d ?dir))"
    by (rule change.mono [OF shrinks_changes [OF shrinks_remove_all]]) (auto simp: upload_paths_def)
qed

lemma changes_BeginUpload:
  assumes "envManifest E raw = Some m"
  shows "changes (upload_parents (rbID b) \<union> upload_paths (rbID b) (mfUploadID m)) d
    (snd (BeginUpload E d b raw))"
proof (cases "validateBundle b = Inr () \<and> validateManifest b m = Inr ()")
  case True
  then have v: "ValidID (rbID b)" "ValidID (mfUploadID m)"
    by (simp_all add: validateBundle_ok validateManifest_ok)
  have "changes (upload_parents (rbID b) \<union> upload_paths (rbID b) (mfUploadID m)) d
      (snd (begin_locked E d b m raw))"
    unfolding begin_locked_def Let_def join_upload [OF v]
    using changes_begin_create [OF v] change.refl
    by (auto split: sum.splits bool.splits node.splits os_error.splits)
  then show ?thesis using assms True by (simp add: BeginUpload_def change.refl)
next
  case False
  then show ?thesis using assms by (auto simp: BeginUpload_def change.refl split: sum.splits)
qed

lemma BeginUpload_undecodable: "envManifest E raw = None \<Longrightarrow> snd (BeginUpload E d b raw) = d"
  by (simp add: BeginUpload_def split: sum.splits)

lemma store_chunk_cases:
  obtains (same) e where "store_chunk E d p r n = (Inl e, d)"
  | (new) "store_chunk E d p r n = (Inr (), put d p (File (Raw (take (nat (wrap64 (n + 1))) (bodyBytes r)))))"
      and "get d (butlast p) = Some Dir" and "int (length (take (nat (wrap64 (n + 1))) (bodyBytes r))) = n"
  by (cases "store_chunk E d p r n") (auto simp: store_chunk_def Let_def split: if_splits)

lemma PutChunk_cases:
  obtains (same) e where "PutChunk E d r u i bd len = (Inl e, d)"
  | (new) m raw bytes where "PutChunk E d r u i bd len = (Inr (), put d (chunkPath r u i) (File (Raw bytes)))"
      and "readManifest E d r u = Inr (m, raw)" and "0 \<le> i" and "i < mfChunkCount m"
      and "Closed E d r = Inr False" and "get d (chunkPath r u i) = None"
      and "get d (butlast (chunkPath r u i)) = Some Dir"
      and "bytes = take (nat (wrap64 (expectedCipherChunkSize m i + 1))) (bodyBytes bd)"
      and "int (length bytes) = expectedCipherChunkSize m i"
proof (cases "\<exists>e. PutChunk E d r u i bd len = (Inl e, d)")
  case True
  with same show thesis by blast
next
  case False
  then obtain m raw where m: "readManifest E d r u = Inr (m, raw)" "0 \<le> i" "i < mfChunkCount m"
    and l: "\<not> (len \<ge> 0 \<and> len \<noteq> expectedCipherChunkSize m i)"
    and c: "Closed E d r = Inr False" and s: "os_stat E d (chunkPath r u i) = Inl NotExist"
    by (auto simp: PutChunk_def Let_def split: sum.splits if_splits bool.splits os_error.splits)
  have e: "PutChunk E d r u i bd len
      = store_chunk E d (chunkPath r u i) bd (expectedCipherChunkSize m i)"
  proof (cases "len \<ge> 0")
    case True
    with l have "expectedCipherChunkSize m i = len" by simp
    with m c s show ?thesis by (simp add: PutChunk_def Let_def)
  next
    case False
    with m c s show ?thesis by (simp add: PutChunk_def Let_def)
  qed
  have abs: "get d (chunkPath r u i) = None" using s by (auto simp: os_stat_def split: ok_split)
  show thesis
    by (cases rule: store_chunk_cases [of E d "chunkPath r u i" bd "expectedCipherChunkSize m i"])
      (use e False new [OF _ m c abs] in auto)
qed

lemma grows_PutChunk: "grows {chunkPath r u i} d (snd (PutChunk E d r u i bd len))"
  by (cases rule: PutChunk_cases [of E d r u i bd len]) (auto simp: grows_def)

lemma grows_write_receipt: "grows {completePath r u} d (snd (write_receipt E d r u rc))"
  using grows_writeNew [of "completePath r u" "{completePath r u}" d E "JReceipt rc"]
  by (auto simp: write_receipt_def split: ok_split os_error.splits)

lemma grows_Complete: "grows {completePath r u} d (snd (Complete E d r u))"
  using grow.refl grows_write_receipt
  by (auto simp: Complete_def split: sum.splits bool.splits prod.splits)

lemma changes_Acknowledge:
  "changes (upload_paths (rbID b) u) d (snd (Acknowledge E d b u))"
proof -
  have w: "changes (upload_paths (rbID b) u) d d1"
    if "writeNew E d (ackPath (rbID b) u) c = (x, d1)" for c x d1
    using grows_changes [OF grows_writeNew [OF upload_paths_files(5)], of "rbID b" u d E c] that by simp
  have r: "changes (upload_paths (rbID b) u) d (snd (os_remove_all E d (uploadDir (rbID b) u)))" for d
    unfolding upload_paths_def by (rule shrinks_changes [OF shrinks_remove_all])
  show ?thesis
    unfolding Acknowledge_def
    by (auto simp: change.refl split: sum.splits prod.splits dest!: w intro: change.trans [OF _ r])
qed

lemma shrinks_purge_each:
  "shrinks (\<Union>(r, u) \<in> set us. upload_paths r u) d (snd (purge_each E a stale us res d))"
proof (induction E a stale us res d rule: purge_each.induct)
  case (1 E a stale res d)
  show ?case by (simp add: shrink.refl)
next
  case (2 E a stale r u us res d)
  let ?S = "\<Union>(r, u) \<in> set ((r, u) # us). upload_paths r u"
  have rm: "shrinks ?S d (snd (os_remove_all E d (uploadDir r u)))"
    by (rule shrink.mono [OF shrinks_remove_all]) (auto simp: upload_paths_def)
  have weak: "shrinks (\<Union>(r, u) \<in> set us. upload_paths r u) d1 d2 \<Longrightarrow> shrinks ?S d1 d2" for d1 d2
    by (erule shrink.mono) auto
  show ?case
    using 2 rm weak
    by (auto simp: Let_def split: sum.splits prod.splits intro: shrink.trans)
qed

definition valid_upload_paths :: "path set" where
  "valid_upload_paths = (\<Union>r \<in> Collect ValidID. \<Union>u \<in> Collect ValidID. upload_paths r u)"

lemma upload_entries_valid: "u \<in> set (upload_entries es) \<Longrightarrow> ValidID u"
  by (auto simp: upload_entries_def)

lemma purge_uploads_valid: "(r', u) \<in> set (purge_uploads E d r) \<Longrightarrow> r' = r \<and> ValidID u"
  by (auto simp: purge_uploads_def dest: upload_entries_valid split: sum.splits)

lemma shrinks_Purge: "shrinks valid_upload_paths d (snd (Purge E d a stale))"
proof -
  have "(\<Union>(r, u) \<in> set (concat (map (purge_uploads E d) (upload_entries es))). upload_paths r u)
      \<subseteq> valid_upload_paths" for es
    by (fastforce simp: valid_upload_paths_def dest: upload_entries_valid purge_uploads_valid)
  then have "shrinks valid_upload_paths d (snd (purge_each E a stale
      (concat (map (purge_uploads E d) (upload_entries es))) res d))" for es res
    by (rule shrink.mono [OF shrinks_purge_each])
  then show ?thesis
    unfolding Purge_def Let_def by (auto simp: shrink.refl split: sum.splits os_error.splits)
qed

end
