(* ===== verification/StoreComplete.thy ===== *)
theory StoreComplete
  imports StoreFrame
begin

text \<open>
  What \<open>Complete\<close> computes: the loop over the chunks succeeds exactly when every chunk is there with
  the size the manifest asks for, and then the digests are those of the chunks in order and the
  ciphertext is the plaintext with one tag per chunk.
\<close>

section \<open>The loop over the chunks\<close>

definition chunk_bytes :: "env \<Rightarrow> disk \<Rightarrow> string \<Rightarrow> string \<Rightarrow> int \<Rightarrow> string option" where
  "chunk_bytes E d r u i =
     (case get d (chunkPath r u i) of Some (File c) \<Rightarrow> Some (content_bytes E c) | _ \<Rightarrow> None)"

definition chunk_present :: "env \<Rightarrow> disk \<Rightarrow> string \<Rightarrow> string \<Rightarrow> Manifest \<Rightarrow> int \<Rightarrow> bool" where
  "chunk_present E d r u m i =
     (case chunk_bytes E d r u i of
        None \<Rightarrow> False | Some b \<Rightarrow> int (length b) = expectedCipherChunkSize m i)"

text \<open>The digests of the chunks in order.\<close>

definition chunk_digests :: "env \<Rightarrow> disk \<Rightarrow> string \<Rightarrow> string \<Rightarrow> int list \<Rightarrow> string list" where
  "chunk_digests E d r u is = map (\<lambda>i. sha256 (the (chunk_bytes E d r u i))) is"

lemma chunk_summary_ok:
  assumes "chunk_summary E d r u m i = Inr (h, k)"
  shows "chunk_present E d r u m i" and "h = sha256 (the (chunk_bytes E d r u i))"
    and "k = expectedCipherChunkSize m i"
  using assms
  by (auto simp: chunk_summary_def Let_def chunk_present_def chunk_bytes_def os_stat_def
      os_read_file_def node_size_def split: sum.splits if_splits option.splits node.splits os_error.splits)

lemma chunk_summary_present:
  assumes "no_faults E" and "chunk_present E d r u m i"
  shows "chunk_summary E d r u m i = Inr (sha256 (the (chunk_bytes E d r u i)), expectedCipherChunkSize m i)"
  using assms
  by (auto simp: chunk_summary_def Let_def chunk_present_def chunk_bytes_def os_stat_def no_faults_def
      os_read_file_def node_size_def split: option.splits node.splits)

lemma wrap64_add: "wrap64 (wrap64 x + y) = wrap64 (x + y)"
proof -
  have "(x + 2 ^ 63) mod 2 ^ 64 - 2 ^ 63 + y + 2 ^ 63 = (x + 2 ^ 63) mod 2 ^ 64 + y" by simp
  then have "wrap64 (wrap64 x + y) = ((x + 2 ^ 63) mod 2 ^ 64 + y) mod 2 ^ 64 - 2 ^ 63"
    unfolding wrap64_def by (simp only:)
  also have "\<dots> = (x + 2 ^ 63 + y) mod 2 ^ 64 - 2 ^ 63" by (simp only: mod_add_left_eq)
  also have "x + 2 ^ 63 + y = x + y + 2 ^ 63" by simp
  finally show ?thesis unfolding wrap64_def .
qed

lemma complete_chunks_ok:
  assumes "complete_chunks E d r u m is (ds, n) = Inr (ds', n')"
  shows "list_all (chunk_present E d r u m) is" and "ds' = ds @ chunk_digests E d r u is"
    and "wrap64 n' = wrap64 (n + sum_list (map (expectedCipherChunkSize m) is))"
proof -
  have "list_all (chunk_present E d r u m) is \<and> ds' = ds @ chunk_digests E d r u is
      \<and> wrap64 n' = wrap64 (n + sum_list (map (expectedCipherChunkSize m) is))"
    using assms
  proof (induction "is" arbitrary: ds n)
    case Nil
    then show ?case by (simp add: chunk_digests_def)
  next
    case (Cons i "is")
    then obtain h k where s: "chunk_summary E d r u m i = Inr (h, k)"
      and r: "complete_chunks E d r u m is (ds @ [h], wrap64 (n + k)) = Inr (ds', n')"
      by (auto split: sum.splits)
    show ?case using Cons.IH [OF r] chunk_summary_ok [OF s]
      by (simp add: chunk_digests_def wrap64_add add.assoc)
  qed
  then show "list_all (chunk_present E d r u m) is" "ds' = ds @ chunk_digests E d r u is"
    "wrap64 n' = wrap64 (n + sum_list (map (expectedCipherChunkSize m) is))" by auto
qed

lemma complete_chunks_in_int64:
  "complete_chunks E d r u m is (ds, n) = Inr (ds', n') \<Longrightarrow> in_int64 n \<Longrightarrow> in_int64 n'"
  by (induction "is" arbitrary: ds n) (auto split: sum.splits simp: in_int64_wrap64)

lemma complete_chunks_present:
  assumes "no_faults E" and "list_all (chunk_present E d r u m) is"
  shows "\<exists>n'. complete_chunks E d r u m is (ds, n) = Inr (ds @ chunk_digests E d r u is, n')"
  using assms(2)
proof (induction "is" arbitrary: ds n)
  case Nil
  show ?case by (simp add: chunk_digests_def)
next
  case (Cons i "is")
  then show ?case
    using Cons.IH [of "ds @ [sha256 (the (chunk_bytes E d r u i))]" "wrap64 (n + expectedCipherChunkSize m i)"]
    by (simp add: chunk_digests_def chunk_summary_present [OF assms(1)])
qed

text \<open>All the indices of a manifest, and the total of its ciphertext.\<close>

definition chunk_indices :: "Manifest \<Rightarrow> int list" where
  "chunk_indices m = map int [0..<nat (mfChunkCount m)]"

lemma sum_cipher_chunks:
  assumes "chunk_shape m"
  shows "sum_list (map (expectedCipherChunkSize m) (chunk_indices m))
    = mfPlainSize m + 16 * mfChunkCount m"
proof -
  have "map (expectedCipherChunkSize m) (chunk_indices m) = map (\<lambda>i. plain_chunk_size m i + 16) (chunk_indices m)"
    by (rule map_cong) (auto simp: chunk_indices_def expected_size_exact(1) [OF assms])
  also have "sum_list \<dots> = sum_list (map (plain_chunk_size m) (chunk_indices m)) + 16 * int (length (chunk_indices m))"
    by (rule sum_list_map_const_add)
  also have "\<dots> = mfPlainSize m + 16 * mfChunkCount m"
    using sum_plain_chunks [OF assms] assms by (simp add: chunk_indices_def chunk_shape_def)
  finally show ?thesis .
qed

lemma complete_cipher_bytes:
  assumes "complete_chunks E d r u m (chunk_indices m) ([], 0) = Inr (ds, n)" and "chunk_shape m"
  shows "n = mfPlainSize m + 16 * mfChunkCount m"
proof -
  have "in_int64 0" by (simp add: in_int64_def)
  then have "in_int64 n" by (rule complete_chunks_in_int64 [OF assms(1)])
  moreover have "in_int64 (mfPlainSize m + 16 * mfChunkCount m)"
    using assms(2) by (simp add: chunk_shape_def in_int64_def)
  ultimately show ?thesis
    using complete_chunks_ok(3) [OF assms(1)] sum_cipher_chunks [OF assms(2)] by (simp add: wrap64_id)
qed

section \<open>The outcomes of Complete\<close>

lemma Complete_cases:
  obtains (error) e where "Complete E d r u = (Inl e, d)"
  | (replay) rc where "Complete E d r u = (Inr rc, d)" and "readReceipt E d r u = Inr rc"
      and "Closed E d r = Inr False"
  | (writes) m raw n where "Complete E d r u = write_receipt E d r u
        (complete_receipt E r u m raw (chunk_digests E d r u (chunk_indices m)) n)"
      and "Closed E d r = Inr False" and "readManifest E d r u = Inr (m, raw)"
      and "0 \<le> mfChunkCount m" and "list_all (chunk_present E d r u m) (chunk_indices m)"
      and "complete_chunks E d r u m (chunk_indices m) ([], 0)
        = Inr (chunk_digests E d r u (chunk_indices m), n)"
proof (cases "Closed E d r")
  case (Inl e)
  then show thesis by (intro error [of e]) (simp add: Complete_def)
next
  case (Inr b)
  note c = this
  show thesis
  proof (cases b)
    case True
    with c show thesis by (intro error [of ErrClosed]) (simp add: Complete_def)
  next
    case False
    from c False have c: "Closed E d r = Inr False" by simp
    show thesis
    proof (cases "readReceipt E d r u")
      case (Inr rc)
      with c show thesis by (intro replay [of rc]) (simp_all add: Complete_def)
    next
      case (Inl e)
      note rr = this
      show thesis
      proof (cases "readManifest E d r u")
        case (Inl e)
        with c rr show thesis by (intro error [of e]) (simp add: Complete_def)
      next
        case (Inr mr)
        obtain m raw where m: "readManifest E d r u = Inr (m, raw)" using Inr by (cases mr) auto
        let ?l = "complete_chunks E d r u m (chunk_indices m) ([], 0)"
        show thesis
        proof (cases "mfChunkCount m < 0 \<or> (\<exists>e. ?l = Inl e)")
          case True
          then have "\<exists>e. Complete E d r u = (Inl e, d)"
            using c rr m by (auto simp: Complete_def chunk_indices_def)
          then show thesis using error by blast
        next
          case False
          then obtain ds n where l: "?l = Inr (ds, n)" and p: "0 \<le> mfChunkCount m" by (cases ?l) auto
          then have ds: "ds = chunk_digests E d r u (chunk_indices m)"
            using complete_chunks_ok(2) by fastforce
          show thesis
            by (rule writes [OF _ c m p complete_chunks_ok(1) [OF l] l [unfolded ds]])
              (use c rr m l ds p in \<open>simp add: Complete_def chunk_indices_def\<close>)
        qed
      qed
    qed
  qed
qed

lemma write_receipt_cases:
  obtains (same) e where "write_receipt E d r u rc = (e, d)" and "\<And>rc'. e = Inr rc' \<Longrightarrow> readReceipt E d r u = Inr rc'"
  | (new) e where "write_receipt E d r u rc = (e, put d (completePath r u) (File (JReceipt rc)))"
      and "get d (completePath r u) = None" and "e = Inr rc \<or> e = Inl (ErrOS IOError)"
proof (cases rule: writeNew_cases [of E d "completePath r u" "JReceipt rc"])
  case (same e)
  then show thesis
    by (cases e) (auto simp: write_receipt_def intro: that(1))
next
  case (new x)
  then show thesis by (auto simp: write_receipt_def intro: that(2))
qed

end
