(* ===== verification/StoreInv.thy ===== *)
theory StoreInv
  imports StoreComplete
begin

text \<open>
  The store as a system: its state is the data directory and the request bundles that callers hold
  after authenticating, its steps are the operations in any order and under any faults of the disk.
  The invariant says what every file of the data directory holds and that the entries form a tree.
\<close>

section \<open>What a file may hold\<close>

definition bundle_entry :: "string \<Rightarrow> node \<Rightarrow> bool" where
  "bundle_entry i n \<longleftrightarrow> (\<exists>b. n = File (JBundle b) \<and> validateBundle b = Inr () \<and> rbID b = i)"

definition closure_entry :: "string \<Rightarrow> node \<Rightarrow> bool" where
  "closure_entry i n \<longleftrightarrow> (\<exists>c. n = File (JClosure c) \<and> clSchemaVersion c = SchemaVersion
     \<and> clRequestID c = i \<and> \<not> is_zero_time (clClosedAt c))"

text \<open>A manifest the server accepted for upload \<open>u\<close> of request \<open>r\<close>.\<close>

definition accepted :: "string \<Rightarrow> string \<Rightarrow> Manifest \<Rightarrow> bool" where
  "accepted r u m \<longleftrightarrow> mfUploadID m = u
     \<and> (\<exists>b. validateBundle b = Inr () \<and> rbID b = r \<and> validateManifest b m = Inr ())"

definition manifest_entry :: "(string \<Rightarrow> Manifest option) \<Rightarrow> string \<Rightarrow> string \<Rightarrow> node \<Rightarrow> bool" where
  "manifest_entry dec r u n \<longleftrightarrow> (\<exists>raw m. n = File (Raw raw) \<and> dec raw = Some m \<and> accepted r u m)"

definition state_entry :: "string \<Rightarrow> string \<Rightarrow> node \<Rightarrow> bool" where
  "state_entry r u n \<longleftrightarrow> (\<exists>s m. n = File (JState s) \<and> accepted r u m \<and> usRequestID s = r
     \<and> usUploadID s = u \<and> usPlainSize s = mfPlainSize m \<and> usChunkSize s = mfChunkSize m
     \<and> usChunkCount s = mfChunkCount m \<and> \<not> is_zero_time (usCreatedAt s))"

text \<open>What a receipt says of itself: whose it is and that its sizes fit.\<close>

definition receipt_fits :: "string \<Rightarrow> string \<Rightarrow> Receipt \<Rightarrow> bool" where
  "receipt_fits r u rc \<longleftrightarrow> rcVersion rc = 1 \<and> rcRequestID rc = r \<and> rcUploadID rc = u
     \<and> 0 \<le> rcPlainSize rc \<and> rcPlainSize rc \<le> 2 ^ 50 \<and> 1 \<le> rcChunkCount rc \<and> rcChunkCount rc < 2 ^ 32 - 1
     \<and> rcCipherBytes rc = rcPlainSize rc + 16 * rcChunkCount rc"

definition receipt_entry :: "string \<Rightarrow> string \<Rightarrow> node \<Rightarrow> bool" where
  "receipt_entry r u n \<longleftrightarrow> (\<exists>rc. n = File (JReceipt rc) \<and> receipt_fits r u rc)"

definition entry_ok :: "(string \<Rightarrow> Manifest option) \<Rightarrow> path \<Rightarrow> node \<Rightarrow> bool" where
  "entry_ok dec q n \<longleftrightarrow>
     (\<forall>i. ValidID i \<longrightarrow> (q = requestPath i \<longrightarrow> bundle_entry i n)
        \<and> (q = closedRequestPath i \<longrightarrow> bundle_entry i n)
        \<and> (q = closurePath i \<longrightarrow> closure_entry i n))
     \<and> (\<forall>r u. ValidID r \<longrightarrow> ValidID u \<longrightarrow> (q = manifestPath r u \<longrightarrow> manifest_entry dec r u n)
        \<and> (q = statePath r u \<longrightarrow> state_entry r u n)
        \<and> (q = completePath r u \<longrightarrow> receipt_entry r u n)
        \<and> (\<forall>i. q = chunkPath r u i \<longrightarrow> (\<exists>b. n = File (Raw b))))"

definition entries_ok :: "(string \<Rightarrow> Manifest option) \<Rightarrow> disk \<Rightarrow> bool" where
  "entries_ok dec d \<longleftrightarrow> (\<forall>q n. get d q = Some n \<longrightarrow> entry_ok dec q n)"

text \<open>The paths written out for valid identifiers, so that different files have different paths.\<close>

lemma requestPath_valid: "ValidID i \<Longrightarrow> requestPath i = [''requests'', i @ ''.json'']"
  by (simp add: request_file_defs)

lemma closedRequestPath_valid: "ValidID i \<Longrightarrow> closedRequestPath i = [''closed-requests'', i @ ''.json'']"
  by (simp add: request_file_defs)

lemma closurePath_valid: "ValidID i \<Longrightarrow> closurePath i = [''closed-requests'', i @ ''.closure.json'']"
  by (simp add: request_file_defs)

lemma closure_not_valid [simp]: "\<not> ValidID (i @ ''.closure'')"
proof
  assume "ValidID (i @ ''.closure'')"
  then have "CHR ''.'' \<notin> set (i @ ''.closure'')" by (rule ValidID_chars(2))
  then show False by simp
qed

lemma json_suffix [simp]: "i @ ''.closure.json'' = j @ ''.json'' \<longleftrightarrow> j = i @ ''.closure''"
proof -
  have "i @ ''.closure.json'' = (i @ ''.closure'') @ ''.json''" by simp
  then show ?thesis by (metis append_same_eq)
qed

lemma json_suffix' [simp]: "j @ ''.json'' = i @ ''.closure.json'' \<longleftrightarrow> j = i @ ''.closure''"
  using json_suffix by metis

lemmas request_paths = requestPath_valid closedRequestPath_valid closurePath_valid

lemmas top_paths = requestsDir_def closedRequestsDir_def uploadsDir_def markerPath_def

text \<open>Directories and the marker are none of the files above.\<close>

lemma entry_ok_top: "q \<in> init_paths \<Longrightarrow> entry_ok dec q n"
  by (auto simp: entry_ok_def init_paths_def top_paths request_file_defs upload_file_defs uploadDir_valid)

lemma entry_ok_upload_dir:
  assumes "ValidID r" "ValidID u" and "q \<in> upload_parents r \<or> q = uploadDir r u \<or> q = chunksDir r u"
  shows "entry_ok dec q n"
  using assms
  by (auto simp: entry_ok_def upload_parents_def requestUploadDir_valid uploadDir_valid
      upload_file_defs uploadsDir_def request_file_defs)

lemma entry_ok_bundle:
  assumes "ValidID i" and "q = requestPath i \<or> q = closedRequestPath i"
  shows "entry_ok dec q n \<longleftrightarrow> bundle_entry i n"
  using assms
  by (auto simp: entry_ok_def request_paths upload_file_defs uploadDir_valid)

lemma entry_ok_closure: "ValidID i \<Longrightarrow> entry_ok dec (closurePath i) n \<longleftrightarrow> closure_entry i n"
  by (auto simp: entry_ok_def request_paths upload_file_defs uploadDir_valid)

lemma entry_ok_upload_files:
  assumes "ValidID r" "ValidID u"
  shows "entry_ok dec (manifestPath r u) n \<longleftrightarrow> manifest_entry dec r u n"
    and "entry_ok dec (statePath r u) n \<longleftrightarrow> state_entry r u n"
    and "entry_ok dec (completePath r u) n \<longleftrightarrow> receipt_entry r u n"
    and "entry_ok dec (ackPath r u) n"
    and "entry_ok dec (chunkPath r u i) n \<longleftrightarrow> (\<exists>b. n = File (Raw b))"
  using assms
  by (auto simp: entry_ok_def request_paths upload_file_defs uploadDir_valid)

lemma entries_ok_add:
  assumes "entries_ok dec d" and "adds P d d'" and "\<And>q n. P q n \<Longrightarrow> entry_ok dec q n"
  shows "entries_ok dec d'"
  using assms unfolding entries_ok_def adds_def by blast

section \<open>What each operation adds\<close>

lemma adds_mkdir: "P p Dir \<Longrightarrow> adds P d (snd (os_mkdir E d p))"
  by (auto simp: adds_def os_mkdir_def)

lemma adds_mkdir_all: "(\<And>q. prefix q p \<Longrightarrow> P q Dir) \<Longrightarrow> adds P d (snd (os_mkdir_all E d p))"
  unfolding adds_def using get_mkdir_all [of E d p] by (metis option.inject)

lemma adds_writeNew: "P p (File c) \<Longrightarrow> adds P d (snd (writeNew E d p c))"
  by (cases rule: writeNew_cases [of E d p c]) (auto simp: adds_def)

lemma adds_shrinks: "shrinks S d d' \<Longrightarrow> adds P d d'"
  unfolding adds_def shrinks_def by (metis option.distinct(1))

lemma adds_put: "P p n \<Longrightarrow> adds P d (put d p n)"
  by (simp add: adds_def)

lemma adds_Init: 
  assumes "\<And>q n. q \<in> init_paths \<Longrightarrow> P q n"
  shows "adds P d (snd (Init E d))"
  using grows_Init [of d E] assms unfolding adds_def grows_def by (metis option.distinct(1))

lemma entries_ok_Init: "entries_ok dec d \<Longrightarrow> entries_ok dec (snd (Init E d))"
  by (rule entries_ok_add [OF _ adds_Init [where P = "entry_ok dec"]]) (auto simp: entry_ok_top)

lemma entries_ok_ImportRequest:
  assumes "entries_ok dec d"
  shows "entries_ok dec (snd (ImportRequest E d b))"
proof (cases "validateBundle b = Inr ()")
  case False
  then show ?thesis using assms by (auto simp: ImportRequest_def split: sum.splits)
next
  case True
  then have "ValidID (rbID b)" by (simp add: validateBundle_ok)
  then have e: "entry_ok dec (requestPath (rbID b)) (File (JBundle b))"
    using True by (simp add: entry_ok_bundle bundle_entry_def)
  have w: "adds (entry_ok dec) d1 (snd (case writeNew E d1 (requestPath (rbID b)) (JBundle b) of
              (Inl Exist, d) \<Rightarrow> (Inl (ErrConflict []), d) | r \<Rightarrow> os_err r))" for d1
    using adds_writeNew [of "entry_ok dec", OF e, of d1 E] by (auto split: ok_split os_error.splits)
  have "adds (entry_ok dec) d (snd (ImportRequest E d b))"
    unfolding ImportRequest_def True sum.case
    by (rule add.and_then [OF adds_Init w]) (rule entry_ok_top)
  then show ?thesis by (rule entries_ok_add [OF assms]) simp
qed

text \<open>What is recorded when a request is closed: the new record, and the bundle in its new place.\<close>

lemma adds_ensure_closure:
  assumes "ValidID i" and "\<not> is_zero_time (envNow E)"
  shows "adds (entry_ok dec) d (snd (ensure_closure E d i r))"
proof -
  have "entry_ok dec (closurePath i) (File (JClosure \<lparr>clSchemaVersion = SchemaVersion,
      clRequestID = i, clClosedAt = envNow E\<rparr>))"
    using assms by (simp add: entry_ok_closure closure_entry_def)
  from adds_writeNew [of "entry_ok dec", OF this, of d E] show ?thesis
    by (auto simp: ensure_closure_def Let_def add.refl split: ok_split err.splits os_error.splits)
qed

lemma entries_ok_move_closed:
  assumes "ValidID i" and "entries_ok dec d"
  shows "entries_ok dec (snd (move_closed E d i))"
proof -
  have "adds (entry_ok dec) d (snd (os_rename E d (requestPath i) (closedRequestPath i)))"
    using assms(2) entry_ok_bundle [OF assms(1), of "requestPath i" dec]
      entry_ok_bundle [OF assms(1), of "closedRequestPath i" dec]
    by (fastforce simp: adds_def os_rename_def entries_ok_def split: ok_split)
  then have "adds (entry_ok dec) d (snd (move_closed E d i))"
    unfolding move_closed_def by (intro add.and_then) (auto simp: add.refl)
  then show ?thesis by (rule entries_ok_add [OF assms(2)]) simp
qed

lemma snd_and_then:
  "snd (and_then r f) = (case fst r of Inl _ \<Rightarrow> snd r | Inr x \<Rightarrow> snd (f x (snd r)))"
  by (auto simp: and_then_def split: ok_split)

lemma entries_ok_CloseRequest:
  assumes "entries_ok dec d" and "\<not> is_zero_time (envNow E)"
  shows "entries_ok dec (snd (CloseRequest E d i))"
proof (cases "ValidID i")
  case False
  with assms show ?thesis by (simp add: CloseRequest_def)
next
  case True
  have e: "entries_ok dec (snd (ensure_closure E d i r))" if "entries_ok dec d" for d r
    by (rule entries_ok_add [OF that adds_ensure_closure [OF True assms(2)]])
  have "entries_ok dec (snd (close_locked E d i))" if "entries_ok dec d" for d
    unfolding close_locked_def Let_def
    using that e [OF that] entries_ok_move_closed [OF True e [OF that]]
    by (auto simp: snd_and_then split: option.split sum.splits)
  then show ?thesis
    using True assms(1) entries_ok_Init [of dec d E] by (auto simp: CloseRequest_def snd_and_then split: sum.splits)
qed

text \<open>The new entries of an upload that begins.\<close>

definition begin_entry :: "env \<Rightarrow> RequestBundle \<Rightarrow> Manifest \<Rightarrow> string \<Rightarrow> path \<Rightarrow> node \<Rightarrow> bool" where
  "begin_entry E b m raw q n \<longleftrightarrow>
     (q \<in> upload_parents (rbID b) \<or> q = uploadDir (rbID b) (mfUploadID m)
        \<or> q = chunksDir (rbID b) (mfUploadID m)) \<and> n = Dir
     \<or> q = manifestPath (rbID b) (mfUploadID m) \<and> n = File (Raw raw)
     \<or> q = statePath (rbID b) (mfUploadID m) \<and> n = File (JState (initial_state E b m))"

lemma adds_begin_files: "adds (begin_entry E b m raw) d (snd (begin_files E d b m raw))"
  unfolding begin_files_def
  by (auto intro!: add.and_then adds_mkdir adds_writeNew simp: begin_entry_def)

lemma adds_begin_create:
  assumes "ValidID (rbID b)" and "ValidID (mfUploadID m)"
  shows "adds (begin_entry E b m raw) d
    (snd (begin_create E d b m raw (uploadDir (rbID b) (mfUploadID m))))" (is "adds ?P _ _")
proof (rule add.begin_create)
  let ?dir = "uploadDir (rbID b) (mfUploadID m)"
  fix d
  show "adds ?P d (snd (os_mkdir_all E d (requestUploadDir (rbID b))))"
    by (rule adds_mkdir_all)
      (auto simp: begin_entry_def upload_parents_def requestUploadDir_valid assms uploadsDir_def prefix_Cons)
  show "adds ?P d (snd (os_mkdir E d ?dir))"
    by (rule adds_mkdir) (simp add: begin_entry_def)
  show "adds ?P d (snd (begin_files E d b m raw))" by (rule adds_begin_files)
  show "adds ?P d (snd (os_remove_all E d ?dir))" by (rule adds_shrinks [OF shrinks_remove_all])
qed

lemma BeginUpload_locked:
  obtains (same) "snd (BeginUpload E d b raw) = d"
  | (locked) m where "envManifest E raw = Some m" and "validateBundle b = Inr ()"
      and "validateManifest b m = Inr ()" and "BeginUpload E d b raw = begin_locked E d b m raw"
proof (cases "snd (BeginUpload E d b raw) = d")
  case False
  then obtain m where m: "envManifest E raw = Some m"
    using BeginUpload_undecodable by (cases "envManifest E raw") blast+
  with False have "validateBundle b = Inr ()" "validateManifest b m = Inr ()"
      "BeginUpload E d b raw = begin_locked E d b m raw"
    by (auto simp: BeginUpload_def split: if_splits sum.splits)
  with m locked show thesis by blast
qed (rule same)

lemma begin_locked_create:
  assumes "ValidID (rbID b)" and "ValidID (mfUploadID m)"
  obtains (same) r where "begin_locked E d b m raw = (r, d)"
  | (create) "begin_locked E d b m raw = begin_create E d b m raw (uploadDir (rbID b) (mfUploadID m))"
      and "Closed E d (rbID b) = Inr False" and "after (rbExpiresAt b) (envNow E)"
proof -
  let ?r = "begin_locked E d b m raw"
  have "(\<exists>r. ?r = (r, d)) \<or> ?r = begin_create E d b m raw (uploadDir (rbID b) (mfUploadID m))
      \<and> Closed E d (rbID b) = Inr False \<and> after (rbExpiresAt b) (envNow E)"
    unfolding begin_locked_def Let_def join_upload [OF assms]
    by (auto split: sum.splits bool.splits node.splits os_error.splits)
  then show thesis using same create by blast
qed

lemma entries_ok_BeginUpload:
  assumes "entries_ok dec d" and "envManifest E = dec" and "\<not> is_zero_time (envNow E)"
  shows "entries_ok dec (snd (BeginUpload E d b raw))"
proof (cases rule: BeginUpload_locked [of E d b raw])
  case same
  with assms show ?thesis by simp
next
  case (locked m)
  then have v: "ValidID (rbID b)" "ValidID (mfUploadID m)"
    by (simp_all add: validateBundle_ok validateManifest_ok)
  have acc: "accepted (rbID b) (mfUploadID m) m" using locked by (auto simp: accepted_def)
  have e: "entry_ok dec q n" if "begin_entry E b m raw q n" for q n
    using that assms(2,3) locked(1) acc entry_ok_upload_dir [OF v] entry_ok_upload_files [OF v]
    by (auto simp: begin_entry_def manifest_entry_def state_entry_def initial_state_def)
  from v show ?thesis
  proof (cases rule: begin_locked_create [where E = E and d = d and raw = raw])
    case (same r)
    with locked assms show ?thesis by simp
  next
    case create
    have "entries_ok dec (snd (begin_create E d b m raw (uploadDir (rbID b) (mfUploadID m))))"
      by (rule entries_ok_add [OF assms(1) adds_begin_create [OF v] e])
    with locked create show ?thesis by simp
  qed
qed

lemma accepted_shape: "accepted r u m \<Longrightarrow> chunk_shape m"
  by (auto simp: accepted_def validateBundle_ok intro: valid_manifest_shape)

lemma readManifest_Inr:
  assumes "readManifest E d r u = Inr (m, raw)"
  obtains c where "ValidID r" and "ValidID u" and "get d (manifestPath r u) = Some (File c)"
    and "raw = content_bytes E c" and "envManifest E raw = Some m"
  using assms by (auto simp: readManifest_def os_read_file_def split: ok_split os_error.splits node.splits)

lemma readManifest_accepted:
  assumes "readManifest E d r u = Inr (m, raw)" and "entries_ok dec d" and "envManifest E = dec"
  shows "ValidID r" and "ValidID u" and "accepted r u m"
    and "get d (manifestPath r u) = Some (File (Raw raw))"
proof -
  obtain c where c: "ValidID r" "ValidID u" "get d (manifestPath r u) = Some (File c)"
      "raw = content_bytes E c" "envManifest E raw = Some m"
    using readManifest_Inr [OF assms(1)] by metis
  then have "manifest_entry dec r u (File c)"
    using assms(2) by (metis entries_ok_def entry_ok_upload_files(1))
  with c assms(3) show "ValidID r" "ValidID u" "accepted r u m"
      "get d (manifestPath r u) = Some (File (Raw raw))"
    by (auto simp: manifest_entry_def)
qed

lemma entries_ok_PutChunk:
  assumes "entries_ok dec d"
  shows "entries_ok dec (snd (PutChunk E d r u i bd len))"
proof (cases rule: PutChunk_cases [of E d r u i bd len])
  case (new m raw bytes)
  have "ValidID r" "ValidID u" using new(2) by (auto elim: readManifest_Inr)
  then have "entry_ok dec (chunkPath r u i) (File (Raw bytes))" by (simp add: entry_ok_upload_files)
  from entries_ok_add [OF assms adds_put [of "entry_ok dec", OF this]] new(1) show ?thesis by simp
qed (use assms in simp)

lemma complete_receipt_fits:
  assumes "readManifest E d r u = Inr (m, raw)" and "entries_ok dec d" and "envManifest E = dec"
    and "complete_chunks E d r u m (chunk_indices m) ([], 0) = Inr (ds, n)"
  shows "receipt_fits r u (complete_receipt E r u m raw ds n)"
proof -
  have m: "chunk_shape m" using readManifest_accepted(3) [OF assms(1-3)] by (rule accepted_shape)
  then have "0 \<le> mfPlainSize m" "mfPlainSize m \<le> 2 ^ 50" "1 \<le> mfChunkCount m" "mfChunkCount m < 2 ^ 32 - 1"
    unfolding chunk_shape_def by blast+
  then show ?thesis using complete_cipher_bytes [OF assms(4) m]
    by (simp add: receipt_fits_def complete_receipt_def)
qed

lemma entries_ok_Complete:
  assumes "entries_ok dec d" and "envManifest E = dec"
  shows "entries_ok dec (snd (Complete E d r u))"
proof (cases rule: Complete_cases [of E d r u])
  case (writes m raw n)
  note v = readManifest_accepted(1,2) [OF writes(3) assms]
  let ?rc = "complete_receipt E r u m raw (chunk_digests E d r u (chunk_indices m)) n"
  have "receipt_fits r u ?rc" by (rule complete_receipt_fits [OF writes(3) assms writes(6)])
  then have e: "entry_ok dec (completePath r u) (File (JReceipt ?rc))"
    using v by (simp add: entry_ok_upload_files receipt_entry_def)
  show ?thesis
  proof (cases rule: write_receipt_cases [of E d r u ?rc])
    case (same e)
    with writes(1) assms(1) show ?thesis by simp
  next
    case (new e')
    with writes(1) entries_ok_add [OF assms(1) adds_put [of "entry_ok dec", OF e]] show ?thesis by simp
  qed
qed (use assms in simp_all)

lemma entries_ok_Acknowledge:
  assumes "entries_ok dec d"
  shows "entries_ok dec (snd (Acknowledge E d b u))"
proof (cases "is_ok (validateBundle b) \<and> ValidID u")
  case False
  with assms show ?thesis by (auto simp: Acknowledge_def)
next
  case True
  then have v: "ValidID (rbID b)" "ValidID u" by (auto simp: is_ok_iff validateBundle_ok)
  have w: "adds (entry_ok dec) d d1" if "writeNew E d (ackPath (rbID b) u) c = (x, d1)" for c x d1
    using adds_writeNew [of "entry_ok dec" "ackPath (rbID b) u" c d E] entry_ok_upload_files(4) [OF v] that by simp
  have r: "adds (entry_ok dec) d (snd (os_remove_all E d p))" for d p
    by (rule adds_shrinks [OF shrinks_remove_all])
  have "adds (entry_ok dec) d (snd (Acknowledge E d b u))"
    unfolding Acknowledge_def
    by (auto simp: add.refl split: sum.splits prod.splits dest!: w intro: add.trans [OF _ r])
  then show ?thesis by (rule entries_ok_add [OF assms]) simp
qed

lemma entries_ok_Purge: "entries_ok dec d \<Longrightarrow> entries_ok dec (snd (Purge E d a stale))"
  by (rule entries_ok_add [OF _ adds_shrinks [OF shrinks_Purge, where P = "\<lambda>_ _. False"]]) simp_all

section \<open>The entries form a tree\<close>

definition treed :: "unit \<Rightarrow> disk \<Rightarrow> disk \<Rightarrow> bool" where
  "treed x d d' \<longleftrightarrow> (files.tree d \<longrightarrow> files.tree d')"

interpretation treed: frame treed
  by unfold_locales (simp_all add: treed_def)

lemma treed_mkdir: "treed x d (snd (os_mkdir E d p))"
  by (auto simp: treed_def os_mkdir_def intro!: files.tree_upd)

lemma treed_writeNew: "treed x d (snd (writeNew E d p c))"
  by (cases rule: writeNew_cases [of E d p c]) (auto simp: treed_def intro!: files.tree_upd)

lemma treed_put_file: "get d p = None \<Longrightarrow> get d (butlast p) = Some Dir \<Longrightarrow> treed x d (put d p n)"
  by (auto simp: treed_def intro!: files.tree_upd)

lemma tree_mkdir_each:
  assumes "files.tree d" and "p = [] \<or> get d (butlast p) = Some Dir"
  shows "files.tree (snd (mkdir_each E d (map ((@) p) (prefixes xs))))"
  using assms
proof (induction xs arbitrary: p d)
  case Nil
  then show ?case by (auto split: option.split node.split intro!: files.tree_upd)
next
  case (Cons x xs)
  have m: "map ((@) p) (prefixes (x # xs)) = p # map (\<lambda>a. p @ x # a) (prefixes xs)" by simp
  have "files.tree (put d p Dir)" if "get d p = None" using Cons.prems that by (auto intro!: files.tree_upd)
  then show ?case
    unfolding m mkdir_each.simps using Cons.prems Cons.IH [of d "p @ [x]"] Cons.IH [of "put d p Dir" "p @ [x]"]
    by (simp split: option.split node.split)
qed

lemma treed_mkdir_all: "treed x d (snd (os_mkdir_all E d p))"
  using tree_mkdir_each [of d "[]" E p] by (simp add: treed_def os_mkdir_all_def map_idI)

lemma stuck_prefix: "stuck E d q \<Longrightarrow> prefix p q \<Longrightarrow> stuck E d p"
  by (auto simp: stuck_def list_ex_iff intro: prefix_order.order_trans)

lemma prefix_butlast: "prefix (butlast q) q"
  by (metis append_butlast_last_id butlast.simps(1) prefixI prefix_order.order_refl)

lemma treed_remove_all: "treed x d (snd (os_remove_all E d p))"
proof -
  have k: "prefix p q \<and> \<not> stuck E d q" if "prefix p (butlast q) \<and> \<not> stuck E d (butlast q)" for q
    using that prefix_butlast stuck_prefix prefix_order.order_trans by blast
  have "files.tree (del d (\<lambda>q. prefix p q \<and> \<not> stuck E d q))" if "files.tree d"
    by (rule files.tree_rem [OF that]) (rule k)
  then show ?thesis by (simp add: treed_def os_remove_all_def Let_def)
qed

lemma tree_rename:
  assumes "files.tree d" and "get d p \<noteq> Some Dir" and "get d q \<noteq> Some Dir"
  shows "files.tree (snd (os_rename E d p q))"
proof -
  have r: "files.tree (del d (\<lambda>r. r = p))"
    using assms(1,2) by (intro files.tree_rem) (auto simp: files.tree_def)
  have "files.tree (put (del d (\<lambda>r. r = p)) q n)" if "get d (butlast q) = Some Dir" for n
    using assms(2,3) that by (intro files.tree_upd [OF r]) (auto split: if_splits)
  then show ?thesis using assms(1) by (auto simp: os_rename_def split: option.split)
qed

end
