(* ===== verification/StoreSystem.thy ===== *)
theory StoreSystem
  imports StoreInv
begin

text \<open>
  The store as a system of steps. A caller first authenticates, which reads a bundle, and later acts
  with it, so the bundles that callers hold are part of the state and other steps may come between.
\<close>

section \<open>The tree is kept\<close>

lemma tree_Init: "files.tree d \<Longrightarrow> files.tree (snd (Init E d))"
proof -
  have m: "treed () d (snd (mkdir_dirs E ps d))" for ps d
    by (induction ps arbitrary: d) (auto simp: treed.refl intro!: treed.and_then treed_mkdir_all)
  have "treed () d (snd (Init E d))"
    unfolding Init_def
    by (rule treed.and_then [OF m]) (auto simp: treed.refl treed_writeNew split: sum.splits os_error.splits)
  then show "files.tree d \<Longrightarrow> files.tree (snd (Init E d))" by (simp add: treed_def)
qed

lemma tree_ImportRequest: "files.tree d \<Longrightarrow> files.tree (snd (ImportRequest E d b))"
proof -
  have w: "treed () d (snd (case writeNew E d (requestPath (rbID b)) (JBundle b) of
              (Inl Exist, d) \<Rightarrow> (Inl (ErrConflict []), d) | r \<Rightarrow> os_err r))" for d
    using treed_writeNew [of "()" d E "requestPath (rbID b)" "JBundle b"]
    by (auto split: ok_split os_error.splits)
  have i: "treed () d (snd (Init E d))" for d using tree_Init by (simp add: treed_def)
  have "treed () d (snd (ImportRequest E d b))"
    unfolding ImportRequest_def
    by (auto simp: treed.refl split: sum.splits intro!: treed.and_then i w)
  then show "files.tree d \<Longrightarrow> files.tree (snd (ImportRequest E d b))" by (simp add: treed_def)
qed

lemma bundle_files:
  assumes "entries_ok dec d" and "ValidID i" and "get d (requestPath i) = Some n \<or> get d (closedRequestPath i) = Some n"
  shows "bundle_entry i n"
  using assms entry_ok_bundle [OF assms(2)] unfolding entries_ok_def by blast

lemma tree_move_closed:
  assumes "entries_ok dec d" and "ValidID i" and "files.tree d"
  shows "files.tree (snd (move_closed E d i))"
proof -
  have "get d (requestPath i) \<noteq> Some Dir" "get d (closedRequestPath i) \<noteq> Some Dir"
    using bundle_files [OF assms(1,2), of Dir] by (auto simp: bundle_entry_def)
  then have "treed () d (snd (os_rename E d (requestPath i) (closedRequestPath i)))"
    using tree_rename by (simp add: treed_def)
  then have "treed () d (snd (move_closed E d i))"
    unfolding move_closed_def by (intro treed.and_then) (auto simp: treed.refl)
  with assms show ?thesis by (simp add: treed_def)
qed

lemma snd_ensure_closure:
  "snd (ensure_closure E d i r) = d \<or> (\<exists>c. snd (ensure_closure E d i r) = snd (writeNew E d (closurePath i) c))"
  by (auto simp: ensure_closure_def Let_def split: sum.splits prod.splits err.splits os_error.splits)
    (metis snd_conv)+

text \<open>The outcomes of the locked part of closing a request.\<close>

lemma close_locked_cases:
  obtains (same) e where "close_locked E d i = (Inl e, d)"
  | (closure_failed) e d1 where "ensure_closure E d i (readClosure E d i) = (Inl e, d1)"
      and "close_locked E d i = (Inl e, d1)"
  | (closed_before) c d1 where "ensure_closure E d i (readClosure E d i) = (Inr c, d1)"
      and "close_locked E d i = (Inr c, d1)" and "get d (requestPath i) = None"
      and "get d (closedRequestPath i) \<noteq> None"
  | (move) c d1 where "ensure_closure E d i (readClosure E d i) = (Inr c, d1)"
      and "close_locked E d i = and_then (move_closed E d1 i) (\<lambda>_ d. (Inr c, d))"
      and "get d (requestPath i) \<noteq> None" and "get d (closedRequestPath i) = None"
proof -
  let ?r = "close_locked E d i" and ?e = "ensure_closure E d i (readClosure E d i)"
  have a: "get d p \<noteq> None" if "is_ok (os_stat E d p)" for p
    using that by (auto simp: os_stat_def split: if_splits option.splits)
  have b: "get d p = None" if "hard_error (os_stat E d p) = None" "\<not> is_ok (os_stat E d p)" for p
    using that by (auto simp: os_stat_def hard_error_def split: if_splits option.splits)
  let ?active = "is_ok (os_stat E d (requestPath i))"
  let ?next = "\<lambda>c d'. if ?active then and_then (move_closed E d' i) (\<lambda>_ d. (Inr c, d)) else (Inr c, d')"
  have "(\<exists>x. ?r = (Inl x, d)) \<or> ?r = and_then ?e ?next \<and> ?active \<noteq> is_ok (os_stat E d (closedRequestPath i))
      \<and> hard_error (os_stat E d (requestPath i)) = None \<and> hard_error (os_stat E d (closedRequestPath i)) = None"
    unfolding close_locked_def Let_def by (cases "readClosure E d i") (auto split: option.splits if_splits)
  then show thesis
  proof (elim disjE conjE)
    assume "\<exists>x. ?r = (Inl x, d)"
    then show thesis using same by blast
  next
    assume r: "?r = and_then ?e ?next" and ne: "?active \<noteq> is_ok (os_stat E d (closedRequestPath i))"
      and h: "hard_error (os_stat E d (requestPath i)) = None" "hard_error (os_stat E d (closedRequestPath i)) = None"
    obtain x d1 where e: "?e = (x, d1)" by fastforce
    show thesis
    proof (cases x)
      case (Inl y)
      with e r show thesis by (intro closure_failed) (auto simp: and_then_def)
    next
      case (Inr c)
      note ex = e [unfolded Inr]
      show thesis
      proof (cases ?active)
        case True
        with ne have "get d (closedRequestPath i) = None" using b [OF h(2)] by simp
        with True ex r a show thesis by (intro move [OF ex]) (auto simp: and_then_def)
      next
        case False
        with ne have "get d (closedRequestPath i) \<noteq> None" using a by simp
        with False ex r b [OF h(1)] show thesis by (intro closed_before [OF ex]) (auto simp: and_then_def)
      qed
    qed
  qed
qed

lemma tree_ensure_closure: "files.tree d \<Longrightarrow> files.tree (snd (ensure_closure E d i r))"
  using snd_ensure_closure [of E d i r] treed_writeNew [of "()" d E "closurePath i"]
  by (metis treed_def)

lemma tree_CloseRequest:
  assumes "entries_ok dec d" and "files.tree d" and "\<not> is_zero_time (envNow E)"
  shows "files.tree (snd (CloseRequest E d i))"
proof (cases "ValidID i")
  case True
  have "files.tree (snd (close_locked E d i))" if "entries_ok dec d" "files.tree d" for d
  proof (cases rule: close_locked_cases [of E d i])
    case (same r)
    with that show ?thesis by simp
  next
    case (closure_failed e d1)
    with that tree_ensure_closure [of d E i "readClosure E d i"] show ?thesis by simp
  next
    case (closed_before c d1)
    with that tree_ensure_closure [of d E i "readClosure E d i"] show ?thesis by simp
  next
    case (move c d1)
    have "entries_ok dec d1"
      using entries_ok_add [OF that(1) adds_ensure_closure [OF True assms(3), where r = "readClosure E d i"]] move by simp
    moreover have "files.tree d1" using tree_ensure_closure [OF that(2), of E i "readClosure E d i"] move by simp
    ultimately have "files.tree (snd (move_closed E d1 i))" by (rule tree_move_closed [OF _ True])
    with move show ?thesis by (auto simp: snd_and_then split: sum.splits)
  qed
  with True assms entries_ok_Init [of dec d E] tree_Init [of d E] show ?thesis
    by (auto simp: CloseRequest_def snd_and_then split: sum.splits)
qed (use assms in \<open>simp add: CloseRequest_def\<close>)

lemma tree_begin_create:
  "files.tree d \<Longrightarrow> files.tree (snd (begin_create E d b m raw dir))"
proof -
  have "treed () d (snd (begin_files E d b m raw))" for d
    unfolding begin_files_def by (auto intro!: treed.and_then treed_mkdir treed_writeNew)
  then have "treed () d (snd (begin_create E d b m raw dir))"
    by (intro treed.begin_create treed_mkdir_all treed_mkdir treed_remove_all)
  then show "files.tree d \<Longrightarrow> files.tree (snd (begin_create E d b m raw dir))" by (simp add: treed_def)
qed

lemma tree_BeginUpload: "files.tree d \<Longrightarrow> files.tree (snd (BeginUpload E d b raw))"
proof (cases rule: BeginUpload_locked [of E d b raw])
  case (locked m)
  then have "ValidID (rbID b)" "ValidID (mfUploadID m)" by (simp_all add: validateBundle_ok validateManifest_ok)
  then show "files.tree d \<Longrightarrow> files.tree (snd (BeginUpload E d b raw))"
    by (cases rule: begin_locked_create [where E = E and d = d and raw = raw])
      (use locked tree_begin_create in auto)
qed simp

lemma tree_PutChunk: "files.tree d \<Longrightarrow> files.tree (snd (PutChunk E d r u i bd len))"
  by (cases rule: PutChunk_cases [of E d r u i bd len])
    (use treed_put_file in \<open>auto simp: treed_def\<close>)

lemma tree_Complete: "files.tree d \<Longrightarrow> files.tree (snd (Complete E d r u))"
proof -
  have "files.tree (snd (write_receipt E d r u rc))" if "files.tree d" for rc
    using treed_writeNew [of "()" d E "completePath r u" "JReceipt rc"] that
    by (auto simp: write_receipt_def treed_def split: prod.splits sum.splits os_error.splits)
  then show "files.tree d \<Longrightarrow> files.tree (snd (Complete E d r u))"
    by (cases rule: Complete_cases [of E d r u]) simp_all
qed

lemma tree_Acknowledge: "files.tree d \<Longrightarrow> files.tree (snd (Acknowledge E d b u))"
proof -
  have w: "treed () d d1" if "writeNew E d p c = (x, d1)" for p c x d1
    using treed_writeNew [of "()" d E p c] that by simp
  have "treed () d (snd (Acknowledge E d b u))"
    unfolding Acknowledge_def
    by (auto simp: treed.refl split: sum.splits prod.splits dest!: w intro: treed.trans [OF _ treed_remove_all])
  then show "files.tree d \<Longrightarrow> files.tree (snd (Acknowledge E d b u))" by (simp add: treed_def)
qed

lemma tree_Purge: "files.tree d \<Longrightarrow> files.tree (snd (Purge E d a stale))"
proof -
  have "files.tree d \<Longrightarrow> files.tree (snd (purge_each E a stale us res d))" for us res
  proof (induction E a stale us res d rule: purge_each.induct)
    case (2 E a stale r u us res d)
    have "files.tree (snd (os_remove_all E d (uploadDir r u)))"
      using treed_remove_all [of "()" d E] 2 by (simp add: treed_def)
    with 2 show ?case by (auto simp: Let_def split: sum.splits prod.splits)
  qed simp
  then show "files.tree d \<Longrightarrow> files.tree (snd (Purge E d a stale))"
    by (auto simp: Purge_def Let_def split: sum.splits os_error.splits)
qed

section \<open>Closures are final\<close>

text \<open>
  From one disk to a later one: a closure record stays as it is, an active bundle stays unless its
  request has a closure record, and a bundle moves to the closed requests only behind such a record.
\<close>

definition closing_safe :: "disk \<Rightarrow> disk \<Rightarrow> bool" where
  "closing_safe d d' \<longleftrightarrow> (\<forall>i. ValidID i \<longrightarrow>
     (get d (closurePath i) \<noteq> None \<longrightarrow> get d' (closurePath i) = get d (closurePath i))
     \<and> (get d (requestPath i) \<noteq> None \<longrightarrow> get d' (requestPath i) = get d (requestPath i)
          \<or> get d' (closurePath i) \<noteq> None)
     \<and> (get d' (closedRequestPath i) \<noteq> get d (closedRequestPath i) \<longrightarrow> get d' (closurePath i) \<noteq> None))"

lemma closing_safe_refl: "closing_safe d d"
  by (simp add: closing_safe_def)

lemma closing_safe_trans:
  assumes "closing_safe d1 d2" and "closing_safe d2 d3"
  shows "closing_safe d1 d3"
  unfolding closing_safe_def
proof (intro allI impI)
  fix i assume "ValidID i"
  then have s: "get d1 (closurePath i) \<noteq> None \<longrightarrow> get d2 (closurePath i) = get d1 (closurePath i)"
    "get d2 (closurePath i) \<noteq> None \<longrightarrow> get d3 (closurePath i) = get d2 (closurePath i)"
    "get d1 (requestPath i) \<noteq> None \<longrightarrow> get d2 (requestPath i) = get d1 (requestPath i) \<or> get d2 (closurePath i) \<noteq> None"
    "get d2 (requestPath i) \<noteq> None \<longrightarrow> get d3 (requestPath i) = get d2 (requestPath i) \<or> get d3 (closurePath i) \<noteq> None"
    "get d2 (closedRequestPath i) \<noteq> get d1 (closedRequestPath i) \<longrightarrow> get d2 (closurePath i) \<noteq> None"
    "get d3 (closedRequestPath i) \<noteq> get d2 (closedRequestPath i) \<longrightarrow> get d3 (closurePath i) \<noteq> None"
    using assms by (simp_all add: closing_safe_def)
  show "(get d1 (closurePath i) \<noteq> None \<longrightarrow> get d3 (closurePath i) = get d1 (closurePath i))
     \<and> (get d1 (requestPath i) \<noteq> None \<longrightarrow> get d3 (requestPath i) = get d1 (requestPath i)
          \<or> get d3 (closurePath i) \<noteq> None)
     \<and> (get d3 (closedRequestPath i) \<noteq> get d1 (closedRequestPath i) \<longrightarrow> get d3 (closurePath i) \<noteq> None)"
    using s by (intro conjI impI) metis+
qed

lemma closing_safe_grows:
  assumes "grows S d d'" and "\<And>i. ValidID i \<Longrightarrow> closedRequestPath i \<notin> S"
  shows "closing_safe d d'"
  using assms unfolding closing_safe_def grows_def by metis

lemma closing_safe_changes:
  assumes "changes S d d'"
    and "\<And>i. ValidID i \<Longrightarrow> closedRequestPath i \<notin> S \<and> requestPath i \<notin> S \<and> closurePath i \<notin> S"
  shows "closing_safe d d'"
  using assms unfolding closing_safe_def changes_def by metis

text \<open>The request files are not among the paths of uploads or of the top level.\<close>

lemma request_paths_apart:
  assumes "ValidID i"
  shows "requestPath i \<notin> init_paths" "closedRequestPath i \<notin> init_paths" "closurePath i \<notin> init_paths"
    "closedRequestPath i \<noteq> requestPath j" "closurePath i \<noteq> requestPath j" "requestPath i \<noteq> closedRequestPath j"
    "requestPath i \<noteq> closurePath j"
  using assms by (auto simp: init_paths_def top_paths request_file_defs)

lemma upload_paths_apart:
  assumes "ValidID i" "ValidID r" "ValidID u"
  shows "requestPath i \<notin> upload_parents r \<union> upload_paths r u"
    "closedRequestPath i \<notin> upload_parents r \<union> upload_paths r u"
    "closurePath i \<notin> upload_parents r \<union> upload_paths r u"
  using assms by (auto simp: upload_parents_def upload_paths_def uploadDir_valid requestUploadDir_valid
      request_paths uploadsDir_def)

lemma closure_bundle_apart: "ValidID i \<Longrightarrow> ValidID j \<Longrightarrow> closedRequestPath i \<noteq> closurePath j"
  by (auto simp: request_paths)

lemma safe_Init: "closing_safe d (snd (Init E d))"
  by (rule closing_safe_grows [OF grows_Init]) (simp add: request_paths_apart)

lemma safe_ImportRequest: "closing_safe d (snd (ImportRequest E d b))"
  by (rule closing_safe_grows [OF grows_ImportRequest]) (simp add: request_paths_apart)

lemma ensure_closure_present:
  assumes "ensure_closure E d i (readClosure E d i) = (Inr c, d')"
  shows "get d' (closurePath i) \<noteq> None"
proof -
  have r: "get d (closurePath i) \<noteq> None" if "readClosure E d i = Inr c'" for d c'
    using that by (auto simp: readClosure_def os_read_file_def split: sum.splits if_splits option.splits os_error.splits)
  show ?thesis
  proof (cases "readClosure E d i")
    case (Inr c')
    with assms r show ?thesis by (auto simp: ensure_closure_def)
  next
    case (Inl e)
    with assms r show ?thesis
      by (auto simp: ensure_closure_def Let_def dest: writeNew_ok split: err.splits prod.splits sum.splits os_error.splits)
  qed
qed

lemma safe_CloseRequest: "closing_safe d (snd (CloseRequest E d i))"
proof (cases "ValidID i")
  case True
  have e: "closing_safe d (snd (ensure_closure E d i r))" for d r
    by (rule closing_safe_grows [OF grows_ensure_closure]) (use True closure_bundle_apart in auto)
  have "closing_safe d (snd (close_locked E d i))" for d
  proof (cases rule: close_locked_cases [of E d i])
    case (same r)
    then show ?thesis by (simp add: closing_safe_refl)
  next
    case (closure_failed x d1)
    with e [of d "readClosure E d i"] show ?thesis by simp
  next
    case (closed_before c d1)
    with e [of d "readClosure E d i"] show ?thesis by simp
  next
    case (move c d1)
    have c: "get d1 (closurePath i) \<noteq> None" by (rule ensure_closure_present [OF move(1)])
    have m: "changes {requestPath i, closedRequestPath i} d1 (snd (move_closed E d1 i))"
      by (rule changes_move_closed)
    have "get (snd (move_closed E d1 i)) (closurePath i) = get d1 (closurePath i)"
      using True closure_bundle_apart [of i i] request_paths_apart(5) [of i i]
      by (intro changes_other [OF m]) auto
    then have "closing_safe d1 (snd (move_closed E d1 i))"
      unfolding closing_safe_def
    proof (intro allI impI, goal_cases)
      case (1 j)
      show ?case
      proof (cases "j = i")
        case True
        with 1 c show ?thesis by simp
      next
        case False
        then have "requestPath j \<noteq> requestPath i" "closedRequestPath j \<noteq> closedRequestPath i"
          using 1 True by (auto simp: request_paths)
        then show ?thesis
          using 1 True closure_bundle_apart [of i j] request_paths_apart [of j]
          by (simp add: changes_other [OF m])
      qed
    qed
    then have "closing_safe d1 (snd (and_then (move_closed E d1 i) (\<lambda>_ d. (Inr c, d))))"
      by (auto simp: snd_and_then split: sum.splits)
    moreover have "closing_safe d d1" using e [of d "readClosure E d i"] move by simp
    ultimately show ?thesis using move closing_safe_trans by simp
  qed
  then show ?thesis
    using True safe_Init [of d E] closing_safe_trans
    by (auto simp: CloseRequest_def snd_and_then split: sum.splits)
qed (simp add: CloseRequest_def closing_safe_refl)

lemma safe_uploads:
  assumes "changes (upload_parents r \<union> upload_paths r u) d d'" and "ValidID r" and "ValidID u"
  shows "closing_safe d d'"
  using closing_safe_changes [OF assms(1)] upload_paths_apart assms(2,3) by blast

lemma safe_BeginUpload: "closing_safe d (snd (BeginUpload E d b raw))"
proof (cases rule: BeginUpload_locked [of E d b raw])
  case same
  then show ?thesis by (simp add: closing_safe_refl)
next
  case (locked m)
  then have "ValidID (rbID b)" "ValidID (mfUploadID m)" by (simp_all add: validateBundle_ok validateManifest_ok)
  then show ?thesis by (rule safe_uploads [OF changes_BeginUpload [OF locked(1)]])
qed

lemma safe_PutChunk: "closing_safe d (snd (PutChunk E d r u i bd len))"
proof (cases rule: PutChunk_cases [of E d r u i bd len])
  case (same e)
  then show ?thesis by (simp add: closing_safe_refl)
next
  case (new m raw bytes)
  have v: "ValidID r" "ValidID u" using new(2) by (auto elim: readManifest_Inr)
  show ?thesis
    by (rule safe_uploads [OF grows_changes [OF grow.mono [OF grows_PutChunk]] v])
      (simp add: upload_paths_files)
qed

lemma safe_Complete: "closing_safe d (snd (Complete E d r u))"
proof (cases rule: Complete_cases [of E d r u])
  case (writes m raw n)
  have v: "ValidID r" "ValidID u" using writes(3) by (auto elim: readManifest_Inr)
  show ?thesis
    by (rule safe_uploads [OF grows_changes [OF grow.mono [OF grows_Complete]] v])
      (simp add: upload_paths_files)
qed (simp_all add: closing_safe_refl)

lemma safe_Acknowledge: "closing_safe d (snd (Acknowledge E d b u))"
proof (cases "is_ok (validateBundle b) \<and> ValidID u")
  case True
  then have v: "ValidID (rbID b)" "ValidID u" by (auto simp: is_ok_iff validateBundle_ok)
  show ?thesis by (rule safe_uploads [OF change.mono [OF changes_Acknowledge] v]) simp
qed (auto simp: Acknowledge_def closing_safe_refl)

lemma safe_Purge: "closing_safe d (snd (Purge E d a stale))"
  by (rule closing_safe_changes [OF shrinks_changes [OF shrinks_Purge]])
    (use upload_paths_apart in \<open>auto simp: valid_upload_paths_def\<close>)

end
