(* ===== verification/StoreRuns.thy ===== *)
theory StoreRuns
  imports StoreSystem
begin

text \<open>
  Runs of the store: every operation in any order, with any faults the environment allows, and with
  bundles that callers read earlier. The invariants of the system and the quota over whole runs.
\<close>

section \<open>Steps\<close>

record system =
  sysDisk :: disk
  sysHeld :: "RequestBundle set"

inductive store_step :: "(env \<Rightarrow> bool) \<Rightarrow> system \<Rightarrow> system \<Rightarrow> bool" for P where
  init: "P E \<Longrightarrow> store_step P s (s\<lparr>sysDisk := snd (Init E (sysDisk s))\<rparr>)"
| import_request: "P E \<Longrightarrow> store_step P s (s\<lparr>sysDisk := snd (ImportRequest E (sysDisk s) b)\<rparr>)"
| close_request: "P E \<Longrightarrow> store_step P s (s\<lparr>sysDisk := snd (CloseRequest E (sysDisk s) i)\<rparr>)"
| authenticate: "P E \<Longrightarrow> Authenticate E (sysDisk s) i token kind = Some b
    \<Longrightarrow> store_step P s (s\<lparr>sysHeld := insert b (sysHeld s)\<rparr>)"
| begin_upload: "P E \<Longrightarrow> b \<in> sysHeld s \<Longrightarrow> store_step P s (s\<lparr>sysDisk := snd (BeginUpload E (sysDisk s) b raw)\<rparr>)"
| put_chunk: "P E \<Longrightarrow> store_step P s (s\<lparr>sysDisk := snd (PutChunk E (sysDisk s) r u i bd len)\<rparr>)"
| complete: "P E \<Longrightarrow> store_step P s (s\<lparr>sysDisk := snd (Complete E (sysDisk s) r u)\<rparr>)"
| acknowledge: "P E \<Longrightarrow> b \<in> sysHeld s \<Longrightarrow> store_step P s (s\<lparr>sysDisk := snd (Acknowledge E (sysDisk s) b u)\<rparr>)"
| purge: "P E \<Longrightarrow> store_step P s (s\<lparr>sysDisk := snd (Purge E (sysDisk s) apply_it stale)\<rparr>)"

definition empty_system :: system where
  "empty_system = \<lparr>sysDisk = [], sysHeld = {}\<rparr>"

text \<open>The decoder of manifests is one function and the clock never shows Go's zero time.\<close>

definition sane :: "(string \<Rightarrow> Manifest option) \<Rightarrow> env \<Rightarrow> bool" where
  "sane dec E \<longleftrightarrow> envManifest E = dec \<and> \<not> is_zero_time (envNow E)"

lemma step_disk_safe:
  assumes "store_step P s t"
  shows "closing_safe (sysDisk s) (sysDisk t)"
  using assms
  by cases (simp_all add: closing_safe_refl safe_Init safe_ImportRequest safe_CloseRequest
      safe_BeginUpload safe_PutChunk safe_Complete safe_Acknowledge safe_Purge)

lemma step_entries:
  assumes "store_step (sane dec) s t" and "entries_ok dec (sysDisk s)"
  shows "entries_ok dec (sysDisk t)"
  using assms
  by cases (simp_all add: sane_def entries_ok_Init entries_ok_ImportRequest entries_ok_CloseRequest
      entries_ok_BeginUpload entries_ok_PutChunk entries_ok_Complete entries_ok_Acknowledge entries_ok_Purge)

lemma step_tree:
  assumes "store_step (sane dec) s t" and "entries_ok dec (sysDisk s)" and "files.tree (sysDisk s)"
  shows "files.tree (sysDisk t)"
  using assms
  by cases (simp_all add: sane_def tree_Init tree_ImportRequest tree_CloseRequest tree_BeginUpload
      tree_PutChunk tree_Complete tree_Acknowledge tree_Purge)

section \<open>The invariant of the system\<close>

definition closed_marked :: "disk \<Rightarrow> bool" where
  "closed_marked d \<longleftrightarrow> (\<forall>i. ValidID i \<longrightarrow> get d (closedRequestPath i) \<noteq> None \<longrightarrow> get d (closurePath i) \<noteq> None)"

text \<open>A bundle a caller holds is the active one of its request, or the request has been closed.\<close>

definition held_ok :: "disk \<Rightarrow> RequestBundle \<Rightarrow> bool" where
  "held_ok d b \<longleftrightarrow> validateBundle b = Inr ()
     \<and> (get d (requestPath (rbID b)) = Some (File (JBundle b)) \<or> get d (closurePath (rbID b)) \<noteq> None)"

definition store_inv :: "(string \<Rightarrow> Manifest option) \<Rightarrow> system \<Rightarrow> bool" where
  "store_inv dec s \<longleftrightarrow> entries_ok dec (sysDisk s) \<and> files.tree (sysDisk s) \<and> closed_marked (sysDisk s)
     \<and> (\<forall>b \<in> sysHeld s. held_ok (sysDisk s) b)"

lemma held_ok_safe:
  assumes "held_ok d b" and "closing_safe d d'"
  shows "held_ok d' b"
proof -
  have "ValidID (rbID b)" using assms(1) by (simp add: held_ok_def validateBundle_ok)
  then have "get d (closurePath (rbID b)) \<noteq> None \<longrightarrow> get d' (closurePath (rbID b)) = get d (closurePath (rbID b))"
    "get d (requestPath (rbID b)) \<noteq> None \<longrightarrow> get d' (requestPath (rbID b)) = get d (requestPath (rbID b))
       \<or> get d' (closurePath (rbID b)) \<noteq> None"
    using assms(2) unfolding closing_safe_def by blast+
  then show ?thesis using assms(1) unfolding held_ok_def by auto
qed

lemma closed_marked_safe: "closed_marked d \<Longrightarrow> closing_safe d d' \<Longrightarrow> closed_marked d'"
  unfolding closed_marked_def closing_safe_def by metis

lemma readRequestPath_Inr: "readRequestPath E d i p = Inr b \<Longrightarrow> get d p = Some (File (JBundle b)) \<and> ValidID i"
  by (auto simp: readRequestPath_def os_read_file_def
      split: if_splits sum.splits option.splits node.splits os_error.splits content.splits)

lemma RequestIncludingClosed_Inr:
  assumes "RequestIncludingClosed E d i = Inr b"
  shows "ValidID i \<and> (get d (requestPath i) = Some (File (JBundle b))
    \<or> get d (closedRequestPath i) = Some (File (JBundle b)))"
proof (cases "Request E d i")
  case (Inr b')
  with assms show ?thesis
    using readRequestPath_Inr by (auto simp: RequestIncludingClosed_def Request_def)
next
  case (Inl e)
  then have "readRequestPath E d i (closedRequestPath i) = Inr b"
    using assms by (auto simp: RequestIncludingClosed_def split: err.splits)
  then show ?thesis using readRequestPath_Inr by blast
qed

lemma Authenticate_Some:
  assumes "Authenticate E d i token kind = Some b"
  shows "RequestIncludingClosed E d i = Inr b" and "token \<noteq> []"
    and "hex_decode (if kind = ''collect'' then rbCollectTokenHash b else rbSubmitTokenHash b) = Some (sha256 token)"
  using assms by (auto simp: Authenticate_def split: sum.splits if_splits option.splits)

lemma Authenticate_held:
  assumes "Authenticate E d i token kind = Some b" and "entries_ok dec d" and "closed_marked d"
  shows "held_ok d b"
proof -
  have v: "ValidID i" and g: "get d (requestPath i) = Some (File (JBundle b))
      \<or> get d (closedRequestPath i) = Some (File (JBundle b))"
    using RequestIncludingClosed_Inr [OF Authenticate_Some(1) [OF assms(1)]] by auto
  then have "bundle_entry i (File (JBundle b))" using bundle_files [OF assms(2) v] by blast
  then have "validateBundle b = Inr ()" "rbID b = i" by (auto simp: bundle_entry_def)
  then show ?thesis using g v assms(3) by (auto simp: held_ok_def closed_marked_def)
qed

lemma step_held:
  assumes "store_step P s t" and "b \<in> sysHeld t"
  shows "b \<in> sysHeld s \<or> sysDisk t = sysDisk s
    \<and> (\<exists>E i token kind. Authenticate E (sysDisk s) i token kind = Some b)"
  using assms by cases auto

lemma step_inv:
  assumes "store_step (sane dec) s t" and "store_inv dec s"
  shows "store_inv dec t"
proof -
  note safe = step_disk_safe [OF assms(1)]
  have i: "entries_ok dec (sysDisk s)" "files.tree (sysDisk s)" "closed_marked (sysDisk s)"
    using assms(2) by (simp_all add: store_inv_def)
  have "held_ok (sysDisk t) b" if b: "b \<in> sysHeld t" for b
    using step_held [OF assms(1) b]
  proof (elim disjE conjE exE)
    assume "b \<in> sysHeld s"
    then show ?thesis using assms(2) held_ok_safe [OF _ safe] by (simp add: store_inv_def)
  next
    fix E i token kind
    assume "Authenticate E (sysDisk s) i token kind = Some b"
    then have "held_ok (sysDisk s) b" by (rule Authenticate_held [OF _ i(1,3)])
    then show ?thesis by (rule held_ok_safe [OF _ safe])
  qed
  then show ?thesis
    using step_entries [OF assms(1) i(1)] step_tree [OF assms(1) i(1,2)] closed_marked_safe [OF i(3) safe]
    by (simp add: store_inv_def)
qed

interpretation store: monotone_system "store_step (sane dec)" "store_inv dec"
  "\<lambda>s t. closing_safe (sysDisk s) (sysDisk t)"
  for dec
  by unfold_locales (auto simp: step_inv step_disk_safe closing_safe_refl intro: closing_safe_trans)

lemma store_inv_empty: "store_inv dec empty_system"
  by (simp add: store_inv_def empty_system_def entries_ok_def files.tree_def closed_marked_def get_def)

section \<open>Slots\<close>

text \<open>The uploads of a request that count, as a set, and the bytes they reserve.\<close>

definition slots :: "disk \<Rightarrow> string \<Rightarrow> string set" where
  "slots d r = {u. ValidID u \<and> get d (statePath r u) \<noteq> None}"

definition slot_size :: "disk \<Rightarrow> string \<Rightarrow> string \<Rightarrow> int" where
  "slot_size d r u = (case get d (statePath r u) of Some (File (JState s)) \<Rightarrow> usPlainSize s | _ \<Rightarrow> 0)"

definition used_bytes :: "disk \<Rightarrow> string \<Rightarrow> int" where
  "used_bytes d r = (\<Sum>u \<in> slots d r. slot_size d r u)"

lemma slot_state:
  assumes "entries_ok dec d" and "ValidID r" and "u \<in> slots d r"
  obtains s where "get d (statePath r u) = Some (File (JState s))" and "state_entry r u (File (JState s))"
proof -
  obtain n where n: "get d (statePath r u) = Some n" and u: "ValidID u" using assms(3) by (auto simp: slots_def)
  then have "state_entry r u n"
    using assms(1,2) entry_ok_upload_files(2) unfolding entries_ok_def by blast
  with n that show thesis by (auto simp: state_entry_def)
qed

lemma slot_size_nonneg:
  assumes "entries_ok dec d" and "ValidID r" and "ValidID u"
  shows "0 \<le> slot_size d r u"
proof (cases "get d (statePath r u) = None")
  case False
  then have "u \<in> slots d r" using assms(3) by (simp add: slots_def)
  then obtain s where s: "get d (statePath r u) = Some (File (JState s))" "state_entry r u (File (JState s))"
    using slot_state [OF assms(1,2)] by blast
  then have "0 \<le> usPlainSize s" using accepted_shape by (auto simp: state_entry_def chunk_shape_def)
  with s show ?thesis by (simp add: slot_size_def)
qed (simp add: slot_size_def)

lemma slots_children:
  assumes "files.tree d" and "ValidID r"
  shows "slots d r = {u. u \<in> set (children d (requestUploadDir r)) \<and> ValidID u
    \<and> get d (uploadDir r u) = Some Dir \<and> get d (statePath r u) \<noteq> None}"
proof -
  have p: "get d (uploadDir r u) = Some Dir" if "get d (statePath r u) \<noteq> None" for u
  proof -
    have "statePath r u = [] \<or> get d (butlast (statePath r u)) = Some Dir"
      using that assms(1) unfolding files.tree_def by blast
    then show ?thesis by (simp add: statePath_def)
  qed
  have c: "u \<in> set (children d (requestUploadDir r))" if "get d (uploadDir r u) = Some Dir" "ValidID u" for u
    using that assms(2) by (simp add: set_children uploadDir_valid requestUploadDir_valid)
  show ?thesis using p c by (auto simp: slots_def)
qed

lemma finite_slots: "files.tree d \<Longrightarrow> ValidID r \<Longrightarrow> finite (slots d r)"
  by (rule finite_subset [of _ "set (children d (requestUploadDir r))"]) (auto simp: slots_children)

end
