(* ===== verification/StoreQuota.thy ===== *)
theory StoreQuota
  imports StoreRuns
begin

text \<open>
  The quota over runs: what \<open>usage\<close> counts is the number and the size of the slots, and the slots
  of an open request never exceed its bundle's limits.
\<close>

section \<open>What usage counts\<close>

text \<open>
  The slots whose state file the environment lets the server read. \<open>usage\<close> skips the others.
\<close>

definition read_slots :: "env \<Rightarrow> disk \<Rightarrow> string \<Rightarrow> string set" where
  "read_slots E d r = {u \<in> slots d r. \<not> envFault E OpRead (statePath r u)}"

definition read_bytes :: "env \<Rightarrow> disk \<Rightarrow> string \<Rightarrow> int" where
  "read_bytes E d r = (\<Sum>u \<in> read_slots E d r. slot_size d r u)"

lemma read_slots_subset: "read_slots E d r \<subseteq> slots d r"
  by (auto simp: read_slots_def)

text \<open>An environment in which the state of an upload can always be read.\<close>

definition reads_states :: "env \<Rightarrow> bool" where
  "reads_states E \<longleftrightarrow> (\<forall>r u. \<not> envFault E OpRead (statePath r u))"

lemma read_slots_all: "reads_states E \<Longrightarrow> read_slots E d r = slots d r"
  by (simp add: read_slots_def reads_states_def)

lemma readServerState_slot:
  assumes "entries_ok dec d" and "ValidID r" and "ValidID u"
  shows "readServerState E d r u = Inr s \<Longrightarrow> u \<in> read_slots E d r \<and> usPlainSize s = slot_size d r u"
    and "readServerState E d r u = Inl e \<Longrightarrow> u \<notin> read_slots E d r"
proof -
  have n: "\<exists>s. n = File (JState s)" if "get d (statePath r u) = Some n" for n
    using that slot_state [OF assms(1,2), of u] assms(3) by (auto simp: slots_def)
  show "readServerState E d r u = Inr s \<Longrightarrow> u \<in> read_slots E d r \<and> usPlainSize s = slot_size d r u"
    using assms(3) by (auto simp: readServerState_def os_read_file_def read_slots_def slots_def slot_size_def
        split: sum.splits if_splits option.splits node.splits content.splits)
  show "readServerState E d r u = Inl e \<Longrightarrow> u \<notin> read_slots E d r"
    using n by (auto simp: readServerState_def os_read_file_def read_slots_def slots_def
        split: sum.splits if_splits option.splits node.splits content.splits)
qed

lemma wrap64_wrap64 [simp]: "wrap64 (wrap64 x) = wrap64 x"
  using wrap64_add [of x 0] by simp

lemma usage_fold:
  assumes "entries_ok dec d" and "ValidID r" and "\<forall>u \<in> set us. ValidID u"
  shows "wrap64 (fst (foldl (usage_step E d r) (a, c) us)) = wrap64 (a + int (length (filter (\<lambda>u. u \<in> read_slots E d r) us)))"
    and "wrap64 (snd (foldl (usage_step E d r) (a, c) us))
      = wrap64 (c + sum_list (map (slot_size d r) (filter (\<lambda>u. u \<in> read_slots E d r) us)))"
proof -
  have "wrap64 (fst (foldl (usage_step E d r) (a, c) us)) = wrap64 (a + int (length (filter (\<lambda>u. u \<in> read_slots E d r) us)))
      \<and> wrap64 (snd (foldl (usage_step E d r) (a, c) us))
        = wrap64 (c + sum_list (map (slot_size d r) (filter (\<lambda>u. u \<in> read_slots E d r) us)))"
    using assms(3)
  proof (induction us arbitrary: a c)
    case (Cons u us)
    then have u: "ValidID u" and us: "\<forall>u \<in> set us. ValidID u" by auto
    show ?case
    proof (cases "readServerState E d r u")
      case (Inl e)
      then have "u \<notin> read_slots E d r" by (rule readServerState_slot(2) [OF assms(1,2) u])
      with Inl Cons.IH [OF us, of a c] show ?thesis by (simp add: usage_step_def)
    next
      case (Inr s)
      then have "u \<in> read_slots E d r \<and> usPlainSize s = slot_size d r u"
        by (rule readServerState_slot(1) [OF assms(1,2) u])
      with Inr Cons.IH [OF us, of "wrap64 (a + 1)" "wrap64 (c + slot_size d r u)"]
      show ?thesis by (simp add: usage_step_def wrap64_add add.assoc)
    qed
  qed simp
  then show "wrap64 (fst (foldl (usage_step E d r) (a, c) us)) = wrap64 (a + int (length (filter (\<lambda>u. u \<in> read_slots E d r) us)))"
    "wrap64 (snd (foldl (usage_step E d r) (a, c) us))
      = wrap64 (c + sum_list (map (slot_size d r) (filter (\<lambda>u. u \<in> read_slots E d r) us)))" by auto
qed

lemma usage_in_int64:
  assumes "in_int64 a" and "in_int64 c"
  shows "in_int64 (fst (foldl (usage_step E d r) (a, c) us)) \<and> in_int64 (snd (foldl (usage_step E d r) (a, c) us))"
  using assms
  by (induction us arbitrary: a c) (auto simp: usage_step_def in_int64_wrap64 split: sum.splits)

lemma upload_entries_children:
  "upload_entries (map (\<lambda>x. (x, get d (p @ [x]) = Some Dir)) (children d p))
    = filter (\<lambda>x. get d (p @ [x]) = Some Dir \<and> ValidID x) (children d p)"
  by (simp add: upload_entries_def filter_map comp_def case_prod_beta)

lemma os_read_dir_Inr:
  "os_read_dir E d p = Inr es \<Longrightarrow> es = map (\<lambda>x. (x, get d (p @ [x]) = Some Dir)) (children d p) \<and> get d p = Some Dir"
  by (auto simp: os_read_dir_def split: if_splits option.splits node.splits)

text \<open>\<open>usage\<close> counts the slots it sees, modulo 64 bits.\<close>

lemma usage_read:
  assumes "entries_ok dec d" and "files.tree d" and "ValidID r" and "usage E d r = Inr (files, bytes)"
  shows "files = wrap64 (int (card (read_slots E d r)))" and "bytes = wrap64 (read_bytes E d r)"
proof -
  let ?p = "requestUploadDir r"
  have "files = wrap64 (int (card (read_slots E d r))) \<and> bytes = wrap64 (read_bytes E d r)"
  proof (cases "os_read_dir E d ?p")
    case (Inl e)
    then have e: "e = NotExist" and z: "files = 0" "bytes = 0"
      using assms(3,4) by (auto simp: usage_def split: os_error.splits)
    then have "get d ?p = None" using Inl by (auto simp: os_read_dir_def split: if_splits option.splits node.splits)
    moreover have "u \<in> slots d r \<Longrightarrow> get d ?p = Some Dir" for u
      using assms(2,3) slots_children [OF assms(2,3)] unfolding files.tree_def
      by (force simp: uploadDir_valid requestUploadDir_valid)
    ultimately have "read_slots E d r = {}" using read_slots_subset by force
    with z show ?thesis by (simp add: read_bytes_def wrap64_def)
  next
    case (Inr es)
    define us where "us = upload_entries es"
    have us: "us = filter (\<lambda>x. get d (?p @ [x]) = Some Dir \<and> ValidID x) (children d ?p)"
      using os_read_dir_Inr [OF Inr] upload_entries_children by (simp add: us_def)
    have res: "(files, bytes) = foldl (usage_step E d r) (0, 0) us"
      using assms(3,4) Inr by (simp add: usage_def us_def)
    have "?p @ [x] = uploadDir r x" if "ValidID x" for x
      using that assms(3) by (simp add: uploadDir_valid requestUploadDir_valid)
    then have live: "set (filter (\<lambda>u. u \<in> read_slots E d r) us) = read_slots E d r"
      using slots_children [OF assms(2,3)] by (auto simp: us read_slots_def)
    have d: "distinct (filter (\<lambda>u. u \<in> read_slots E d r) us)" by (simp add: us distinct_children)
    have n: "length (filter (\<lambda>u. u \<in> read_slots E d r) us) = card (read_slots E d r)"
      using distinct_card [OF d] live by simp
    have b: "sum_list (map (slot_size d r) (filter (\<lambda>u. u \<in> read_slots E d r) us)) = read_bytes E d r"
      using sum_list_distinct_conv_sum_set [OF d, of "slot_size d r"] live by (simp add: read_bytes_def)
    have v: "\<forall>u \<in> set us. ValidID u" by (simp add: us)
    have i: "in_int64 0" by (simp add: in_int64_def)
    have "in_int64 files" "in_int64 bytes"
      using usage_in_int64 [OF i i, of E d r us] res by (metis fst_conv, metis snd_conv)
    moreover have "wrap64 files = wrap64 (int (card (read_slots E d r)))" "wrap64 bytes = wrap64 (read_bytes E d r)"
      using usage_fold [OF assms(1,3) v, of E 0 0] res n b by (metis fst_conv add_0, metis snd_conv add_0)
    ultimately show ?thesis by (simp add: wrap64_id)
  qed
  then show "files = wrap64 (int (card (read_slots E d r)))" "bytes = wrap64 (read_bytes E d r)" by auto
qed

section \<open>The quota invariant\<close>

definition within_limits :: "disk \<Rightarrow> RequestBundle \<Rightarrow> bool" where
  "within_limits d b \<longleftrightarrow> int (card (slots d (rbID b))) \<le> rbMaxFiles b \<and> used_bytes d (rbID b) \<le> rbMaxBytes b"

definition quota_ok :: "disk \<Rightarrow> string \<Rightarrow> bool" where
  "quota_ok d r \<longleftrightarrow> (get d (closurePath r) = None \<longrightarrow>
     (case get d (requestPath r) of
        Some (File (JBundle b)) \<Rightarrow> within_limits d b
      | _ \<Rightarrow> slots d r = {}))"

text \<open>No state file of request \<open>r\<close> appears or changes.\<close>

definition states_kept :: "string \<Rightarrow> disk \<Rightarrow> disk \<Rightarrow> bool" where
  "states_kept r d d' \<longleftrightarrow> (\<forall>u. ValidID u \<longrightarrow> get d' (statePath r u) = None
     \<or> get d' (statePath r u) = get d (statePath r u))"

lemma states_kept_slots: "states_kept r d d' \<Longrightarrow> slots d' r \<subseteq> slots d r"
  unfolding states_kept_def slots_def subset_iff mem_Collect_eq by metis

lemma states_kept_used:
  assumes "states_kept r d d'" and "entries_ok dec d" and "files.tree d" and "ValidID r"
  shows "card (slots d' r) \<le> card (slots d r)" and "used_bytes d' r \<le> used_bytes d r"
proof -
  note sub = states_kept_slots [OF assms(1)]
  note fin = finite_slots [OF assms(3,4)]
  show "card (slots d' r) \<le> card (slots d r)" by (rule card_mono [OF fin sub])
  have "used_bytes d' r = (\<Sum>u \<in> slots d' r. slot_size d r u)"
    unfolding used_bytes_def
  proof (rule sum.cong [OF HOL.refl])
    fix u assume "u \<in> slots d' r"
    then have "ValidID u" "get d' (statePath r u) \<noteq> None" by (simp_all add: slots_def)
    then have "get d' (statePath r u) = get d (statePath r u)"
      using assms(1) unfolding states_kept_def by metis
    then show "slot_size d' r u = slot_size d r u" by (simp add: slot_size_def)
  qed
  also have "\<dots> \<le> used_bytes d r"
    unfolding used_bytes_def
    by (rule sum_mono2 [OF fin sub]) (use slot_size_nonneg [OF assms(2,4)] in \<open>auto simp: slots_def\<close>)
  finally show "used_bytes d' r \<le> used_bytes d r" .
qed

lemma active_bundle:
  assumes "entries_ok dec d" and "ValidID r" and "get d (requestPath r) = Some n"
  obtains b where "n = File (JBundle b)" and "rbID b = r" and "validateBundle b = Inr ()"
  using bundle_files [OF assms(1,2)] assms(3) by (auto simp: bundle_entry_def)

lemma quota_ok_kept:
  assumes q: "quota_ok d r" and safe: "closing_safe d d'" and kept: "states_kept r d d'"
    and e: "entries_ok dec d" "files.tree d" "entries_ok dec d'" and r: "ValidID r"
  shows "quota_ok d' r"
  unfolding quota_ok_def
proof
  assume c': "get d' (closurePath r) = None"
  then have c: "get d (closurePath r) = None" using safe r unfolding closing_safe_def by force
  show "case get d' (requestPath r) of Some (File (JBundle b)) \<Rightarrow> within_limits d' b | _ \<Rightarrow> slots d' r = {}"
  proof (cases "get d (requestPath r)")
    case None
    then have "slots d r = {}" using q c by (simp add: quota_ok_def)
    then have s: "slots d' r = {}" using states_kept_slots [OF kept] by simp
    show ?thesis
    proof (cases "get d' (requestPath r)")
      case (Some n)
      then obtain b where "n = File (JBundle b)" "rbID b = r" "validateBundle b = Inr ()"
        by (rule active_bundle [OF e(3) r])
      with Some s show ?thesis by (simp add: within_limits_def used_bytes_def validateBundle_ok)
    qed (simp add: s)
  next
    case (Some n)
    then obtain b where b: "n = File (JBundle b)" "rbID b = r" by (rule active_bundle [OF e(1) r])
    have "get d' (requestPath r) = Some n" using Some safe r c' unfolding closing_safe_def by force
    moreover have "within_limits d b" using q c Some b by (simp add: quota_ok_def)
    ultimately show ?thesis using b states_kept_used [OF kept e(1,2) r]
      by (auto simp: within_limits_def)
  qed
qed

lemma states_kept_changes:
  "changes S d d' \<Longrightarrow> (\<And>u. ValidID u \<Longrightarrow> statePath r u \<notin> S) \<Longrightarrow> states_kept r d d'"
  unfolding states_kept_def changes_def by blast

lemma states_kept_shrinks: "shrinks S d d' \<Longrightarrow> states_kept r d d'"
  unfolding states_kept_def shrinks_def by blast

lemma states_kept_refl: "states_kept r d d"
  by (simp add: states_kept_def)

text \<open>A state file of another request is elsewhere.\<close>

lemma statePath_apart:
  assumes "ValidID r" "ValidID u"
  shows "statePath r u \<notin> init_paths" "statePath r u \<notin> close_paths i" "statePath r u \<noteq> requestPath i"
    "statePath r u \<noteq> chunkPath r' u' k" "statePath r u \<noteq> completePath r' u'" "statePath r u \<noteq> ackPath r' u'"
  using assms
  by (auto simp: init_paths_def close_paths_def top_paths request_file_defs upload_file_defs uploadDir_valid)

lemma states_kept_adds:
  assumes "adds P d d'" and "\<And>u n. ValidID u \<Longrightarrow> \<not> P (statePath r u) n"
  shows "states_kept r d d'"
  unfolding states_kept_def
proof (intro allI impI)
  fix u assume "ValidID u"
  then show "get d' (statePath r u) = None \<or> get d' (statePath r u) = get d (statePath r u)"
    using assms unfolding adds_def by (cases "get d' (statePath r u)") metis+
qed

lemma kept_Init: "ValidID r \<Longrightarrow> states_kept r d (snd (Init E d))"
  by (rule states_kept_changes [OF grows_changes [OF grows_Init]]) (simp add: statePath_apart)

lemma kept_ImportRequest: "ValidID r \<Longrightarrow> states_kept r d (snd (ImportRequest E d b))"
  by (rule states_kept_changes [OF grows_changes [OF grows_ImportRequest]]) (simp add: statePath_apart)

lemma kept_CloseRequest: "ValidID r \<Longrightarrow> states_kept r d (snd (CloseRequest E d i))"
  by (rule states_kept_changes [OF changes_CloseRequest]) (simp add: statePath_apart)

lemma kept_PutChunk: "ValidID r \<Longrightarrow> states_kept r d (snd (PutChunk E d r' u i bd len))"
  by (rule states_kept_changes [OF grows_changes [OF grows_PutChunk]]) (simp add: statePath_apart)

lemma kept_Complete: "ValidID r \<Longrightarrow> states_kept r d (snd (Complete E d r' u))"
  by (rule states_kept_changes [OF grows_changes [OF grows_Complete]]) (simp add: statePath_apart)

lemma kept_Purge: "states_kept r d (snd (Purge E d a stale))"
  by (rule states_kept_shrinks [OF shrinks_Purge])

lemma adds_Acknowledge: "adds (\<lambda>q n. q = ackPath (rbID b) u) d (snd (Acknowledge E d b u))"
proof -
  let ?P = "\<lambda>q n. q = ackPath (rbID b) u"
  have w: "adds ?P d d1" if "writeNew E d (ackPath (rbID b) u) c = (x, d1)" for c x d1
    using adds_writeNew [of ?P "ackPath (rbID b) u" c d E] that by simp
  have r: "adds ?P d (snd (os_remove_all E d p))" for d p
    by (rule adds_shrinks [OF shrinks_remove_all])
  show ?thesis
    unfolding Acknowledge_def
    by (auto simp: add.refl split: sum.splits prod.splits dest!: w intro: add.trans [OF _ r])
qed

lemma kept_Acknowledge: "ValidID r \<Longrightarrow> states_kept r d (snd (Acknowledge E d b u))"
  by (rule states_kept_adds [OF adds_Acknowledge]) (simp add: statePath_apart)

section \<open>Beginning an upload stays within the limits\<close>

lemma begin_create_checked:
  assumes "snd (begin_create E d b m raw dir) \<noteq> d"
  obtains files bytes where "usage E d (rbID b) = Inr (files, bytes)" and "files < rbMaxFiles b"
    and "mfPlainSize m \<le> wrap64 (rbMaxBytes b - bytes)"
  using assms by (auto simp: begin_create_def split: sum.splits prod.splits if_splits)

lemma begin_entry_state:
  assumes "begin_entry E b m raw (statePath r u) n" and "ValidID r" "ValidID u" "ValidID (rbID b)" "ValidID (mfUploadID m)"
  shows "r = rbID b" and "u = mfUploadID m" and "n = File (JState (initial_state E b m))"
  using assms
  by (auto simp: begin_entry_def upload_parents_def requestUploadDir_valid uploadDir_valid upload_file_defs uploadsDir_def)

lemma begin_create_within:
  assumes v: "ValidID (rbID b)" "ValidID (mfUploadID m)" and b: "validateBundle b = Inr ()"
    and e: "entries_ok dec d" "files.tree d" "read_slots E d (rbID b) = slots d (rbID b)" and w: "within_limits d b"
  shows "within_limits (snd (begin_create E d b m raw (uploadDir (rbID b) (mfUploadID m)))) b"
    (is "within_limits ?d' b")
proof (cases "states_kept (rbID b) d ?d'")
  case True
  then show ?thesis using states_kept_used [OF _ e(1,2) v(1)] w by (force simp: within_limits_def)
next
  case False
  let ?r = "rbID b" and ?u = "mfUploadID m"
  have a: "adds (begin_entry E b m raw) d ?d'" by (rule adds_begin_create [OF v])
  obtain x where x: "ValidID x" "get ?d' (statePath ?r x) \<noteq> None" "get ?d' (statePath ?r x) \<noteq> get d (statePath ?r x)"
    using False unfolding states_kept_def by blast
  then obtain n where n: "get ?d' (statePath ?r x) = Some n" by blast
  with x(3) a have "begin_entry E b m raw (statePath ?r x) n" unfolding adds_def by metis
  from begin_entry_state [OF this v(1) x(1) v] n
  have st: "get ?d' (statePath ?r ?u) = Some (File (JState (initial_state E b m)))" by simp
  have other: "get ?d' (statePath ?r y) = get d (statePath ?r y)" if "y \<in> slots ?d' ?r - {?u}" for y
  proof -
    have "get ?d' (statePath ?r y) \<noteq> None" "ValidID y" using that by (simp_all add: slots_def)
    then obtain k where k: "get ?d' (statePath ?r y) = Some k" "ValidID y" by blast
    then have "get d (statePath ?r y) = Some k \<or> begin_entry E b m raw (statePath ?r y) k"
      using a unfolding adds_def by blast
    moreover have "\<not> begin_entry E b m raw (statePath ?r y) k"
      using begin_entry_state(2) [OF _ v(1) k(2) v] that by blast
    ultimately show ?thesis using k by simp
  qed
  have sub: "slots ?d' ?r - {?u} \<subseteq> slots d ?r" using other by (fastforce simp: slots_def)
  have fin: "finite (slots d ?r)" by (rule finite_slots [OF e(2) v(1)])
  have fin': "finite (slots ?d' ?r)" by (rule finite_subset [of _ "insert ?u (slots d ?r)"]) (use sub fin in auto)
  have u: "?u \<in> slots ?d' ?r" using st v(2) by (simp add: slots_def)
  have lim: "1 \<le> rbMaxFiles b" "rbMaxFiles b \<le> 10000" "1 \<le> rbMaxBytes b" "rbMaxBytes b \<le> 2 ^ 50"
    using b by (simp_all add: validateBundle_ok)
  have nonneg: "0 \<le> used_bytes d ?r"
    unfolding used_bytes_def by (rule sum_nonneg) (use slot_size_nonneg [OF e(1) v(1)] in \<open>auto simp: slots_def\<close>)
  have "?d' \<noteq> d" using x by auto
  then obtain files bytes where us: "usage E d ?r = Inr (files, bytes)" "files < rbMaxFiles b"
      "mfPlainSize m \<le> wrap64 (rbMaxBytes b - bytes)"
    by (rule begin_create_checked)
  have "files = int (card (slots d ?r)) \<and> bytes = used_bytes d ?r"
    using usage_read [OF e(1,2) v(1) us(1)] w lim nonneg
    by (simp add: e(3) read_bytes_def used_bytes_def within_limits_def in_int64_def wrap64_id)
  then have c: "int (card (slots d ?r)) < rbMaxFiles b" "mfPlainSize m \<le> rbMaxBytes b - used_bytes d ?r"
    using us w lim nonneg by (auto simp: within_limits_def in_int64_def wrap64_id)
  have "card (slots ?d' ?r) = Suc (card (slots ?d' ?r - {?u}))" using card_Suc_Diff1 [OF fin' u] by simp
  also have "\<dots> \<le> Suc (card (slots d ?r))" using card_mono [OF fin sub] by simp
  finally have "int (card (slots ?d' ?r)) \<le> rbMaxFiles b" using c by linarith
  moreover have "used_bytes ?d' ?r \<le> rbMaxBytes b"
  proof -
    have "used_bytes ?d' ?r = slot_size ?d' ?r ?u + (\<Sum>y \<in> slots ?d' ?r - {?u}. slot_size ?d' ?r y)"
      unfolding used_bytes_def by (rule sum.remove [OF fin' u])
    also have "(\<Sum>y \<in> slots ?d' ?r - {?u}. slot_size ?d' ?r y) = (\<Sum>y \<in> slots ?d' ?r - {?u}. slot_size d ?r y)"
      by (rule sum.cong [OF HOL.refl]) (simp add: slot_size_def other)
    also have "\<dots> \<le> used_bytes d ?r"
      unfolding used_bytes_def
      by (rule sum_mono2 [OF fin sub]) (use slot_size_nonneg [OF e(1) v(1)] in \<open>auto simp: slots_def\<close>)
    finally show ?thesis using c st by (simp add: slot_size_def initial_state_def)
  qed
  ultimately show ?thesis by (simp add: within_limits_def)
qed

lemma Closed_False: "Closed E d r = Inr False \<Longrightarrow> ValidID r \<and> get d (closurePath r) = None"
  by (auto simp: Closed_def os_stat_def split: if_splits option.splits os_error.splits)

lemma quota_BeginUpload:
  assumes "held_ok d b" and e: "entries_ok dec d" "files.tree d" "rbID b = r \<Longrightarrow> read_slots E d r = slots d r" "sane dec E"
    and q: "quota_ok d r" and r: "ValidID r"
  shows "quota_ok (snd (BeginUpload E d b raw)) r"
proof (cases rule: BeginUpload_locked [of E d b raw])
  case same
  with q show ?thesis by simp
next
  case (locked m)
  then have v: "ValidID (rbID b)" "ValidID (mfUploadID m)" by (simp_all add: validateBundle_ok validateManifest_ok)
  let ?c = "begin_create E d b m raw (uploadDir (rbID b) (mfUploadID m))"
  from v show ?thesis
  proof (cases rule: begin_locked_create [where E = E and d = d and raw = raw])
    case (same x)
    with locked q show ?thesis by simp
  next
    case create
    then have up: "snd (BeginUpload E d b raw) = snd ?c" using locked by simp
    have safe: "closing_safe d (snd ?c)" and e': "entries_ok dec (snd ?c)"
      using safe_BeginUpload [of d E b raw] entries_ok_BeginUpload [OF e(1)] e(4) up
      by (simp_all add: sane_def) metis
    show ?thesis
    proof (cases "r = rbID b")
      case False
      have "states_kept r d (snd ?c)"
        using False begin_entry_state(1) [OF _ r _ v] by (intro states_kept_adds [OF adds_begin_create [OF v]]) blast
      then show ?thesis unfolding up by (rule quota_ok_kept [OF q safe _ e(1,2) e' r])
    next
      case True
      have "get d (closurePath r) = None" using Closed_False create(2) True by simp
      then have act: "get d (requestPath r) = Some (File (JBundle b))" using assms(1) True by (simp add: held_ok_def)
      with q \<open>get d (closurePath r) = None\<close> have "within_limits d b" by (simp add: quota_ok_def)
      then have w: "within_limits (snd ?c) b" using e(3) True by (intro begin_create_within [OF v locked(2) e(1,2)]) simp_all
      have "get (snd ?c) (requestPath r) = Some (File (JBundle b)) \<or> get (snd ?c) (closurePath r) \<noteq> None"
        using safe act r unfolding closing_safe_def by auto
      then show ?thesis unfolding up using w by (auto simp: quota_ok_def)
    qed
  qed
qed

section \<open>The quota over runs\<close>

definition reading :: "(string \<Rightarrow> Manifest option) \<Rightarrow> env \<Rightarrow> bool" where
  "reading dec E \<longleftrightarrow> sane dec E \<and> reads_states E"

text \<open>
  A misled beginning: an upload of the request was begun and changed the data directory although the state
  file of one of the uploads that were there could not be read. A state is undercounted when such a
  step is on a run to it.
\<close>

definition misled_begin :: "(env \<Rightarrow> bool) \<Rightarrow> string \<Rightarrow> system \<Rightarrow> system \<Rightarrow> bool" where
  "misled_begin P r s t \<longleftrightarrow> (\<exists>E b raw. P E \<and> b \<in> sysHeld s \<and> rbID b = r
     \<and> t = s\<lparr>sysDisk := snd (BeginUpload E (sysDisk s) b raw)\<rparr> \<and> sysDisk t \<noteq> sysDisk s
     \<and> (\<exists>u \<in> slots (sysDisk s) r. envFault E OpRead (statePath r u)))"

definition undercounted :: "(env \<Rightarrow> bool) \<Rightarrow> string \<Rightarrow> system \<Rightarrow> bool" where
  "undercounted P r s \<longleftrightarrow> (\<exists>p q. (store_step P)\<^sup>*\<^sup>* empty_system p \<and> misled_begin P r p q \<and> (store_step P)\<^sup>*\<^sup>* q s)"

lemma undercounted_step: "undercounted P r s \<Longrightarrow> store_step P s t \<Longrightarrow> undercounted P r t"
  unfolding undercounted_def by (blast intro: rtranclp.rtrancl_into_rtrancl)

lemma never_misled: "\<not> undercounted (reading dec) r s"
  by (auto simp: undercounted_def misled_begin_def reading_def reads_states_def)

lemma step_mono: "store_step P s t \<Longrightarrow> (\<And>E. P E \<Longrightarrow> Q E) \<Longrightarrow> store_step Q s t"
  by (erule store_step.cases) (auto intro: store_step.intros)

lemma run_mono: "(store_step P)\<^sup>*\<^sup>* s t \<Longrightarrow> (\<And>E. P E \<Longrightarrow> Q E) \<Longrightarrow> (store_step Q)\<^sup>*\<^sup>* s t"
  by (induction rule: rtranclp_induct) (auto intro: step_mono rtranclp.rtrancl_into_rtrancl)

text \<open>A step that is not misled keeps the quota.\<close>

lemma step_quota:
  assumes step: "store_step P s t" and sane: "\<And>E. P E \<Longrightarrow> sane dec E" and inv: "store_inv dec s"
    and qr: "quota_ok (sysDisk s) r" and r: "ValidID r"
  shows "quota_ok (sysDisk t) r \<or> misled_begin P r s t"
proof -
  have e: "entries_ok dec (sysDisk s)" "files.tree (sysDisk s)" using inv by (simp_all add: store_inv_def)
  have e': "entries_ok dec (sysDisk t)"
    using step_inv [OF step_mono [OF step sane] inv] by (simp add: store_inv_def)
  have kept: "quota_ok (sysDisk t) r" if "states_kept r (sysDisk s) (sysDisk t)"
    by (rule quota_ok_kept [OF qr step_disk_safe [OF step] that e e' r])
  show ?thesis
    using step
  proof cases
    case (begin_upload E b raw)
    have h: "held_ok (sysDisk s) b" using inv begin_upload by (simp add: store_inv_def)
    show ?thesis
    proof (cases "(rbID b = r \<longrightarrow> read_slots E (sysDisk s) r = slots (sysDisk s) r) \<or> sysDisk t = sysDisk s")
      case True
      then show ?thesis using quota_BeginUpload [OF h e _ sane [OF begin_upload(2)] qr r, of raw] begin_upload(1) qr by auto
    next
      case False
      then have "\<exists>u \<in> slots (sysDisk s) r. envFault E OpRead (statePath r u)" by (auto simp: read_slots_def)
      with False begin_upload have "misled_begin P r s t" unfolding misled_begin_def by blast
      then show ?thesis ..
    qed
  qed (use kept kept_Init kept_ImportRequest kept_CloseRequest kept_PutChunk kept_Complete kept_Acknowledge
      kept_Purge states_kept_refl r in simp_all)
qed

definition quota_system :: "(env \<Rightarrow> bool) \<Rightarrow> (string \<Rightarrow> Manifest option) \<Rightarrow> string \<Rightarrow> system \<Rightarrow> bool" where
  "quota_system P dec r s \<longleftrightarrow> (\<forall>E. P E \<longrightarrow> sane dec E) \<and> ValidID r
     \<and> store_inv dec s \<and> (store_step P)\<^sup>*\<^sup>* empty_system s \<and> (quota_ok (sysDisk s) r \<or> undercounted P r s)"

interpretation quota: invariant_system "store_step P" "quota_system P dec r" for P dec r
proof
  fix s t assume q: "quota_system P dec r s" and step: "store_step P s t"
  have sane: "P E \<Longrightarrow> sane dec E" for E using q by (simp add: quota_system_def)
  have run: "(store_step P)\<^sup>*\<^sup>* empty_system s"
    and inv: "store_inv dec s" and r: "ValidID r" using q by (simp_all add: quota_system_def)
  have "quota_ok (sysDisk t) r \<or> undercounted P r t"
  proof (cases "undercounted P r s")
    case True
    then show ?thesis using undercounted_step [OF _ step] by blast
  next
    case False
    then have "quota_ok (sysDisk s) r" using q by (simp add: quota_system_def)
    from step_quota [OF step sane inv this r] show ?thesis
      using run unfolding undercounted_def by blast
  qed
  then show "quota_system P dec r t"
    using sane inv r run step step_inv [OF step_mono [OF step sane] inv] unfolding quota_system_def
    by (blast intro: rtranclp.rtrancl_into_rtrancl)
qed

lemma quota_inv_empty: "(\<And>E. P E \<Longrightarrow> sane dec E) \<Longrightarrow> ValidID r \<Longrightarrow> quota_system P dec r empty_system"
  using store_inv_empty [of dec]
  by (simp add: quota_system_def quota_ok_def slots_def empty_system_def get_def)

end
