(* ===== verification/Demo.thy ===== *)
theory Demo
  imports StoreQuota
begin

text \<open>
  One upload from import to receipt, on concrete values: a request, a manifest of one small chunk and
  the data directory after each operation. The properties of the store are applied to it.
\<close>

section \<open>Values\<close>

definition demo_id :: string where "demo_id = ''AAAAAAAAAAAAAAAAAAAA''"
definition demo_up :: string where "demo_up = ''BBBBBBBBBBBBBBBBBBBB''"

definition demo_point :: string where
  "demo_point = ''BGsX0fLhLEJH-Lzm5WOkQPJ3A32BLeszoPShOUXYmMKWT-NC4v4af5uO5-tKfA-eFivOM1drMV7Oy7ZAaDe_UfU''"

definition demo_bundle :: RequestBundle where
  "demo_bundle = \<lparr>rbSchemaVersion = 1, rbID = demo_id, rbLabel = ''files'', rbCreatedAt = Time 1,
     rbExpiresAt = Time 1000, rbMaxFiles = 1, rbMaxBytes = 5, rbDeleteAfterCollect = True,
     rbPublicKey = demo_point, rbSubmitTokenHash = HashToken ''submit'',
     rbCollectTokenHash = HashToken ''collect''\<rparr>"

definition demo_unbound :: Manifest where
  "demo_unbound = \<lparr>mfVersion = 1, mfRequestID = demo_id, mfUploadID = demo_up, mfAlgorithm = Algorithm,
     mfEphemeralPublicKey = demo_point, mfSalt = replicate 43 CHR ''A'', mfNoncePrefix = replicate 11 CHR ''A'',
     mfChunkSize = 65536, mfChunkCount = 1, mfPlainSize = 3, mfHeaderSHA256 = [],
     mfEncryptedMetadata = replicate 22 CHR ''A''\<rparr>"

definition demo_manifest :: Manifest where
  "demo_manifest = demo_unbound\<lparr>mfHeaderSHA256 := HeaderSHA256 demo_unbound\<rparr>"

text \<open>A decoder that knows two texts for the same manifest.\<close>

definition demo_dec :: "string \<Rightarrow> Manifest option" where
  "demo_dec raw = (if raw = ''{}'' \<or> raw = ''{ }'' then Some demo_manifest else None)"

definition demo_env :: env where
  "demo_env = \<lparr>envNow = Time 10, envFault = (\<lambda>_ _. False), envRootLink = False,
     envManifest = demo_dec, envJSON = (\<lambda>_. [])\<rparr>"

definition demo_chunk :: string where "demo_chunk = replicate 19 CHR ''x''"

lemma demo_valid [simp]: "ValidID demo_id" "ValidID demo_up"
  by code_simp+

text \<open>The point is the generator of P-256: its coordinates satisfy the equation of the curve.\<close>

definition demo_x :: int where
  "demo_x = 0x6b17d1f2e12c4247f8bce6e563a440f277037d812deb33a0f4a13945d898c296"

definition demo_y :: int where
  "demo_y = 0x4fe342e2fe1a7f9b8ee7eb4a7c0f9e162bce33576b315ececbb6406837bf51f5"

lemma demo_coordinates:
  "bytes_int (take 32 (drop 1 (the (b64_decode demo_point)))) = demo_x"
  "bytes_int (drop 33 (the (b64_decode demo_point))) = demo_y"
  by code_simp+

lemma demo_encoding:
  "b64_decode demo_point \<noteq> None" "length (the (b64_decode demo_point)) = 65"
  "byte (hd (the (b64_decode demo_point))) = 4"
  by code_simp+

lemma demo_on_curve:
  "(demo_y * demo_y - (demo_x * demo_x * demo_x - 3 * demo_x + p256_b)) mod p256_p = 0"
proof -
  have "demo_y * demo_y - (demo_x * demo_x * demo_x - 3 * demo_x + p256_b) = p256_p *
      (- 0x12bdd1ad23dfc833dccf5f6141d6bb4a1f365dc1430b0e600b52dd851938d2d6933106a72efbf035fdaf43963b37fd5456e90c6581a8fb7a0d8a46a3629f0458)"
    by (simp add: demo_x_def demo_y_def p256_b_def p256_p_def)
  then show ?thesis by (simp only: mod_mult_self1_is_0)
qed

lemma demo_point_ok: "public_key_field_ok demo_point"
proof -
  have "demo_x < p256_p" "demo_y < p256_p" by (simp_all add: demo_x_def demo_y_def p256_p_def)
  then show ?thesis
    using demo_coordinates demo_encoding demo_on_curve
    by (auto simp: public_key_field_ok_def NewPublicKey_ok_def Let_def)
qed

lemma digest_field_ok_hash [simp]: "digest_field_ok (sha256_hex s)"
  by (simp add: digest_field_ok_def hex_decode_sha256)

lemma demo_bundle_fields [simp]:
  "rbID demo_bundle = demo_id" "rbExpiresAt demo_bundle = Time 1000" "rbMaxFiles demo_bundle = 1"
  "rbMaxBytes demo_bundle = 5" "rbDeleteAfterCollect demo_bundle = True"
  "rbSubmitTokenHash demo_bundle = HashToken ''submit''" "rbCollectTokenHash demo_bundle = HashToken ''collect''"
  by (simp_all add: demo_bundle_def)

lemma demo_label: "trim_space ''files'' \<noteq> []" by code_simp

lemma demo_bundle_ok [simp]: "validateBundle demo_bundle = Inr ()"
  using demo_label demo_point_ok demo_valid(1)
  by (simp add: validateBundle_ok demo_bundle_def SchemaVersion_def HashToken_def after_def)

lemma demo_manifest_fields [simp]:
  "mfUploadID demo_manifest = demo_up" "mfPlainSize demo_manifest = 3" "mfChunkSize demo_manifest = 65536"
  "mfChunkCount demo_manifest = 1" "mfRequestID demo_manifest = demo_id"
  by (simp_all add: demo_manifest_def demo_unbound_def)

lemma demo_header: "mfHeaderSHA256 demo_manifest = HeaderSHA256 demo_manifest"
  by (simp add: demo_manifest_def HeaderSHA256_def HeaderCanonical_def)

lemma demo_fields64:
  "b64_field (replicate 43 CHR ''A'') (\<lambda>n. n = 32)" "b64_field (replicate 11 CHR ''A'') (\<lambda>n. n = 8)"
  "b64_field (replicate 22 CHR ''A'') (\<lambda>n. 16 \<le> n \<and> n \<le> 16 * 1024)"
  by code_simp+

lemma demo_chunks: "expected_chunks demo_unbound = 1"
  by (simp add: expected_chunks_def demo_unbound_def wrap64_def sdiv_nonneg)

lemma demo_manifest_ok [simp]: "validateManifest demo_bundle demo_manifest = Inr ()"
proof -
  have c: "expected_chunks demo_manifest = 1"
    using demo_chunks by (simp add: expected_chunks_def demo_manifest_def)
  show ?thesis
    using demo_fields64 demo_point_ok c demo_header
    by (simp add: validateManifest_ok)
      (simp add: demo_manifest_def demo_unbound_def ProtocolVersion_def limits HeaderSHA256_def)
qed

lemma demo_env_fields [simp]:
  "envNow demo_env = Time 10" "envFault demo_env p q = False" "envManifest demo_env = demo_dec"
  by (simp_all add: demo_env_def)

lemma demo_dec_raw [simp]: "demo_dec ''{}'' = Some demo_manifest" "demo_dec ''{ }'' = Some demo_manifest"
  by (simp_all add: demo_dec_def)

lemma demo_sane [simp]: "sane demo_dec demo_env" "reading demo_dec demo_env" "no_faults demo_env"
  by (simp_all add: sane_def reading_def reads_states_def is_zero_time_def no_faults_def fun_eq_iff)

section \<open>The data directory after each operation\<close>

definition demo_top :: disk where
  "demo_top = [([], Dir), ([''requests''], Dir), ([''closed-requests''], Dir), ([''uploads''], Dir),
     ([''opaquedrop.json''], File (JMarker (Time 10)))]"

definition demo_imported :: disk where
  "demo_imported = demo_top @ [([''requests'', demo_id @ ''.json''], File (JBundle demo_bundle))]"

definition demo_state :: UploadServerState where
  "demo_state = initial_state demo_env demo_bundle demo_manifest"

definition demo_begun :: disk where
  "demo_begun = demo_imported @ [([''uploads'', demo_id], Dir), ([''uploads'', demo_id, demo_up], Dir),
     ([''uploads'', demo_id, demo_up, ''chunks''], Dir),
     ([''uploads'', demo_id, demo_up, ''manifest.json''], File (Raw ''{}'')),
     ([''uploads'', demo_id, demo_up, ''server.json''], File (JState demo_state))]"

definition demo_filled :: disk where
  "demo_filled = demo_begun
     @ [([''uploads'', demo_id, demo_up, ''chunks'', ''00000000.bin''], File (Raw demo_chunk))]"

definition demo_receipt :: Receipt where
  "demo_receipt = complete_receipt demo_env demo_id demo_up demo_manifest ''{}'' [sha256 demo_chunk] 19"

definition demo_completed :: disk where
  "demo_completed = demo_filled
     @ [([''uploads'', demo_id, demo_up, ''complete.json''], File (JReceipt demo_receipt))]"

lemmas os_defs = os_stat_def os_lstat_def os_read_file_def os_open_def os_mkdir_def os_mkdir_all_def
  writeNew_def write_temp_rename_def os_err_def and_then_def

lemma demo_Init: "Init demo_env [] = (Inr (), demo_top)"
  by (simp add: Init_def os_defs top_paths get_def put_def demo_top_def)

lemma demo_Init_again: "Init demo_env demo_imported = (Inr (), demo_imported)"
  by (simp add: Init_def os_defs top_paths get_def put_def demo_top_def demo_imported_def)

lemma demo_import: "ImportRequest demo_env [] demo_bundle = (Inr (), demo_imported)"
  by (simp add: ImportRequest_def demo_Init os_defs requestPath_valid get_def put_def demo_top_def demo_imported_def)

lemma demo_ids: "demo_id \<noteq> demo_up" "\<not> unsafe_component demo_id" "\<not> unsafe_component demo_up"
  by code_simp+

lemma demo_usage: "usage demo_env demo_imported demo_id = Inr (0, 0)"
  by (simp add: usage_def os_read_dir_def requestUploadDir_valid get_def demo_imported_def demo_top_def)

lemma demo_begin: "BeginUpload demo_env demo_imported demo_bundle ''{}'' = (Inr demo_manifest, demo_begun)"
proof -
  let ?d1 = "demo_imported @ [([''uploads'', demo_id], Dir)]"
  let ?d2 = "?d1 @ [([''uploads'', demo_id, demo_up], Dir)]"
  have "os_mkdir_all demo_env demo_imported (requestUploadDir demo_id) = (Inr (), ?d1)"
    by (simp add: os_defs requestUploadDir_valid get_def put_def demo_imported_def demo_top_def)
  moreover have "os_mkdir demo_env ?d1 (uploadDir demo_id demo_up) = (Inr (), ?d2)"
    by (simp add: os_defs uploadDir_valid get_def put_def demo_imported_def demo_top_def)
  moreover have "begin_files demo_env ?d2 demo_bundle demo_manifest ''{}'' = (Inr (), demo_begun)"
    by (simp add: begin_files_def os_defs uploadDir_valid upload_file_defs get_def put_def
        demo_imported_def demo_top_def demo_begun_def demo_state_def)
  ultimately have "begin_create demo_env demo_imported demo_bundle demo_manifest ''{}'' (uploadDir demo_id demo_up)
      = (Inr demo_manifest, demo_begun)"
    by (simp add: begin_create_def demo_usage wrap64_id in_int64_def os_err_def and_then_def)
  moreover have "get demo_imported (uploadDir demo_id demo_up) = None" "get demo_imported uploadsDir = Some Dir"
    "get demo_imported (closurePath demo_id) = None"
    by (simp_all add: get_def demo_imported_def demo_top_def uploadDir_valid uploadsDir_def closurePath_valid)
  ultimately show ?thesis
    by (simp add: BeginUpload_def MaxManifest_def begin_locked_def Closed_def os_stat_def os_open_def
        os_lstat_def after_def demo_ids join_upload)
qed

lemma demo_paths:
  "requestPath demo_id = [''requests'', demo_id @ ''.json'']"
  "closedRequestPath demo_id = [''closed-requests'', demo_id @ ''.json'']"
  "closurePath demo_id = [''closed-requests'', demo_id @ ''.closure.json'']"
  "manifestPath demo_id demo_up = [''uploads'', demo_id, demo_up, ''manifest.json'']"
  "statePath demo_id demo_up = [''uploads'', demo_id, demo_up, ''server.json'']"
  "completePath demo_id demo_up = [''uploads'', demo_id, demo_up, ''complete.json'']"
  "ackPath demo_id demo_up = [''uploads'', demo_id, demo_up, ''acknowledged.json'']"
  by (simp_all add: request_paths upload_file_defs uploadDir_valid)

lemma demo_chunkPath: "chunkPath demo_id demo_up 0 = [''uploads'', demo_id, demo_up, ''chunks'', ''00000000.bin'']"
proof -
  have "pad_zero 8 (int_str 0) @ ''.bin'' = ''00000000.bin''" by code_simp
  then show ?thesis by (simp add: chunkPath_def chunksDir_def uploadDir_valid)
qed

lemmas demo_disks = demo_top_def demo_imported_def demo_begun_def demo_filled_def demo_completed_def

lemma demo_open: "Closed demo_env demo_begun demo_id = Inr False" "Closed demo_env demo_filled demo_id = Inr False"
  "Closed demo_env demo_completed demo_id = Inr False"
  by (simp_all add: Closed_def os_stat_def demo_paths get_def demo_disks)

lemma demo_readManifest: "readManifest demo_env demo_begun demo_id demo_up = Inr (demo_manifest, ''{}'')"
  "readManifest demo_env demo_filled demo_id demo_up = Inr (demo_manifest, ''{}'')"
  by (simp_all add: readManifest_def os_read_file_def demo_paths get_def demo_disks)

lemma demo_size: "expectedCipherChunkSize demo_manifest 0 = 19"
  by (simp add: expectedCipherChunkSize_def wrap64_id in_int64_def)

lemma demo_put:
  "PutChunk demo_env demo_begun demo_id demo_up 0 \<lparr>bodyBytes = demo_chunk, bodyFails = False\<rparr> 19
    = (Inr (), demo_filled)"
proof -
  have "os_stat demo_env demo_begun (chunkPath demo_id demo_up 0) = Inl NotExist"
    by (simp add: os_stat_def demo_chunkPath get_def demo_disks)
  moreover have "store_chunk demo_env demo_begun (chunkPath demo_id demo_up 0)
      \<lparr>bodyBytes = demo_chunk, bodyFails = False\<rparr> 19 = (Inr (), demo_filled)"
    by (simp add: store_chunk_def demo_chunkPath demo_chunk_def wrap64_id in_int64_def get_def put_def demo_disks)
  ultimately show ?thesis
    by (simp add: PutChunk_def demo_readManifest demo_size demo_open)
qed

lemma demo_complete: "Complete demo_env demo_filled demo_id demo_up = (Inr demo_receipt, demo_completed)"
proof -
  have "readReceipt demo_env demo_filled demo_id demo_up = Inl ErrNotFound"
    by (simp add: readReceipt_def os_read_file_def demo_paths get_def demo_disks)
  moreover have "complete_chunks demo_env demo_filled demo_id demo_up demo_manifest [0] ([], 0)
      = Inr ([sha256 demo_chunk], 19)"
    by (simp add: chunk_summary_def demo_chunkPath os_stat_def os_read_file_def node_size_def demo_size
        get_def demo_disks demo_chunk_def wrap64_id in_int64_def)
  moreover have "write_receipt demo_env demo_filled demo_id demo_up demo_receipt = (Inr demo_receipt, demo_completed)"
    by (simp add: write_receipt_def os_defs demo_paths get_def put_def demo_disks)
  ultimately show ?thesis by (simp add: Complete_def demo_open demo_readManifest demo_receipt_def)
qed

text \<open>The run as steps of the system.\<close>

lemma demo_auth: "Authenticate demo_env demo_imported demo_id ''submit'' ''submit'' = Some demo_bundle"
  by (simp add: Authenticate_def RequestIncludingClosed_def Request_def readRequestPath_def os_read_file_def
      demo_paths get_def demo_disks HashToken_def hex_decode_sha256)

definition demo_ready :: system where
  "demo_ready = \<lparr>sysDisk = demo_imported, sysHeld = {demo_bundle}\<rparr>"

definition demo_done :: system where
  "demo_done = \<lparr>sysDisk = demo_completed, sysHeld = {demo_bundle}\<rparr>"

lemma demo_run_ready: "(store_step (reading demo_dec))\<^sup>*\<^sup>* empty_system demo_ready"
proof -
  let ?s = "\<lparr>sysDisk = demo_imported, sysHeld = {}\<rparr>"
  have "store_step (reading demo_dec) empty_system ?s"
    using store_step.import_request [where P = "reading demo_dec" and s = empty_system and E = demo_env and b = demo_bundle]
    by (simp add: empty_system_def demo_import)
  moreover have "store_step (reading demo_dec) ?s demo_ready"
    using store_step.authenticate [where P = "reading demo_dec" and s = ?s, OF demo_sane(2)] demo_auth
    by (force simp: demo_ready_def)
  ultimately show ?thesis by (meson rtranclp.rtrancl_into_rtrancl rtranclp.rtrancl_refl)
qed

lemma demo_run_done: "(store_step (reading demo_dec))\<^sup>*\<^sup>* demo_ready demo_done"
proof -
  let ?b = "demo_ready\<lparr>sysDisk := demo_begun\<rparr>" and ?f = "demo_ready\<lparr>sysDisk := demo_filled\<rparr>"
  have "store_step (reading demo_dec) demo_ready ?b"
    using store_step.begin_upload [where P = "reading demo_dec" and s = demo_ready and E = demo_env
        and b = demo_bundle and raw = "''{}''"]
    by (simp add: demo_ready_def demo_begin)
  moreover have "store_step (reading demo_dec) ?b ?f"
    using store_step.put_chunk [where P = "reading demo_dec" and s = ?b and E = demo_env and r = demo_id
        and u = demo_up and i = 0 and bd = "\<lparr>bodyBytes = demo_chunk, bodyFails = False\<rparr>" and len = 19]
    by (simp add: demo_ready_def demo_put)
  moreover have "store_step (reading demo_dec) ?f demo_done"
    using store_step.complete [where P = "reading demo_dec" and s = ?f and E = demo_env and r = demo_id and u = demo_up]
    by (simp add: demo_ready_def demo_done_def demo_complete)
  ultimately show ?thesis by (meson rtranclp.rtrancl_into_rtrancl rtranclp.rtrancl_refl)
qed

end
