(* ===== verification/CoreClaims.thy ===== *)
theory CoreClaims
  imports Demo
begin

text \<open>
  Properties of requests, names, sizes, manifests and the cryptographic framing: what package \<open>core\<close>
  makes is what package \<open>store\<close> accepts, what the store accepts is what package \<open>cryptobox\<close> opens, and
  every text that is hashed or authenticated determines what it was made from.
\<close>

section \<open>Requests\<close>

lemma dropWhile_fixed: "(xs = [] \<or> \<not> P (hd xs)) \<Longrightarrow> dropWhile P xs = xs"
  by (cases xs) auto

lemma strip_fixed:
  fixes P :: "nat \<Rightarrow> bool"
  defines "strip \<equiv> \<lambda>xs. rev (dropWhile P (rev (dropWhile P xs)))"
  shows "strip (strip rs) = strip rs"
proof -
  have last: "ts = [] \<or> \<not> P (last ts)" if "ts = strip rs" for ts
    using that hd_dropWhile_not [of P "rev (dropWhile P rs)"] by (auto simp: strip_def last_rev)
  have first: "strip rs = [] \<or> \<not> P (hd (strip rs))"
  proof (cases "strip rs = []")
    case False
    let ?l = "dropWhile P rs"
    obtain t where t: "?l = strip rs @ t"
      unfolding strip_def by (metis rev_append rev_rev_ident takeWhile_dropWhile_id)
    with False have "hd ?l = hd (strip rs)" "?l \<noteq> []" by (cases "strip rs"; simp)+
    with hd_dropWhile_not [of P rs] show ?thesis by simp
  qed simp
  have "dropWhile P (strip rs) = strip rs" using first by (rule dropWhile_fixed)
  moreover have "dropWhile P (rev (strip rs)) = rev (strip rs)"
    using last [OF HOL.refl] by (intro dropWhile_fixed) (auto simp: hd_rev)
  ultimately show ?thesis unfolding strip_def by simp
qed

lemma trim_space_idem:
  assumes "valid_utf8 s"
  shows "trim_space (trim_space s) = trim_space s"
proof -
  obtain rs where rs: "\<forall>r \<in> set rs. scalar r" "s = utf8 rs" using assms by (auto simp: valid_utf8_iff)
  let ?t = "rev (dropWhile is_space (rev (dropWhile is_space rs)))"
  have "\<forall>r \<in> set ?t. scalar r" using rs(1) by (auto dest!: set_dropWhileD)
  from trim_space_utf8 [OF this] trim_space_utf8 [OF rs(1)] rs(2) strip_fixed [of is_space rs]
  show ?thesis by simp
qed

text \<open>The draws a working generator gives: 16 and 32 random bytes and a key pair on the curve.\<close>

definition proper_draws :: "draws \<Rightarrow> bool" where
  "proper_draws rnd \<longleftrightarrow> (\<forall>b. drawID rnd = Some b \<longrightarrow> length b = 16)
     \<and> (\<forall>priv pub. drawKey rnd = Some (priv, pub) \<longrightarrow> NewPublicKey_ok pub \<and> NewPrivateKey_ok priv)"

text \<open>What a successful \<open>MakeRequest\<close> has checked and made.\<close>

lemma MakeRequest_fields:
  assumes "MakeRequest parse rnd baseURL label createdAt expiresAt maxFiles maxBytes delete = Inr (b, k)"
  obtains rid sub col priv pub scheme host where "RandomToken (drawID rnd) = Inr rid" and "drawKey rnd = Some (priv, pub)"
    and "trim_space label \<noteq> []" and "length (trim_space label) \<le> 120" and "after expiresAt createdAt"
    and "1 \<le> maxFiles" and "maxFiles \<le> 10000" and "1 \<le> maxBytes" and "maxBytes \<le> 2 ^ 50"
    and "b = \<lparr>rbSchemaVersion = SchemaVersion, rbID = rid, rbLabel = trim_space label,
            rbCreatedAt = createdAt, rbExpiresAt = expiresAt, rbMaxFiles = maxFiles,
            rbMaxBytes = maxBytes, rbDeleteAfterCollect = delete,
            rbPublicKey = b64_encode pub, rbSubmitTokenHash = HashToken sub,
            rbCollectTokenHash = HashToken col\<rparr>"
    and "kfRequestID k = rid" and "kfPublicKey k = b64_encode pub" and "kfCollectToken k = col"
    and "kfPrivateKey k = b64_encode priv" and "kfSchemaVersion k = SchemaVersion"
    and "kfSubmitURL k = kfServerURL k @ ''/r/'' @ rid @ ''#t='' @ QueryEscape sub"
    and "RandomToken (drawSubmit rnd) = Inr sub" and "RandomToken (drawCollect rnd) = Inr col"
    and "parse (kfServerURL k) = Some (scheme, host)" and "scheme \<noteq> []" and "host \<noteq> []"
proof -
  have "\<exists>rid sub col priv pub. RandomToken (drawID rnd) = Inr rid \<and> drawKey rnd = Some (priv, pub)
      \<and> trim_space label \<noteq> [] \<and> length (trim_space label) \<le> 120 \<and> after expiresAt createdAt
      \<and> 1 \<le> maxFiles \<and> maxFiles \<le> 10000 \<and> 1 \<le> maxBytes \<and> maxBytes \<le> 2 ^ 50
      \<and> b = \<lparr>rbSchemaVersion = SchemaVersion, rbID = rid, rbLabel = trim_space label,
            rbCreatedAt = createdAt, rbExpiresAt = expiresAt, rbMaxFiles = maxFiles,
            rbMaxBytes = maxBytes, rbDeleteAfterCollect = delete,
            rbPublicKey = b64_encode pub, rbSubmitTokenHash = HashToken sub,
            rbCollectTokenHash = HashToken col\<rparr>
      \<and> kfRequestID k = rid \<and> kfPublicKey k = b64_encode pub \<and> kfCollectToken k = col
      \<and> kfPrivateKey k = b64_encode priv \<and> kfSchemaVersion k = SchemaVersion
      \<and> kfSubmitURL k = kfServerURL k @ ''/r/'' @ rid @ ''#t='' @ QueryEscape sub
      \<and> RandomToken (drawSubmit rnd) = Inr sub \<and> RandomToken (drawCollect rnd) = Inr col
      \<and> (\<exists>scheme host. parse (kfServerURL k) = Some (scheme, host) \<and> scheme \<noteq> [] \<and> host \<noteq> [])"
    using assms unfolding MakeRequest_def Let_def
    by (simp only: not_less not_le split: option.splits prod.splits if_splits sum.splits) auto
  then show thesis by (elim exE conjE) (rule that)
qed

text \<open>A request that \<open>MakeRequest\<close> makes is one the server imports: its bundle passes
  \<open>validateBundle\<close>, the key file names the same request, its collect token hashes to the bundle's
  collect hash, and its private key decodes to a valid P-256 scalar.\<close>

lemma MakeRequest_accepted:
  assumes "MakeRequest parse rnd baseURL label createdAt expiresAt maxFiles maxBytes delete = Inr (b, k)"
    and "proper_draws rnd" and "valid_utf8 label"
  shows "validateBundle b = Inr () \<and> kfRequestID k = rbID b \<and> kfPublicKey k = rbPublicKey b
    \<and> HashToken (kfCollectToken k) = rbCollectTokenHash b
    \<and> (\<exists>s. b64_decode (kfPrivateKey k) = Some s \<and> NewPrivateKey_ok s)"
proof -
  obtain rid sub col priv pub where m: "RandomToken (drawID rnd) = Inr rid" "drawKey rnd = Some (priv, pub)"
    "trim_space label \<noteq> []" "length (trim_space label) \<le> 120" "after expiresAt createdAt"
    "1 \<le> maxFiles" "maxFiles \<le> 10000" "1 \<le> maxBytes" "maxBytes \<le> 2 ^ 50"
    and b: "b = \<lparr>rbSchemaVersion = SchemaVersion, rbID = rid, rbLabel = trim_space label,
            rbCreatedAt = createdAt, rbExpiresAt = expiresAt, rbMaxFiles = maxFiles,
            rbMaxBytes = maxBytes, rbDeleteAfterCollect = delete,
            rbPublicKey = b64_encode pub, rbSubmitTokenHash = HashToken sub,
            rbCollectTokenHash = HashToken col\<rparr>"
    and k: "kfRequestID k = rid" "kfPublicKey k = b64_encode pub" "kfCollectToken k = col" "kfPrivateKey k = b64_encode priv"
    by (rule MakeRequest_fields [OF assms(1)])
  have key: "NewPublicKey_ok pub" "NewPrivateKey_ok priv" using assms(2) m(2) by (simp_all add: proper_draws_def)
  have rid: "ValidID rid" using RandomToken_valid [OF m(1)] assms(2) by (simp add: proper_draws_def)
  have f: "public_key_field_ok (b64_encode pub)" using key by (simp add: public_key_field_ok_def b64_codec.dec_enc)
  have "validateBundle b = Inr ()"
    unfolding validateBundle_ok b using m(3-9) rid f trim_space_idem [OF assms(3)] by (simp add: HashToken_def)
  then show ?thesis using k key b by (simp add: b64_codec.dec_enc)
qed

definition demo_pub :: string where "demo_pub = the (b64_decode demo_point)"

definition demo_draws :: draws where
  "demo_draws = \<lparr>drawID = Some (replicate 16 CHR ''a''), drawSubmit = Some (replicate 32 CHR ''s''),
     drawCollect = Some (replicate 32 CHR ''c''), drawKey = Some (replicate 32 CHR ''k'', demo_pub)\<rparr>"

lemma demo_draws_proper: "proper_draws demo_draws"
proof -
  have "NewPublicKey_ok demo_pub"
    using demo_point_ok by (auto simp: public_key_field_ok_def demo_pub_def split: option.splits)
  moreover have "NewPrivateKey_ok (replicate 32 CHR ''k'')" by code_simp
  ultimately show ?thesis by (simp add: proper_draws_def demo_draws_def)
qed


section \<open>Names and sizes\<close>

text \<open>C20: \<open>SafeFilename\<close> of any valid UTF-8 name returns (it does not panic) one path component: not
  empty, at most 240 bytes and 240 UTF-16 units, valid UTF-8, with no separator, reserved character
  or control byte, and not starting with a dot or a space.\<close>

theorem SafeFilename_component:
  assumes "valid_utf8 name"
  shows "\<exists>r. SafeFilename name = Some r \<and> r \<noteq> [] \<and> length r \<le> 240 \<and> utf16Units r \<le> 240 \<and> valid_utf8 r
    \<and> list_all (\<lambda>c. \<not> reserved_char c \<and> c \<noteq> slash) r \<and> hd r \<noteq> CHR ''.'' \<and> hd r \<noteq> CHR '' ''"
proof -
  obtain r where r: "SafeFilename name = Some r" "safe_component r" using SafeFilename_safe [OF assms] by blast
  have "reserved_char slash" by (simp add: reserved_char_def)
  with r show ?thesis
    by (auto simp: safe_component_def list_all_iff space_or_dot_def maxFilenameBytes_def maxFilenameUTF16Units_def)
qed

theorem SafeFilename_component_witness: "\<exists>r. SafeFilename ''../a<b'' = Some r \<and> r \<noteq> [] \<and> length r \<le> 240"
proof -
  have "valid_utf8 ''../a<b''" by code_simp
  from SafeFilename_component [OF this] show ?thesis by blast
qed

text \<open>A size that \<open>ParseBytes\<close> accepts is the exact product of the number and its unit, positive and
  at most \<open>2 ^ 62\<close>: the 64-bit multiplication never wraps.\<close>

lemma ParseBytes_no_wrap:
  assumes "ParseBytes value = Inr n"
  shows "\<exists>d u k. size_match (trim_space (to_upper value)) = Some (d, u) \<and> map_of multipliers u = Some k
    \<and> n = int (digits_value d) * k \<and> 1 \<le> n \<and> n \<le> 2 ^ 62"
  using ParseBytes_exact [OF assms] by metis


section \<open>Manifests\<close>

lemma hash_hex: "hex_decode (HeaderSHA256 m) = Some (sha256 (HeaderCanonical m))"
  by (simp add: HeaderSHA256_def hex_decode_sha256)

lemma accepted_header:
  assumes "validateManifest b m = Inr ()"
  shows "hex_decode (mfHeaderSHA256 m) = Some (sha256 (HeaderCanonical m))"
  using assms unfolding validateManifest_ok HeaderSHA256_def sha256_hex_def by (intro hex_decode_fold) simp

text \<open>C33: The header digest binds the manifest: two manifests that servers accepted have the same canonical
  header exactly when they agree on every field but the digest and the encrypted metadata, and when their
  digests say the same they agree on these fields, or the two headers are a collision of SHA-256.\<close>

theorem header_binds_manifest:
  assumes "validateManifest b m = Inr ()" and "validateManifest b' m' = Inr ()"
    and "ValidID (rbID b)" and "ValidID (rbID b')"
  shows "(HeaderCanonical m = HeaderCanonical m' \<longleftrightarrow> public_fields m = public_fields m')
    \<and> (hex_decode (mfHeaderSHA256 m) = hex_decode (mfHeaderSHA256 m') \<longrightarrow> public_fields m = public_fields m'
      \<or> HeaderCanonical m \<noteq> HeaderCanonical m' \<and> sha256 (HeaderCanonical m) = sha256 (HeaderCanonical m'))"
proof -
  have "HeaderCanonical m = HeaderCanonical (public_fields m)" for m
    by (simp add: HeaderCanonical_def public_fields_def)
  then have iff: "HeaderCanonical m = HeaderCanonical m' \<longleftrightarrow> public_fields m = public_fields m'"
    using HeaderCanonical_inj [of m m'] valid_manifest_eq_free [OF assms(1,3)] valid_manifest_eq_free [OF assms(2,4)] by metis
  moreover have "hex_decode (mfHeaderSHA256 m) = hex_decode (mfHeaderSHA256 m')
      \<longleftrightarrow> sha256 (HeaderCanonical m) = sha256 (HeaderCanonical m')"
    using accepted_header [OF assms(1)] accepted_header [OF assms(2)] by simp
  ultimately show ?thesis by blast
qed

text \<open>Another manifest for the same upload, of one byte more.\<close>

definition demo_longer :: Manifest where
  "demo_longer = (demo_unbound\<lparr>mfPlainSize := 4\<rparr>)\<lparr>mfHeaderSHA256 := HeaderSHA256 (demo_unbound\<lparr>mfPlainSize := 4\<rparr>)\<rparr>"

lemma demo_longer_ok: "validateManifest demo_bundle demo_longer = Inr ()"
proof -
  have c: "expected_chunks demo_longer = 1"
    by (simp add: expected_chunks_def demo_longer_def demo_unbound_def wrap64_def sdiv_nonneg)
  have "mfHeaderSHA256 demo_longer = HeaderSHA256 demo_longer"
    by (simp add: demo_longer_def HeaderSHA256_def HeaderCanonical_def)
  then show ?thesis
    using demo_fields64 demo_point_ok c
    by (simp add: validateManifest_ok)
      (simp add: demo_longer_def demo_unbound_def ProtocolVersion_def limits HeaderSHA256_def)
qed

theorem header_binds_manifest_witness:
  "HeaderCanonical demo_manifest \<noteq> HeaderCanonical demo_longer"
proof -
  have "public_fields demo_manifest \<noteq> public_fields demo_longer"
    by (simp add: public_fields_def demo_manifest_def demo_longer_def demo_unbound_def)
  with header_binds_manifest [OF demo_manifest_ok demo_longer_ok] show ?thesis by simp
qed

lemma manifest_opens:
  assumes "validateManifest b m = Inr ()" and "kfRequestID key = rbID b"
    and "b64_decode (kfPrivateKey key) = Some priv" and "NewPrivateKey_ok priv"
    and "\<And>pub. prECDH pr priv pub \<noteq> None" and "\<And>z salt info. prHKDF pr z salt info \<noteq> None"
  shows "\<exists>op. NewOpener pr key m = Inr op \<and> opHeaderHash op = HeaderSHA256 m \<and> length (opNoncePrefix op) = 8"
proof -
  have v: "mfVersion m = ProtocolVersion" "mfAlgorithm m = Algorithm" "mfRequestID m = kfRequestID key"
    using assms(1,2) by (simp_all add: validateManifest_ok)
  obtain pub where pub: "b64_decode (mfEphemeralPublicKey m) = Some pub" "NewPublicKey_ok pub"
    using assms(1) by (auto simp: validateManifest_ok public_key_field_ok_def split: option.splits)
  obtain salt pre where f: "b64_decode (mfSalt m) = Some salt" "length salt = 32"
      "b64_decode (mfNoncePrefix m) = Some pre" "length pre = 8"
    using assms(1) by (auto simp: validateManifest_ok b64_field_def split: option.splits)
  obtain z where z: "prECDH pr priv pub = Some z" using assms(5) [of pub] by auto
  obtain k where k: "prHKDF pr z salt (KDFInfo (kfRequestID key) (mfUploadID m)) = Some k"
    using assms(6) [of z salt "KDFInfo (kfRequestID key) (mfUploadID m)"] by auto
  show ?thesis
    using v pub f z k assms(3,4) accepted_header [OF assms(1)]
    by (simp add: NewOpener_def Let_def hash_hex)
qed

text \<open>Stand-ins for the primitives that return.\<close>

definition demo_primitives :: primitives where
  "demo_primitives = \<lparr>prECDH = (\<lambda>a b. Some (a @ b)), prHKDF = (\<lambda>z s i. Some (sha256 (z @ s @ i))),
     prOpen = (\<lambda>k n c a. if a = [] then None else Some (take (length c - 16) c)), prMetadata = (\<lambda>_. None)\<rparr>"

definition demo_key :: KeyFile where
  "demo_key = \<lparr>kfSchemaVersion = 1, kfRequestID = demo_id, kfLabel = ''files'', kfCreatedAt = Time 1,
     kfExpiresAt = Time 1000, kfServerURL = ''https://h'', kfSubmitURL = ''https://h/r'',
     kfCollectToken = ''collect'', kfPrivateKey = b64_encode (replicate 32 CHR ''k''), kfPublicKey = demo_point\<rparr>"

lemma demo_private: "b64_decode (kfPrivateKey demo_key) = Some (replicate 32 CHR ''k'')"
  "NewPrivateKey_ok (replicate 32 CHR ''k'')"
  by (simp add: demo_key_def b64_codec.dec_enc) code_simp

lemma demo_opens: "\<exists>op. NewOpener demo_primitives demo_key demo_manifest = Inr op"
proof -
  have "kfRequestID demo_key = rbID demo_bundle" by (simp add: demo_key_def)
  from manifest_opens [OF demo_manifest_ok this demo_private, of demo_primitives]
  show ?thesis by (auto simp: demo_primitives_def)
qed

text \<open>C10: What the server accepts, the recipient opens: for a manifest accepted for the request of the key
  file, \<open>NewOpener\<close> succeeds whenever the recipient's own private key decodes and the ECDH and HKDF
  primitives give a result; no check of the manifest differs between the two sides.\<close>

theorem accepted_manifest_opens:
  assumes "validateManifest b m = Inr ()" and "kfRequestID key = rbID b"
    and "b64_decode (kfPrivateKey key) = Some priv" and "NewPrivateKey_ok priv"
    and "\<And>pub. prECDH pr priv pub \<noteq> None" and "\<And>z salt info. prHKDF pr z salt info \<noteq> None"
  shows "\<exists>op. NewOpener pr key m = Inr op \<and> opHeaderHash op = HeaderSHA256 m \<and> length (opNoncePrefix op) = 8"
  by (rule manifest_opens [OF assms])

theorem accepted_manifest_opens_witness: "\<exists>op. NewOpener demo_primitives demo_key demo_manifest = Inr op"
proof -
  have "kfRequestID demo_key = rbID demo_bundle" by (simp add: demo_key_def)
  from accepted_manifest_opens [OF demo_manifest_ok this demo_private, of demo_primitives]
  show ?thesis by (auto simp: demo_primitives_def)
qed

text \<open>C35: The chunks of an accepted manifest partition the plaintext: the expected ciphertext sizes,
  computed with 64-bit arithmetic, are the plaintext parts plus one tag each, no part is larger than the
  chunk size, and together they hold exactly the plaintext.\<close>

theorem chunks_partition_plaintext:
  assumes "validateManifest b m = Inr ()" and "validateBundle b = Inr ()"
  shows "(\<forall>i. 0 \<le> i \<and> i < mfChunkCount m \<longrightarrow> 16 \<le> expectedCipherChunkSize m i
      \<and> expectedCipherChunkSize m i \<le> mfChunkSize m + 16)
    \<and> sum_list (map (\<lambda>i. expectedCipherChunkSize m i - 16) (chunk_indices m)) = mfPlainSize m"
proof -
  have s: "chunk_shape m" using assms by (auto simp: validateBundle_ok intro: valid_manifest_shape)
  have "map (\<lambda>i. expectedCipherChunkSize m i - 16) (chunk_indices m) = map (plain_chunk_size m) (chunk_indices m)"
    by (rule map_cong) (auto simp: chunk_indices_def expected_size_exact(1) [OF s])
  then have "sum_list (map (\<lambda>i. expectedCipherChunkSize m i - 16) (chunk_indices m)) = mfPlainSize m"
    using sum_plain_chunks [OF s] by (simp only: chunk_indices_def)
  then show ?thesis using expected_size_exact [OF s] by simp
qed

theorem chunks_partition_plaintext_witness:
  "sum_list (map (\<lambda>i. expectedCipherChunkSize demo_manifest i - 16) (chunk_indices demo_manifest)) = 3"
  using chunks_partition_plaintext [OF demo_manifest_ok demo_bundle_ok] by simp

section \<open>Nonces and associated data\<close>

text \<open>Within one upload no nonce is used twice: chunks at different positions get different nonces, and
  the metadata nonce is none of them.\<close>

lemma nonces_distinct:
  assumes "i < metadataNonceIndex" and "j < metadataNonceIndex" and "i \<noteq> j"
  shows "opener_nonce op i \<noteq> opener_nonce op j \<and> opener_nonce op i \<noteq> opener_nonce op metadataNonceIndex
    \<and> length (opener_nonce op i) = 12"
proof -
  have b: "i < 2 ^ 32" "j < 2 ^ 32" "metadataNonceIndex < 2 ^ 32" "i \<noteq> metadataNonceIndex"
    using assms by (simp_all add: metadataNonceIndex_def)
  show ?thesis
    unfolding opener_nonce_def
    using make_nonce_inj [OF _ b(1,2)] make_nonce_inj [OF _ b(1,3)] b(4) assms(3) length_make_nonce by blast
qed


lemma hex_encode_no_bar: "CHR ''|'' \<notin> set (hex_encode s)"
proof (induction s)
  case (Cons c s)
  have "hex_digit n \<noteq> CHR ''|''" if "n < 16" for n
  proof -
    have "list_all (\<lambda>n. hex_digit n \<noteq> CHR ''|'') [0..<16]" by code_simp
    with that show ?thesis by (simp add: list_all_iff)
  qed
  then have "CHR ''|'' \<noteq> hex_digit (byte c div 16)" "CHR ''|'' \<noteq> hex_digit (byte c mod 16)"
    by (metis byte_div16, metis mod_less_divisor zero_less_numeral)
  with Cons show ?case by simp
qed simp

text \<open>C34: A chunk is authenticated for one place only: openers of accepted manifests that agree on the
  associated data of a chunk agree on the request, the upload, the public fields of the manifest (up to
  a collision of SHA-256) and the position; and chunk data is never metadata.\<close>

theorem chunk_place_bound:
  assumes "NewOpener pr key m = Inr op" and "NewOpener pr' key' m' = Inr op'"
    and "ValidID (mfRequestID m)" "ValidID (mfUploadID m)" "ValidID (mfRequestID m')" "ValidID (mfUploadID m')"
  shows "(ChunkAAD (opRequestID op) (opUploadID op) (opHeaderHash op) i
        = ChunkAAD (opRequestID op') (opUploadID op') (opHeaderHash op') j
      \<longrightarrow> mfRequestID m = mfRequestID m' \<and> mfUploadID m = mfUploadID m'
        \<and> sha256 (HeaderCanonical m) = sha256 (HeaderCanonical m') \<and> i = j)
    \<and> ChunkAAD (opRequestID op) (opUploadID op) (opHeaderHash op) i
      \<noteq> MetadataAAD (opRequestID op') (opUploadID op') (opHeaderHash op')"
proof -
  have b: "bar_free r" if "ValidID r" for r using ValidID_chars(4) [OF that] by (simp add: bar_free_def)
  have h: "bar_free (HeaderSHA256 m)" for m
    using hex_encode_no_bar by (simp add: bar_free_def HeaderSHA256_def sha256_hex_def)
  have free: "bar_free (opRequestID op)" "bar_free (opUploadID op)" "bar_free (opHeaderHash op)"
    "bar_free (opRequestID op')" "bar_free (opUploadID op')" "bar_free (opHeaderHash op')"
    using NewOpener_ok [OF assms(1)] NewOpener_ok [OF assms(2)] b assms(3-6) h by simp_all
  show ?thesis
    using ChunkAAD_inj [OF _ free] Chunk_Metadata_AAD_differ [OF free] NewOpener_ok [OF assms(1)] NewOpener_ok [OF assms(2)]
    by (metis HeaderSHA256_def sha256_hex_eq_iff)
qed

theorem chunk_place_bound_witness:
  "\<exists>op. NewOpener demo_primitives demo_key demo_manifest = Inr op
    \<and> ChunkAAD (opRequestID op) (opUploadID op) (opHeaderHash op) 0
      \<noteq> MetadataAAD (opRequestID op) (opUploadID op) (opHeaderHash op)"
proof -
  obtain op where "NewOpener demo_primitives demo_key demo_manifest = Inr op" using demo_opens by blast
  with chunk_place_bound [OF this this, of 0 0] show ?thesis by auto
qed

section \<open>Chunk indices\<close>

text \<open>The decimal text of an index below \<open>10 ^ 10\<close> parses to that index, and every text that parses
  gives an index between 0 and \<open>10 ^ 10\<close>, so the conversion never overflows.\<close>

lemma ParseChunkIndex_roundtrip:
  "(n < 10 ^ 10 \<longrightarrow> ParseChunkIndex (nat_str n) = Inr (int n))
    \<and> (\<forall>i. ParseChunkIndex v = Inr i \<longrightarrow> 0 \<le> i \<and> i < 10 ^ 10)"
  using ParseChunkIndex_nat_str ParseChunkIndex_bounds by blast


text \<open>Different chunks never share a file: for valid identifiers and indices the path of a chunk
  determines the request, the upload and the index, and lies below \<open>uploads\<close>.\<close>

lemma chunk_files_apart:
  assumes "ValidID r" and "ValidID u" and "ValidID r'" and "ValidID u'" and "0 \<le> i" and "0 \<le> j"
  shows "(chunkPath r u i = chunkPath r' u' j \<longleftrightarrow> r = r' \<and> u = u' \<and> i = j)
    \<and> prefix [''uploads'', r, u, ''chunks''] (chunkPath r u i)"
  using chunkPath_inj [OF assms] assms by (auto simp: chunkPath_def chunksDir_def uploadDir_valid)


end
