(* ===== verification/StoreSafety.thy ===== *)
theory StoreSafety
  imports Demo
begin

text \<open>
  The safety properties of the store: what holds in every reachable state, what no operation ever
  changes, and what a closed request refuses.
\<close>

lemma run_sane: "(store_step (reading dec))\<^sup>*\<^sup>* s t \<Longrightarrow> (store_step (sane dec))\<^sup>*\<^sup>* s t"
  by (erule run_mono) (simp add: reading_def)

section \<open>Reachable states\<close>

text \<open>C13: In every state that operations reach from an empty data directory, under any faults of the
  disk, each file holds what its place promises, the entries form a tree, a bundle among the closed
  requests has a closure record, and every authenticated bundle is the active one or its request is closed.\<close>

theorem store_invariant_reachable:
  assumes "(store_step (sane dec))\<^sup>*\<^sup>* empty_system s"
  shows "store_inv dec s"
  by (rule store.run_inv [OF assms store_inv_empty])

theorem store_invariant_reachable_witness: "store_inv demo_dec demo_ready"
  by (rule store_invariant_reachable [OF run_sane [OF demo_run_ready]])

lemma quota_reachable:
  assumes "\<And>E. P E \<Longrightarrow> sane dec E" and "(store_step P)\<^sup>*\<^sup>* empty_system s" and "ValidID r"
    and "get (sysDisk s) (closurePath r) = None" and "get (sysDisk s) (requestPath r) = Some (File (JBundle b))"
  shows "within_limits (sysDisk s) b \<or> undercounted P r s" and "rbID b = r"
proof -
  have q: "quota_system P dec r s" by (rule quota.run_inv [OF assms(2) quota_inv_empty [OF assms(1,3)]])
  then show "within_limits (sysDisk s) b \<or> undercounted P r s"
    using assms(4,5) by (auto simp: quota_system_def quota_ok_def)
  have "entries_ok dec (sysDisk s)" using q by (simp add: quota_system_def store_inv_def)
  then show "rbID b = r" using active_bundle [OF _ assms(3,5)] by fastforce
qed



text \<open>C26: \<open>usage\<close> refines the abstract accounting in every reachable state, under any faults of this or earlier
  calls: it counts the slots of the request whose state files it can read, and the bytes that these reserve, in
  64-bit arithmetic, and exactly (nothing wraps) when the uploads are within the limits of the request's bundle.\<close>

theorem usage_counts_slots:
  assumes "(store_step (sane dec))\<^sup>*\<^sup>* empty_system s" and "ValidID r" and "d = sysDisk s"
    and "usage E d r = Inr (files, bytes)"
  defines "U \<equiv> {u. ValidID u \<and> get d (statePath r u) \<noteq> None \<and> \<not> envFault E OpRead (statePath r u)}"
  shows "files = wrap64 (int (card U)) \<and> bytes = wrap64 (\<Sum>u \<in> U. slot_size d r u)
    \<and> (\<forall>b. get d (requestPath r) = Some (File (JBundle b)) \<and> within_limits d b \<longrightarrow>
        files = int (card U) \<and> bytes = (\<Sum>u \<in> U. slot_size d r u))"
proof (intro conjI allI impI)
  have "store_inv dec s" by (rule store.run_inv [OF assms(1) store_inv_empty])
  then have e: "entries_ok dec d" "files.tree d" by (simp_all add: store_inv_def assms(3))
  have U: "U = read_slots E d r" by (auto simp: U_def read_slots_def slots_def)
  note count = usage_read [OF e assms(2,4), unfolded read_bytes_def, folded U]
  then show "files = wrap64 (int (card U))" "bytes = wrap64 (\<Sum>u \<in> U. slot_size d r u)" by simp_all
  fix b assume b: "get d (requestPath r) = Some (File (JBundle b)) \<and> within_limits d b"
  then have "bundle_entry r (File (JBundle b))" using bundle_files [OF e(1) assms(2)] by blast
  then have lim: "rbMaxFiles b \<le> 10000" "rbMaxBytes b \<le> 2 ^ 50" "rbID b = r"
    by (auto simp: bundle_entry_def validateBundle_ok)
  have sub: "U \<subseteq> slots d r" and fin: "finite (slots d r)"
    using U read_slots_subset finite_slots [OF e(2) assms(2)] by auto
  have pos: "0 \<le> slot_size d r u" if "u \<in> slots d r" for u
    using slot_size_nonneg [OF e(1) assms(2)] that by (simp add: slots_def)
  have "card U \<le> card (slots d r)" "(\<Sum>u \<in> U. slot_size d r u) \<le> used_bytes d r" "0 \<le> (\<Sum>u \<in> U. slot_size d r u)"
    using card_mono [OF fin sub] sum_mono2 [OF fin sub, of "slot_size d r"] pos sub
    by (auto simp: used_bytes_def intro!: sum_nonneg)
  then have "in_int64 (int (card U))" "in_int64 (\<Sum>u \<in> U. slot_size d r u)"
    using b lim by (simp_all add: within_limits_def in_int64_def)
  then show "files = int (card U)" "bytes = (\<Sum>u \<in> U. slot_size d r u)" using count by (simp_all add: wrap64_id)
qed

text \<open>An environment in which the state of the demonstration upload cannot be read.\<close>

definition blind_env :: env where
  "blind_env = demo_env\<lparr>envFault := (\<lambda>op p. op = OpRead \<and> p = statePath demo_id demo_up)\<rparr>"

lemma demo_begun_run: "(store_step (sane demo_dec))\<^sup>*\<^sup>* empty_system (demo_ready\<lparr>sysDisk := demo_begun\<rparr>)"
proof -
  have "store_step (reading demo_dec) demo_ready (demo_ready\<lparr>sysDisk := demo_begun\<rparr>)"
    using store_step.begin_upload [where P = "reading demo_dec" and s = demo_ready and E = demo_env
        and b = demo_bundle and raw = "''{}''"]
    by (simp add: demo_ready_def demo_begin)
  with demo_run_ready show ?thesis by (intro run_sane) (rule rtranclp.rtrancl_into_rtrancl)
qed

text \<open>One upload of one allowed is there, and \<open>usage\<close> counts none: another one is let in.\<close>

lemma demo_begun_slots: "slots demo_begun demo_id = {demo_up}"
proof -
  have "ValidID u \<Longrightarrow> get demo_begun (statePath demo_id u) \<noteq> None \<longleftrightarrow> u = demo_up" for u
    by (simp add: statePath_def uploadDir_valid get_def demo_disks)
  with demo_valid(2) show ?thesis unfolding slots_def by blast
qed

lemma demo_begun_usage: "usage demo_env demo_begun demo_id = Inr (1, 3)" "usage blind_env demo_begun demo_id = Inr (0, 0)"
proof -
  have d: "get demo_begun (requestUploadDir demo_id) = Some Dir" by (simp add: requestUploadDir_valid get_def demo_disks)
  have c: "children demo_begun (requestUploadDir demo_id) = [demo_up]"
    by (simp add: children_def requestUploadDir_valid demo_disks)
  have g: "get demo_begun (requestUploadDir demo_id @ [demo_up]) = Some Dir"
    "get demo_begun (statePath demo_id demo_up) = Some (File (JState demo_state))"
    by (simp_all add: requestUploadDir_valid statePath_def uploadDir_valid get_def demo_disks)
  show "usage demo_env demo_begun demo_id = Inr (1, 3)" "usage blind_env demo_begun demo_id = Inr (0, 0)"
    using d c g by (simp_all add: usage_def os_read_dir_def blind_env_def upload_entries_def usage_step_def
        readServerState_def os_read_file_def demo_state_def initial_state_def wrap64_def)
qed

lemma usage_skips_unreadable:
  "usage blind_env demo_begun demo_id = Inr (0, 0) \<and> slots demo_begun demo_id = {demo_up} \<and> rbMaxFiles demo_bundle = 1"
  by (simp add: demo_begun_slots demo_begun_usage)

theorem usage_counts_slots_witness:
  "1 = int (card {u. ValidID u \<and> get demo_begun (statePath demo_id u) \<noteq> None})"
proof -
  have "slot_size demo_begun demo_id demo_up = 3"
    by (simp add: slot_size_def statePath_def uploadDir_valid get_def demo_disks demo_state_def initial_state_def)
  then have "within_limits demo_begun demo_bundle" by (simp add: within_limits_def demo_begun_slots used_bytes_def)
  moreover have "get demo_begun (requestPath demo_id) = Some (File (JBundle demo_bundle))"
    by (simp add: demo_paths get_def demo_disks)
  ultimately show ?thesis
    using usage_counts_slots [OF demo_begun_run demo_valid(1) _ demo_begun_usage(1)] by simp
qed

section \<open>Closing\<close>

text \<open>C12: Closing is final: once a request has a closure record, no run of operations, under any
  faults, removes or changes it, so the request never becomes open again and the time it was closed
  stays the same.\<close>

theorem closure_final:
  assumes "(store_step (sane dec))\<^sup>*\<^sup>* empty_system s" and "(store_step (sane dec))\<^sup>*\<^sup>* s t"
    and "ValidID i" and "get (sysDisk s) (closurePath i) = Some n"
  shows "get (sysDisk t) (closurePath i) = Some n"
proof -
  have "store_inv dec s" by (rule store.run_inv [OF assms(1) store_inv_empty])
  then have "closing_safe (sysDisk s) (sysDisk t)" by (rule store.run_rel [OF assms(2)])
  with assms(3,4) show ?thesis by (auto simp: closing_safe_def)
qed

text \<open>The closed demonstration request.\<close>

definition demo_closure :: RequestClosure where
  "demo_closure = \<lparr>clSchemaVersion = SchemaVersion, clRequestID = demo_id, clClosedAt = Time 10\<rparr>"

definition demo_closed :: disk where
  "demo_closed = demo_top @ [([''closed-requests'', demo_id @ ''.closure.json''], File (JClosure demo_closure)),
     ([''closed-requests'', demo_id @ ''.json''], File (JBundle demo_bundle))]"

lemma demo_close: "CloseRequest demo_env demo_imported demo_id = (Inr demo_closure, demo_closed)"
proof -
  let ?d = "demo_imported @ [([''closed-requests'', demo_id @ ''.closure.json''], File (JClosure demo_closure))]"
  have "readClosure demo_env demo_imported demo_id = Inl ErrNotFound"
    by (simp add: readClosure_def os_read_file_def demo_paths get_def demo_disks)
  moreover have "os_stat demo_env demo_imported (requestPath demo_id) = Inr (File (JBundle demo_bundle))"
    "os_stat demo_env demo_imported (closedRequestPath demo_id) = Inl NotExist"
    by (simp_all add: os_stat_def demo_paths get_def demo_disks)
  moreover have "ensure_closure demo_env demo_imported demo_id (Inl ErrNotFound) = (Inr demo_closure, ?d)"
    by (simp add: ensure_closure_def Let_def os_defs demo_paths get_def put_def demo_disks demo_closure_def)
  moreover have "move_closed demo_env ?d demo_id = (Inr (), demo_closed)"
    by (simp add: move_closed_def os_rename_def os_defs demo_paths get_def put_def del_def demo_disks demo_closed_def)
  ultimately have "close_locked demo_env demo_imported demo_id = (Inr demo_closure, demo_closed)"
    by (simp add: close_locked_def hard_error_def and_then_def)
  then show ?thesis by (simp add: CloseRequest_def demo_Init_again and_then_def)
qed

definition demo_shut :: system where
  "demo_shut = \<lparr>sysDisk = demo_closed, sysHeld = {demo_bundle}\<rparr>"

lemma demo_run_shut: "(store_step (sane demo_dec))\<^sup>*\<^sup>* empty_system demo_shut"
proof -
  have "store_step (sane demo_dec) demo_ready demo_shut"
    using store_step.close_request [where P = "sane demo_dec" and s = demo_ready and E = demo_env and i = demo_id]
    by (simp add: demo_ready_def demo_shut_def demo_close)
  with run_sane [OF demo_run_ready] show ?thesis by (rule rtranclp.rtrancl_into_rtrancl)
qed

lemma demo_closed_record: "get demo_closed (closurePath demo_id) = Some (File (JClosure demo_closure))"
  by (simp add: demo_paths get_def demo_closed_def demo_top_def)

theorem closure_final_witness:
  "get (snd (Purge demo_env demo_closed True 0)) (closurePath demo_id) = Some (File (JClosure demo_closure))"
proof -
  have s: "store_step (sane demo_dec) demo_shut (demo_shut\<lparr>sysDisk := snd (Purge demo_env (sysDisk demo_shut) True 0)\<rparr>)"
    by (rule store_step.purge) simp
  from closure_final [OF demo_run_shut r_into_rtranclp [of "store_step (sane demo_dec)", OF s] demo_valid(1)]
  show ?thesis by (simp add: demo_shut_def demo_closed_record)
qed

lemma Closed_with_record:
  "ValidID r \<Longrightarrow> get d (closurePath r) \<noteq> None \<Longrightarrow> Closed E d r = Inr True \<or> Closed E d r = Inl (ErrOS IOError)"
  by (auto simp: Closed_def os_stat_def)

text \<open>C7: A closed request takes no submission: beginning an upload, storing a chunk and completing
  fail and leave the data directory untouched, and the digest of a chunk is not served, even when
  the check of the closure record itself fails.\<close>

theorem closed_refuses_submission:
  assumes "ValidID (rbID b)" and "get d (closurePath (rbID b)) \<noteq> None"
  shows "\<not> is_ok (fst (BeginUpload E d b raw)) \<and> snd (BeginUpload E d b raw) = d
    \<and> \<not> is_ok (fst (PutChunk E d (rbID b) u i bd len)) \<and> snd (PutChunk E d (rbID b) u i bd len) = d
    \<and> \<not> is_ok (fst (Complete E d (rbID b) u)) \<and> snd (Complete E d (rbID b) u) = d
    \<and> \<not> is_ok (ChunkDigest E d (rbID b) u i)"
proof (intro conjI)
  note c = Closed_with_record [OF assms, of E]
  have l: "\<exists>e. begin_locked E d b m raw = (Inl e, d)" for m
    using c by (elim disjE) (simp_all add: begin_locked_def)
  have b: "\<exists>e. BeginUpload E d b raw = (Inl e, d)"
    unfolding BeginUpload_def using l by (auto split: sum.splits option.splits)
  then show "\<not> is_ok (fst (BeginUpload E d b raw))" "snd (BeginUpload E d b raw) = d" by auto
  have "\<exists>e. PutChunk E d (rbID b) u i bd len = (Inl e, d)"
    by (cases rule: PutChunk_cases [of E d "rbID b" u i bd len]) (use c in auto)
  then show "\<not> is_ok (fst (PutChunk E d (rbID b) u i bd len))" "snd (PutChunk E d (rbID b) u i bd len) = d"
    by auto
  have "\<exists>e. Complete E d (rbID b) u = (Inl e, d)"
    using c by (elim disjE) (simp_all add: Complete_def)
  then show "\<not> is_ok (fst (Complete E d (rbID b) u))" "snd (Complete E d (rbID b) u) = d" by auto
  show "\<not> is_ok (ChunkDigest E d (rbID b) u i)"
    using c by (elim disjE) (simp_all add: ChunkDigest_def)
qed

theorem closed_refuses_submission_witness:
  "\<not> is_ok (fst (BeginUpload demo_env demo_closed demo_bundle ''{}''))
    \<and> snd (Complete demo_env demo_closed demo_id demo_up) = demo_closed"
  using closed_refuses_submission [of demo_bundle demo_closed demo_env "''{}''" demo_up] demo_closed_record
  by simp

end
