(* ===== verification/StoreBehaviour.thy ===== *)
theory StoreBehaviour
  imports StoreSafety
begin

text \<open>
  What the operations of the store do when they succeed, and that repeating them is harmless: closing,
  importing and authenticating, beginning an upload, storing a chunk.
\<close>

section \<open>Closing a request\<close>

lemma readClosure_Inr:
  "readClosure E d i = Inr c \<Longrightarrow> get d (closurePath i) = Some (File (JClosure c)) \<and> clRequestID c = i"
  by (auto simp: readClosure_def os_read_file_def
      split: sum.splits if_splits option.splits node.splits os_error.splits content.splits)

lemma ensure_closure_record:
  assumes "ensure_closure E d i (readClosure E d i) = (Inr c, d')"
  shows "get d' (closurePath i) = Some (File (JClosure c)) \<and> clRequestID c = i"
proof (cases "readClosure E d i")
  case (Inr c')
  with assms readClosure_Inr [OF Inr] show ?thesis by (simp add: ensure_closure_def)
next
  case (Inl e)
  show ?thesis
  proof (cases "e = ErrNotFound")
    case False
    with Inl assms show ?thesis by (cases e) (simp_all add: ensure_closure_def)
  next
    case True
    let ?c = "\<lparr>clSchemaVersion = SchemaVersion, clRequestID = i, clClosedAt = envNow E\<rparr>"
    obtain r d1 where w: "writeNew E d (closurePath i) (JClosure ?c) = (r, d1)" by fastforce
    show ?thesis
    proof (cases r)
      case (Inr x)
      with w have "d1 = put d (closurePath i) (File (JClosure ?c))" using writeNew_ok(1) by blast
      with Inr w True Inl assms show ?thesis by (auto simp: ensure_closure_def Let_def)
    next
      case (Inl x)
      show ?thesis
      proof (cases "x = Exist")
        case True
        then have "readClosure E d1 i = Inr c \<and> d' = d1"
          using Inl w \<open>e = ErrNotFound\<close> \<open>readClosure E d i = Inl e\<close> assms by (auto simp: ensure_closure_def Let_def)
        then show ?thesis using readClosure_Inr by blast
      next
        case False
        then show ?thesis
          using Inl w \<open>e = ErrNotFound\<close> \<open>readClosure E d i = Inl e\<close> assms
          by (cases x) (simp_all add: ensure_closure_def Let_def)
      qed
    qed
  qed
qed

lemma move_closed_Inr:
  assumes "move_closed E d i = (Inr u, d')" and "ValidID i"
  shows "get d' (requestPath i) = None" and "get d' (closedRequestPath i) = get d (requestPath i)"
    and "get d (requestPath i) \<noteq> None"
    and "get d' (closurePath i) = get d (closurePath i)"
  using assms
  by (auto simp: move_closed_def and_then_def os_err_def os_rename_def request_paths split: ok_split)

text \<open>C30: A successful \<open>CloseRequest\<close> returns the closure record that is then on disk, names the request,
  and leaves the bundle only among the closed requests; from then on \<open>Closed\<close> answers yes.\<close>

theorem close_durable:
  assumes "CloseRequest E d i = (Inr c, d')" and "\<not> envFault E' OpStat (closurePath i)"
  shows "get d' (closurePath i) = Some (File (JClosure c)) \<and> clRequestID c = i
    \<and> get d' (requestPath i) = None \<and> get d' (closedRequestPath i) \<noteq> None \<and> Closed E' d' i = Inr True"
proof -
  have v: "ValidID i" using assms(1) by (auto simp: CloseRequest_def split: if_splits)
  obtain d0 where cl: "close_locked E d0 i = (Inr c, d')"
    using assms(1) v by (auto simp: CloseRequest_def and_then_ok)
  have a: "get d p \<noteq> None" if "os_stat E d p = Inr n" for d p n
    using that by (auto simp: os_stat_def split: if_splits option.splits)
  have "get d' (closurePath i) = Some (File (JClosure c)) \<and> clRequestID c = i
    \<and> get d' (requestPath i) = None \<and> get d' (closedRequestPath i) \<noteq> None"
  proof (cases rule: close_locked_cases [of E d0 i])
    case (same e)
    with cl show ?thesis by simp
  next
    case (closure_failed e d1)
    with cl show ?thesis by simp
  next
    case (closed_before c' d1)
    with cl have e: "ensure_closure E d0 i (readClosure E d0 i) = (Inr c, d')" by simp
    have "grows {closurePath i} d0 d'" using grows_ensure_closure [of i d0 E "readClosure E d0 i"] e by simp
    then have "get d' (requestPath i) = get d0 (requestPath i)" "get d' (closedRequestPath i) = get d0 (closedRequestPath i)"
      using v by (auto simp: grows_def request_paths)
    with closed_before ensure_closure_record [OF e] show ?thesis by simp
  next
    case (move c' d1)
    obtain x where m: "move_closed E d1 i = (Inr x, d')" and e: "ensure_closure E d0 i (readClosure E d0 i) = (Inr c, d1)"
      using cl move(1) unfolding move(2) and_then_ok by auto
    show ?thesis using move_closed_Inr [OF m v] ensure_closure_record [OF e] by simp
  qed
  then show ?thesis using assms(2) v by (simp add: Closed_def os_stat_def)
qed

theorem close_durable_witness:
  "get demo_closed (requestPath demo_id) = None \<and> Closed demo_env demo_closed demo_id = Inr True"
  using close_durable [OF demo_close, of demo_env] by simp

section \<open>Importing and authenticating\<close>

lemma ImportRequest_ok:
  assumes "ImportRequest E d b = (Inr (), d')"
  shows "validateBundle b = Inr ()" and "get d' (requestPath (rbID b)) = Some (File (JBundle b))"
    and "get d (requestPath (rbID b)) = None"
proof -
  show v: "validateBundle b = Inr ()" using assms by (auto simp: ImportRequest_def split: sum.splits)
  then obtain u d1 where i: "Init E d = (Inr u, d1)"
    and r: "(case writeNew E d1 (requestPath (rbID b)) (JBundle b) of
              (Inl Exist, d) \<Rightarrow> (Inl (ErrConflict []), d) | r \<Rightarrow> os_err r) = (Inr (), d')"
    using assms by (auto simp: ImportRequest_def and_then_ok)
  from r have w: "writeNew E d1 (requestPath (rbID b)) (JBundle b) = (Inr (), d')"
    by (cases "writeNew E d1 (requestPath (rbID b)) (JBundle b)")
      (auto simp: os_err_def split: sum.splits os_error.splits)
  show "get d' (requestPath (rbID b)) = Some (File (JBundle b))" using writeNew_ok(1) [OF w] by simp
  have "grows init_paths d d1" using grows_Init [of d E] i by simp
  then have "get d (requestPath (rbID b)) = None \<or> get d1 (requestPath (rbID b)) = get d (requestPath (rbID b))"
    by (auto simp: grows_def)
  then show "get d (requestPath (rbID b)) = None" using writeNew_ok(2) [OF w] by auto
qed

text \<open>A request that was imported can be used: its bundle reads back unchanged and both of its tokens
  authenticate, each for its own capability; importing it never replaced a bundle.\<close>

lemma import_then_authenticate:
  assumes "ImportRequest E d b = (Inr (), d')" and "no_faults E'"
    and "rbSubmitTokenHash b = HashToken sub" and "rbCollectTokenHash b = HashToken col"
    and "sub \<noteq> []" and "col \<noteq> []"
  shows "Request E' d' (rbID b) = Inr b \<and> get d (requestPath (rbID b)) = None
    \<and> Authenticate E' d' (rbID b) sub ''submit'' = Some b \<and> Authenticate E' d' (rbID b) col ''collect'' = Some b"
proof -
  note i = ImportRequest_ok [OF assms(1)]
  have "ValidID (rbID b)" using i(1) by (simp add: validateBundle_ok)
  then have r: "Request E' d' (rbID b) = Inr b"
    using i(2) assms(2) by (simp add: Request_def readRequestPath_def os_read_file_def no_faults_def)
  then show ?thesis
    using i(3) assms(3-6)
    by (simp add: Authenticate_def RequestIncludingClosed_def HashToken_def hex_decode_sha256)
qed


text \<open>\<open>ImportRequest\<close> looks for an active bundle only: an identifier that was closed can be imported again.
  The new bundle then hides the closed one from collection, and the request can no longer be closed.\<close>

lemma import_after_close:
  "\<exists>d'. ImportRequest demo_env demo_closed (demo_bundle\<lparr>rbMaxFiles := 2\<rparr>) = (Inr (), d')
    \<and> RequestIncludingClosed demo_env d' demo_id = Inr (demo_bundle\<lparr>rbMaxFiles := 2\<rparr>)
    \<and> fst (CloseRequest demo_env d' demo_id) = Inl (ErrConflict [])"
proof -
  let ?b = "demo_bundle\<lparr>rbMaxFiles := 2\<rparr>"
  let ?d = "demo_closed @ [([''requests'', demo_id @ ''.json''], File (JBundle ?b))]"
  have v: "validateBundle ?b = Inr ()" using demo_bundle_ok [unfolded validateBundle_ok] by (simp add: validateBundle_ok)
  have init: "Init demo_env demo_closed = (Inr (), demo_closed)" "Init demo_env ?d = (Inr (), ?d)"
    by (simp_all add: Init_def os_defs top_paths get_def put_def demo_top_def demo_closed_def)
  have "writeNew demo_env demo_closed (requestPath demo_id) (JBundle ?b) = (Inr (), ?d)"
    by (simp add: writeNew_def write_temp_rename_def os_stat_def demo_paths get_def put_def demo_top_def demo_closed_def)
  then have imp: "ImportRequest demo_env demo_closed ?b = (Inr (), ?d)"
    by (simp add: ImportRequest_def v init and_then_def os_err_def)
  have rd: "RequestIncludingClosed demo_env ?d demo_id = Inr ?b"
    by (simp add: RequestIncludingClosed_def Request_def readRequestPath_def os_read_file_def demo_paths get_def
        demo_top_def demo_closed_def)
  have "readClosure demo_env ?d demo_id = Inr demo_closure"
    by (simp add: readClosure_def os_read_file_def demo_paths get_def demo_top_def demo_closed_def demo_closure_def
        is_zero_time_def)
  moreover have "is_ok (os_stat demo_env ?d (requestPath demo_id))" "is_ok (os_stat demo_env ?d (closedRequestPath demo_id))"
    by (simp_all add: os_stat_def demo_paths get_def demo_top_def demo_closed_def)
  ultimately have "fst (CloseRequest demo_env ?d demo_id) = Inl (ErrConflict [])"
    by (auto simp: CloseRequest_def init and_then_def close_locked_def hard_error_def is_ok_iff)
  with imp rd show ?thesis by blast
qed

section \<open>Beginning an upload\<close>

text \<open>What the data directory shows of an upload that has begun.\<close>

definition begun :: "disk \<Rightarrow> RequestBundle \<Rightarrow> Manifest \<Rightarrow> string \<Rightarrow> bool" where
  "begun d b m raw \<longleftrightarrow> get d uploadsDir = Some Dir \<and> get d (uploadDir (rbID b) (mfUploadID m)) = Some Dir
     \<and> get d (chunksDir (rbID b) (mfUploadID m)) = Some Dir
     \<and> get d (manifestPath (rbID b) (mfUploadID m)) = Some (File (Raw raw))
     \<and> (\<exists>s. get d (statePath (rbID b) (mfUploadID m)) = Some (File (JState s)) \<and> \<not> is_zero_time (usCreatedAt s)
          \<and> usRequestID s = rbID b \<and> usUploadID s = mfUploadID m \<and> usPlainSize s = mfPlainSize m
          \<and> usChunkSize s = mfChunkSize m \<and> usChunkCount s = mfChunkCount m)"

lemma begin_existing_begun:
  assumes "begin_existing E d b m raw n = Inr m'" and "entries_ok dec d" and "ValidID (rbID b)" and "ValidID (mfUploadID m)"
    and "get d uploadsDir = Some Dir" and "get d (uploadDir (rbID b) (mfUploadID m)) = Some n"
  shows "begun d b m raw" and "m' = m"
proof -
  let ?r = "rbID b" and ?u = "mfUploadID m"
  have n: "n = Dir" using assms(1) by (auto simp: begin_existing_def Let_def split: if_splits)
  have raw: "\<exists>x. c = Raw x" if "get d (manifestPath ?r ?u) = Some (File c)" for c
    using that assms(2) entry_ok_upload_files(1) [OF assms(3,4)] unfolding entries_ok_def manifest_entry_def by blast
  note be = assms(1) [unfolded begin_existing_def Let_def n]
  obtain c where c: "os_read_file E d (manifestPath ?r ?u) = Inr c" "content_bytes E c = raw"
    using be by (cases "os_read_file E d (manifestPath ?r ?u)") (simp_all split: if_splits)
  obtain sc where sc: "os_read_file E d (statePath ?r ?u) = Inr sc"
    using be c by (cases "os_read_file E d (statePath ?r ?u)") (simp_all split: if_splits)
  obtain s where js: "sc = JState s" using be c sc by (cases sc) simp_all
  obtain k where k: "os_lstat E d (chunksDir ?r ?u) = Inr k"
    using be c sc js by (cases "os_lstat E d (chunksDir ?r ?u)") (simp_all split: if_splits)
  have s: "\<not> (k \<noteq> Dir \<or> is_zero_time (usCreatedAt s) \<or> usRequestID s \<noteq> ?r
                     \<or> usUploadID s \<noteq> ?u \<or> usPlainSize s \<noteq> mfPlainSize m
                     \<or> usChunkSize s \<noteq> mfChunkSize m \<or> usChunkCount s \<noteq> mfChunkCount m)" and m: "m' = m"
    using be c sc js k by (simp_all split: if_splits)
  have f: "get d p = Some (File x)" if "os_read_file E d p = Inr x" for p x
    using that by (auto simp: os_read_file_def split: if_splits option.splits node.splits)
  have h: "get d (manifestPath ?r ?u) = Some (File c)" "content_bytes E c = raw"
      "get d (statePath ?r ?u) = Some (File (JState s))" "get d (chunksDir ?r ?u) = Some k" "m' = m"
    using f [OF c(1)] c(2) f [OF sc] js k m by (auto simp: os_lstat_def split: if_splits option.splits)
  obtain x where "c = Raw x" using raw [OF h(1)] by blast
  with h have "get d (manifestPath ?r ?u) = Some (File (Raw raw))" by simp
  then show "begun d b m raw" using h s n assms(5,6) by (auto simp: begun_def)
  show "m' = m" by (rule h(5))
qed

lemma begin_files_ok:
  assumes "begin_files E d b m raw = (Inr u, d')" and "ValidID (rbID b)" and "ValidID (mfUploadID m)"
  shows "d' = put (put (put d (chunksDir (rbID b) (mfUploadID m)) Dir)
      (manifestPath (rbID b) (mfUploadID m)) (File (Raw raw)))
      (statePath (rbID b) (mfUploadID m)) (File (JState (initial_state E b m)))"
proof -
  obtain d1 d2 where c: "os_mkdir E d (chunksDir (rbID b) (mfUploadID m)) = (Inr (), d1)"
    and w1: "writeNew E d1 (manifestPath (rbID b) (mfUploadID m)) (Raw raw) = (Inr (), d2)"
    and w2: "writeNew E d2 (statePath (rbID b) (mfUploadID m)) (JState (initial_state E b m)) = (Inr (), d')"
    using assms(1) by (auto simp: begin_files_def and_then_ok)
  show ?thesis using os_mkdir_ok [OF c] writeNew_ok(1) [OF w1] writeNew_ok(1) [OF w2] by simp
qed

lemma begin_create_begun:
  assumes "begin_create E d b m raw (uploadDir (rbID b) (mfUploadID m)) = (Inr m', d')"
    and v: "ValidID (rbID b)" "ValidID (mfUploadID m)" and z: "\<not> is_zero_time (envNow E)"
  shows "begun d' b m raw" and "m' = m"
proof -
  let ?dir = "uploadDir (rbID b) (mfUploadID m)"
  obtain files bytes where us: "usage E d (rbID b) = Inr (files, bytes)"
    using assms(1) by (cases "usage E d (rbID b)") (auto simp: begin_create_def)
  then have ok: "\<not> (files \<ge> rbMaxFiles b \<or> mfPlainSize m > wrap64 (rbMaxBytes b - bytes))"
    using assms(1) by (auto simp: begin_create_def split: if_splits)
  obtain x0 d1 where all0: "os_mkdir_all E d (requestUploadDir (rbID b)) = (Inr x0, d1)"
    and rest: "(case os_mkdir E d1 ?dir of
              (Inl Exist, d) \<Rightarrow> (Inl (ErrConflict []), d)
            | (Inl e, d) \<Rightarrow> (Inl (ErrOS e), d)
            | (Inr _, d) \<Rightarrow>
                (case begin_files E d b m raw of
                   (Inl e, d) \<Rightarrow> (Inl e, snd (os_remove_all E d ?dir))
                 | (Inr _, d) \<Rightarrow> (Inr m, d))) = (Inr m', d')"
    using assms(1) unfolding begin_create_def us sum.case prod.case if_not_P [OF ok] and_then_ok os_err_ok
    by blast
  have all: "os_mkdir_all E d (requestUploadDir (rbID b)) = (Inr (), d1)" using all0 by simp
  obtain d2 where mk: "os_mkdir E d1 ?dir = (Inr (), d2)" and bf: "begin_files E d2 b m raw = (Inr (), d')" and m: "m' = m"
  proof (cases "os_mkdir E d1 ?dir")
    case (Pair x d2)
    show thesis
    proof (cases x)
      case (Inl e)
      with Pair rest show thesis by (cases e) simp_all
    next
      case (Inr y)
      with Pair rest that [of d2] show thesis
        by (cases "begin_files E d2 b m raw") (auto split: sum.splits)
    qed
  qed
  have "\<forall>q \<in> set (prefixes (requestUploadDir (rbID b))). get d1 q = Some Dir"
    using mkdir_each_ok [OF all [unfolded os_mkdir_all_def]] by blast
  then have up: "get d1 uploadsDir = Some Dir" by (simp add: requestUploadDir_valid v uploadsDir_def)
  show "begun d' b m raw"
    using up os_mkdir_ok [OF mk] begin_files_ok [OF bf v] z
    by (simp add: begun_def uploadDir_valid v upload_file_defs uploadsDir_def initial_state_def)
  show "m' = m" by (rule m)
qed

end
