(* ===== verification/StoreUploads.thy ===== *)
theory StoreUploads
  imports StoreBehaviour
begin

text \<open>
  The life of an upload: beginning and replaying it, storing its chunks once, completing it with a
  receipt that describes what is on disk, and listing, reading and acknowledging it.
\<close>

section \<open>Beginning\<close>

lemma BeginUpload_ok:
  assumes "BeginUpload E d b raw = (Inr m, d')" and "entries_ok dec d" and "\<not> is_zero_time (envNow E)"
  shows "validateBundle b = Inr ()" and "envManifest E raw = Some m" and "validateManifest b m = Inr ()"
    and "raw \<noteq> []" and "length raw \<le> MaxManifest" and "begun d' b m raw"
    and "get d' (closurePath (rbID b)) = None"
proof -
  have raw: "raw \<noteq> []" "length raw \<le> MaxManifest"
    using assms(1) by (auto simp: BeginUpload_def split: sum.splits if_splits)
  obtain m0 where m0: "envManifest E raw = Some m0" "validateBundle b = Inr ()" "validateManifest b m0 = Inr ()"
    and l: "begin_locked E d b m0 raw = (Inr m, d')"
    using assms(1) raw
    by (cases "envManifest E raw"; cases "validateBundle b") (auto simp: BeginUpload_def split: if_splits sum.splits)
  then have v: "ValidID (rbID b)" "ValidID (mfUploadID m0)" by (simp_all add: validateBundle_ok validateManifest_ok)
  let ?dir = "uploadDir (rbID b) (mfUploadID m0)"
  have c: "Closed E d (rbID b) = Inr False"
    using l by (auto simp: begin_locked_def split: sum.splits bool.splits)
  have "begin_existing E d b m0 raw (the (get d ?dir)) = Inr m \<and> d' = d \<and> get d uploadsDir = Some Dir
        \<and> get d ?dir \<noteq> None
      \<or> begin_create E d b m0 raw ?dir = (Inr m, d')"
    using l unfolding begin_locked_def Let_def join_upload [OF v]
    by (auto simp: os_open_def os_lstat_def split: sum.splits bool.splits node.splits os_error.splits if_splits option.splits)
  then have "begun d' b m0 raw \<and> m = m0"
  proof (elim disjE conjE)
    assume "begin_existing E d b m0 raw (the (get d ?dir)) = Inr m" "d' = d" "get d uploadsDir = Some Dir"
      "get d ?dir \<noteq> None"
    then show ?thesis
      using begin_existing_begun [OF _ assms(2) v, of E raw "the (get d ?dir)" m] by auto
  next
    assume "begin_create E d b m0 raw ?dir = (Inr m, d')"
    then show ?thesis using begin_create_begun [OF _ v assms(3)] by blast
  qed
  then have b: "begun d' b m0 raw" "m = m0" by simp_all
  have "get d' (closurePath (rbID b)) = get d (closurePath (rbID b))"
    using changes_other [OF changes_BeginUpload [OF m0(1)]] upload_paths_apart(3) [OF v(1) v] assms(1) by (metis snd_conv)
  then show "get d' (closurePath (rbID b)) = None" using Closed_False [OF c] by simp
  show "validateBundle b = Inr ()" "envManifest E raw = Some m" "validateManifest b m = Inr ()"
    "raw \<noteq> []" "length raw \<le> MaxManifest" "begun d' b m raw"
    using m0 raw b by simp_all
qed

lemma ValidID_safe: "ValidID i \<Longrightarrow> \<not> unsafe_component i"
proof -
  assume v: "ValidID i"
  have "\<not> list_ex (prefix ''..'') (suffixes i)"
  proof
    assume "list_ex (prefix ''..'') (suffixes i)"
    then obtain s where "suffix s i" "prefix ''..'' s" by (auto simp: list_ex_iff)
    then have "CHR ''.'' \<in> set i" by (auto simp: suffix_def prefix_def)
    with ValidID_chars(2) [OF v] show False by simp
  qed
  with v ValidID_chars [OF v] show ?thesis by (simp add: unsafe_component_def)
qed

lemma begun_begin:
  assumes "begun d b m raw" and "no_faults E" and "validateBundle b = Inr ()" and "validateManifest b m' = Inr ()"
    and "envManifest E raw' = Some m'" and "mfUploadID m' = mfUploadID m" and "raw' \<noteq> []" and "length raw' \<le> MaxManifest"
    and "get d (closurePath (rbID b)) = None" and "after (rbExpiresAt b) (envNow E)"
  shows "BeginUpload E d b raw' = (begin_existing E d b m' raw' Dir, d)"
proof -
  have v: "ValidID (rbID b)" "ValidID (mfUploadID m')" using assms(3,4) by (simp_all add: validateBundle_ok validateManifest_ok)
  have q: "\<not> mfPlainSize m' > rbMaxBytes b" using assms(4) by (simp add: validateManifest_ok)
  have f: "\<not> envFault E p q" for p q using assms(2) by (simp add: no_faults_def)
  have "begin_locked E d b m' raw' = (begin_existing E d b m' raw' Dir, d)"
    using assms(1,6,9,10) f v ValidID_safe
    unfolding begin_locked_def Let_def join_upload [OF v]
    by (simp add: Closed_def os_stat_def os_open_def os_lstat_def begun_def)
  then show ?thesis using assms(3-5,7,8) q by (simp add: BeginUpload_def)
qed

lemma begun_existing:
  assumes "begun d b m raw" and "no_faults E"
  shows "begin_existing E d b m raw Dir = Inr m"
    and "raw' \<noteq> raw \<Longrightarrow> mfUploadID m' = mfUploadID m \<Longrightarrow> begin_existing E d b m' raw' Dir = Inl (ErrConflict [])"
  using assms by (auto simp: begin_existing_def Let_def begun_def no_faults_def os_read_file_def os_lstat_def)

text \<open>C21: Beginning an upload is idempotent: after a success, sending the same manifest again returns the
  same manifest and changes nothing, and any other accepted manifest for the same upload identifier is a
  conflict that changes nothing.\<close>

theorem begin_upload_replay:
  assumes "BeginUpload E d b raw = (Inr m, d')" and "entries_ok dec d" and "\<not> is_zero_time (envNow E)"
    and "no_faults E'" and "envManifest E' = envManifest E" and "after (rbExpiresAt b) (envNow E')"
    and "raw' \<noteq> raw" and "raw' \<noteq> []" and "length raw' \<le> MaxManifest" and "envManifest E raw' = Some m'"
    and "validateManifest b m' = Inr ()" and "mfUploadID m' = mfUploadID m"
  shows "BeginUpload E' d' b raw = (Inr m, d') \<and> BeginUpload E' d' b raw' = (Inl (ErrConflict []), d')"
proof -
  note o = BeginUpload_ok [OF assms(1-3)]
  have dec: "envManifest E' raw = Some m" "envManifest E' raw' = Some m'" using o(2) assms(5,10) by simp_all
  have "BeginUpload E' d' b raw = (begin_existing E' d' b m raw Dir, d')"
    by (rule begun_begin [OF o(6) assms(4) o(1,3) dec(1) HOL.refl o(4,5,7) assms(6)])
  moreover have "BeginUpload E' d' b raw' = (begin_existing E' d' b m' raw' Dir, d')"
    by (rule begun_begin [OF o(6) assms(4) o(1) assms(11) dec(2) assms(12,8,9) o(7) assms(6)])
  ultimately show ?thesis using begun_existing [OF o(6) assms(4)] assms(7,12) by simp
qed

theorem begin_upload_replay_witness:
  "BeginUpload demo_env demo_begun demo_bundle ''{ }'' = (Inl (ErrConflict []), demo_begun)"
proof -
  have "store_inv demo_dec demo_ready" by (rule store.run_inv [OF run_sane [OF demo_run_ready] store_inv_empty])
  then have e: "entries_ok demo_dec demo_imported" by (simp add: store_inv_def demo_ready_def)
  show ?thesis
    using begin_upload_replay [OF demo_begin e, of demo_env "''{ }''" demo_manifest]
    by (simp add: is_zero_time_def no_faults_def after_def MaxManifest_def fun_eq_iff)
qed

section \<open>Storing a chunk\<close>

lemma readManifest_same:
  assumes "readManifest E d r u = Inr (m, raw)" and "entries_ok dec d" and "envManifest E = dec"
    and "no_faults E'" and "envManifest E' = dec" and "get d' (manifestPath r u) = get d (manifestPath r u)"
  shows "readManifest E' d' r u = Inr (m, raw)"
proof -
  have "envManifest E raw = Some m" using readManifest_Inr [OF assms(1)] by metis
  then show ?thesis
    using readManifest_accepted [OF assms(1-3)] assms(3-6)
    by (simp add: readManifest_def os_read_file_def no_faults_def)
qed

text \<open>A stored chunk is the whole body: the copy reads one byte more than the chunk may have.\<close>

lemma PutChunk_whole:
  assumes "PutChunk E d r u i bd len = (Inr (), d')" and "entries_ok dec d" and "envManifest E = dec"
  obtains m raw where "readManifest E d r u = Inr (m, raw)" and "0 \<le> i" and "i < mfChunkCount m"
    and "Closed E d r = Inr False" and "d' = put d (chunkPath r u i) (File (Raw (bodyBytes bd)))"
    and "int (length (bodyBytes bd)) = expectedCipherChunkSize m i"
proof (cases rule: PutChunk_cases [of E d r u i bd len])
  case (same e)
  with assms(1) show ?thesis by simp
next
  case (new m raw bytes)
  note acc = readManifest_accepted [OF new(2) assms(2,3)]
  have sh: "chunk_shape m" by (rule accepted_shape [OF acc(3)])
  have d': "d' = put d (chunkPath r u i) (File (Raw bytes))" using assms(1) new(1) by simp
  have sz: "expectedCipherChunkSize m i = plain_chunk_size m i + 16" "0 \<le> plain_chunk_size m i"
      "plain_chunk_size m i \<le> mfChunkSize m"
    using expected_size_exact [OF sh new(3,4)] by simp_all
  have "mfChunkSize m \<le> 2 ^ 23" using sh by (simp add: chunk_shape_def limits)
  with sz have w: "wrap64 (expectedCipherChunkSize m i + 1) = expectedCipherChunkSize m i + 1"
    by (intro wrap64_id) (simp add: in_int64_def)
  have l: "int (length bytes) = expectedCipherChunkSize m i" by (rule new(9))
  have b: "bytes = bodyBytes bd"
  proof -
    have "bytes = take (nat (expectedCipherChunkSize m i + 1)) (bodyBytes bd)" using new(8) w by simp
    moreover from this l have "length (bodyBytes bd) \<le> nat (expectedCipherChunkSize m i + 1)"
      using sz by (cases "length (bodyBytes bd) \<le> nat (expectedCipherChunkSize m i + 1)") auto
    ultimately show ?thesis by simp
  qed
  show thesis using that new(2-5,9) d' b by blast
qed

text \<open>C22: A stored chunk is the whole body, of exactly the size the manifest asks for; its digest is served
  afterwards, every other entry of the data directory is as before, and storing the same chunk again
  fails and leaves the first bytes in place.\<close>

theorem put_chunk_once:
  assumes "PutChunk E d r u i bd len = (Inr (), d')" and "entries_ok dec d" and "envManifest E = dec"
    and "no_faults E'" and "envManifest E' = dec"
  shows "\<exists>m raw. readManifest E d r u = Inr (m, raw) \<and> int (length (bodyBytes bd)) = expectedCipherChunkSize m i
    \<and> get d' (chunkPath r u i) = Some (File (Raw (bodyBytes bd)))
    \<and> (\<forall>q. q \<noteq> chunkPath r u i \<longrightarrow> get d' q = get d q)
    \<and> ChunkDigest E' d' r u i = Inr (sha256_hex (bodyBytes bd))
    \<and> \<not> is_ok (fst (PutChunk E' d' r u i bd' len')) \<and> snd (PutChunk E' d' r u i bd' len') = d'"
proof -
  obtain m raw where new: "readManifest E d r u = Inr (m, raw)" "0 \<le> i" "i < mfChunkCount m" "Closed E d r = Inr False"
    and d': "d' = put d (chunkPath r u i) (File (Raw (bodyBytes bd)))"
    and l: "int (length (bodyBytes bd)) = expectedCipherChunkSize m i"
    by (rule PutChunk_whole [OF assms(1-3)])
  note acc = readManifest_accepted [OF new(1) assms(2,3)]
  have man: "readManifest E' d' r u = Inr (m, raw)"
    by (rule readManifest_same [OF new(1) assms(2-5)]) (simp add: d' acc uploadDir_valid upload_file_defs)
  have f: "\<not> envFault E' p q" for p q using assms(4) by (simp add: no_faults_def)
  have "get d' (closurePath r) = None"
    using Closed_False [OF new(4)] acc by (simp add: d' closurePath_valid upload_file_defs uploadDir_valid)
  then have open': "Closed E' d' r = Inr False" using f acc(1) by (simp add: Closed_def os_stat_def)
  have ch: "get d' (chunkPath r u i) = Some (File (Raw (bodyBytes bd)))" using d' by simp
  have dig: "ChunkDigest E' d' r u i = Inr (sha256_hex (bodyBytes bd))"
    using open' man new(2,3) ch f by (simp add: ChunkDigest_def Let_def os_open_def os_read_file_def)
  have again: "\<not> is_ok (fst (PutChunk E' d' r u i bd' len')) \<and> snd (PutChunk E' d' r u i bd' len') = d'"
    by (cases rule: PutChunk_cases [of E' d' r u i bd' len']) (use ch in auto)
  show ?thesis using new(1) l ch d' dig again by (intro exI [of _ m] exI [of _ raw]) simp
qed

lemma demo_entries:
  "entries_ok demo_dec demo_imported" "entries_ok demo_dec demo_begun" "entries_ok demo_dec demo_filled"
proof -
  have "store_inv demo_dec demo_ready" by (rule store.run_inv [OF run_sane [OF demo_run_ready] store_inv_empty])
  then show i: "entries_ok demo_dec demo_imported" by (simp add: store_inv_def demo_ready_def)
  show b: "entries_ok demo_dec demo_begun"
    using entries_ok_BeginUpload [OF i, of demo_env demo_bundle "''{}''"] demo_begin by (simp add: is_zero_time_def)
  show "entries_ok demo_dec demo_filled"
    using entries_ok_PutChunk [OF b, of demo_env demo_id demo_up 0 "\<lparr>bodyBytes = demo_chunk, bodyFails = False\<rparr>" 19]
      demo_put by simp
qed

theorem put_chunk_once_witness:
  "ChunkDigest demo_env demo_filled demo_id demo_up 0 = Inr (sha256_hex demo_chunk)"
  using put_chunk_once [OF demo_put demo_entries(2), of demo_env "\<lparr>bodyBytes = [], bodyFails = False\<rparr>" 0]
  by auto

section \<open>Completing\<close>

text \<open>The receipt of the chunks that are on disk.\<close>

definition receipt_for :: "env \<Rightarrow> disk \<Rightarrow> string \<Rightarrow> string \<Rightarrow> Manifest \<Rightarrow> string \<Rightarrow> Receipt" where
  "receipt_for E d r u m raw = complete_receipt E r u m raw (chunk_digests E d r u (chunk_indices m))
     (mfPlainSize m + 16 * mfChunkCount m)"

lemma readReceipt_same:
  "get d (completePath r u) = Some (File (JReceipt rc)) \<Longrightarrow> no_faults E \<Longrightarrow> readReceipt E d r u = Inr rc"
  by (simp add: readReceipt_def os_read_file_def no_faults_def)

lemma readReceipt_Inr: "readReceipt E d r u = Inr rc \<Longrightarrow> get d (completePath r u) = Some (File (JReceipt rc))"
  by (auto simp: readReceipt_def os_read_file_def
      split: sum.splits if_splits option.splits node.splits os_error.splits content.splits)

lemma Complete_new:
  assumes "Complete E d r u = (Inr rc, d')" and "entries_ok dec d" and "envManifest E = dec"
    and "get d (completePath r u) = None"
  obtains m raw where "readManifest E d r u = Inr (m, raw)" and "list_all (chunk_present E d r u m) (chunk_indices m)"
    and "rc = receipt_for E d r u m raw" and "d' = put d (completePath r u) (File (JReceipt rc))"
    and "Closed E d r = Inr False"
proof (cases rule: Complete_cases [of E d r u])
  case (error e)
  with assms(1) show thesis by simp
next
  case (replay rc')
  with assms(4) readReceipt_Inr show thesis by force
next
  case (writes m raw n)
  let ?rc = "complete_receipt E r u m raw (chunk_digests E d r u (chunk_indices m)) n"
  have sh: "chunk_shape m" using readManifest_accepted(3) [OF writes(3) assms(2,3)] by (rule accepted_shape)
  have n: "n = mfPlainSize m + 16 * mfChunkCount m" by (rule complete_cipher_bytes [OF writes(6) sh])
  show thesis
  proof (cases rule: write_receipt_cases [of E d r u ?rc])
    case (same e)
    with writes(1) assms(1) have "readReceipt E d r u = Inr rc" by auto
    with assms(4) readReceipt_Inr show thesis by force
  next
    case (new e)
    with writes(1) assms(1) have "rc = ?rc" "d' = put d (completePath r u) (File (JReceipt ?rc))" by auto
    with that [OF writes(3,5)] n writes(2) show thesis by (simp add: receipt_for_def)
  qed
qed

text \<open>C3: A receipt tells the truth: when \<open>Complete\<close> first succeeds, every chunk the manifest asks for is on
  disk with its exact size, the receipt's root is the root of the stored manifest and of the digests of
  those chunks in order, its ciphertext size is the plaintext size plus one tag per chunk, and the only
  change to the data directory is the receipt itself.\<close>

theorem receipt_truthful:
  assumes "Complete E d r u = (Inr rc, d')" and "entries_ok dec d" and "envManifest E = dec"
    and "get d (completePath r u) = None"
  shows "\<exists>m raw. get d (manifestPath r u) = Some (File (Raw raw)) \<and> dec raw = Some m
    \<and> (\<forall>i. 0 \<le> i \<and> i < mfChunkCount m \<longrightarrow> chunk_present E d r u m i)
    \<and> rcReceiptSHA256 rc = ReceiptRoot raw (map (\<lambda>i. sha256 (the (chunk_bytes E d r u i))) (chunk_indices m))
    \<and> rcRequestID rc = r \<and> rcUploadID rc = u \<and> rcPlainSize rc = mfPlainSize m
    \<and> rcChunkCount rc = mfChunkCount m \<and> rcCipherBytes rc = mfPlainSize m + 16 * mfChunkCount m
    \<and> d' = put d (completePath r u) (File (JReceipt rc))"
proof -
  obtain m raw where c: "readManifest E d r u = Inr (m, raw)" "list_all (chunk_present E d r u m) (chunk_indices m)"
      "rc = receipt_for E d r u m raw" "d' = put d (completePath r u) (File (JReceipt rc))"
    by (rule Complete_new [OF assms])
  have "chunk_present E d r u m i" if "0 \<le> i" "i < mfChunkCount m" for i
  proof -
    have "i = int (nat i)" "nat i < nat (mfChunkCount m)" using that by simp_all
    then have "i \<in> set (chunk_indices m)" unfolding chunk_indices_def by (metis atLeastLessThan_iff image_eqI le0 set_map set_upt)
    with c(2) show ?thesis by (simp add: list_all_iff)
  qed
  moreover have "dec raw = Some m" using readManifest_Inr [OF c(1)] assms(3) by metis
  moreover have "get d (manifestPath r u) = Some (File (Raw raw))"
    by (rule readManifest_accepted(4) [OF c(1) assms(2,3)])
  ultimately show ?thesis
    using c(3,4) by (intro exI [of _ m] exI [of _ raw]) (simp add: receipt_for_def complete_receipt_def chunk_digests_def)
qed

lemma demo_no_receipt: "get demo_filled (completePath demo_id demo_up) = None"
  by (simp add: demo_paths get_def demo_disks)

theorem receipt_truthful_witness:
  "\<exists>raw. rcReceiptSHA256 demo_receipt = ReceiptRoot raw (map (\<lambda>i. sha256 (the (chunk_bytes demo_env demo_filled demo_id demo_up i)))
     (chunk_indices demo_manifest)) \<and> rcCipherBytes demo_receipt = 19"
  using receipt_truthful [OF demo_complete demo_entries(3) _ demo_no_receipt]
  by (auto simp: demo_dec_def split: if_splits)

text \<open>C23: Completion is live: when the request is open, nothing fails, and every chunk of the stored manifest is
  on disk with its size, \<open>Complete\<close> succeeds, and repeating it returns the same receipt and changes nothing.\<close>

theorem complete_succeeds:
  assumes "readManifest E d r u = Inr (m, raw)" and "entries_ok dec d" and "envManifest E = dec" and "files.tree d"
    and "no_faults E" and "get d (closurePath r) = None" and "get d (completePath r u) = None"
    and "list_all (chunk_present E d r u m) (chunk_indices m)" and "no_faults E'"
  shows "\<exists>rc d'. Complete E d r u = (Inr rc, d') \<and> rc = receipt_for E d r u m raw
    \<and> Complete E' d' r u = (Inr rc, d')"
proof -
  note acc = readManifest_accepted [OF assms(1-3)]
  have sh: "chunk_shape m" by (rule accepted_shape [OF acc(3)])
  then have pos: "\<not> mfChunkCount m < 0" unfolding chunk_shape_def by linarith
  have f: "\<not> envFault E p q" "\<not> envFault E' p q" for p q using assms(5,9) by (simp_all add: no_faults_def)
  have cl: "Closed E d r = Inr False" using assms(6) acc(1) f by (simp add: Closed_def os_stat_def)
  have rr: "readReceipt E d r u = Inl ErrNotFound" using assms(7) f by (simp add: readReceipt_def os_read_file_def)
  obtain n where n: "complete_chunks E d r u m (chunk_indices m) ([], 0) = Inr (chunk_digests E d r u (chunk_indices m), n)"
    using complete_chunks_present [OF assms(5,8), of "[]" 0] by auto
  let ?rc = "receipt_for E d r u m raw" and ?d' = "put d (completePath r u) (File (JReceipt (receipt_for E d r u m raw)))"
  have rc: "complete_receipt E r u m raw (chunk_digests E d r u (chunk_indices m)) n = ?rc"
    using complete_cipher_bytes [OF n sh] by (simp add: receipt_for_def)
  have "get d (uploadDir r u) = Some Dir"
  proof -
    have "manifestPath r u = [] \<or> get d (butlast (manifestPath r u)) = Some Dir"
      using assms(4) acc(4) unfolding files.tree_def by blast
    then show ?thesis by (simp add: manifestPath_def)
  qed
  then have "writeNew E d (completePath r u) (JReceipt ?rc) = (Inr (), ?d')"
    using assms(5,7) by (intro writeNew_no_faults) (simp_all add: completePath_def)
  then have "write_receipt E d r u ?rc = (Inr ?rc, ?d')" by (simp add: write_receipt_def)
  then have first: "Complete E d r u = (Inr ?rc, ?d')"
    using cl rr assms(1) pos n rc by (simp add: Complete_def chunk_indices_def)
  have "get ?d' (closurePath r) = None"
    using assms(6) acc by (simp add: closurePath_valid upload_file_defs uploadDir_valid)
  then have cl': "Closed E' ?d' r = Inr False" using acc(1) f by (simp add: Closed_def os_stat_def)
  have "readReceipt E' ?d' r u = Inr ?rc" using assms(9) by (intro readReceipt_same) simp_all
  then have "Complete E' ?d' r u = (Inr ?rc, ?d')" using cl' by (simp add: Complete_def)
  with first show ?thesis by blast
qed

theorem complete_succeeds_witness:
  "\<exists>rc d'. Complete demo_env demo_filled demo_id demo_up = (Inr rc, d') \<and> Complete demo_env d' demo_id demo_up = (Inr rc, d')"
proof -
  have "files.tree demo_filled"
  proof -
    have "store_inv demo_dec demo_ready" by (rule store.run_inv [OF run_sane [OF demo_run_ready] store_inv_empty])
    then have "files.tree demo_imported" by (simp add: store_inv_def demo_ready_def)
    then have "files.tree demo_begun" using tree_BeginUpload [of demo_imported demo_env demo_bundle "''{}''"] demo_begin by simp
    then show ?thesis
      using tree_PutChunk [of demo_begun demo_env demo_id demo_up 0 "\<lparr>bodyBytes = demo_chunk, bodyFails = False\<rparr>" 19] demo_put by simp
  qed
  moreover have "list_all (chunk_present demo_env demo_filled demo_id demo_up demo_manifest) (chunk_indices demo_manifest)"
    by (simp add: chunk_indices_def chunk_present_def chunk_bytes_def demo_chunkPath demo_size get_def demo_disks demo_chunk_def)
  moreover have "get demo_filled (closurePath demo_id) = None" by (simp add: demo_paths get_def demo_disks)
  ultimately show ?thesis
    using complete_succeeds [OF demo_readManifest(2) demo_entries(3) _ _ demo_sane(3) _ demo_no_receipt _ demo_sane(3)]
    by simp blast
qed

end
