(* ===== verification/StorePurge.thy ===== *)
theory StorePurge
  imports StoreUploads
begin

text \<open>
  What the recipient and the operator do with uploads: listing receipts, acknowledging, purging; and the
  rule that submissions only ever add to the data directory.
\<close>

section \<open>Submissions only add\<close>

lemma tree_ancestor:
  assumes "files.tree d" and "get d q \<noteq> None" and "prefix p q" and "p \<noteq> q"
  shows "get d p = Some Dir"
  using assms
proof (induction q rule: rev_induct)
  case Nil
  then show ?case by simp
next
  case (snoc x q)
  have b: "get d q = Some Dir"
    using snoc.prems(1,2) unfolding files.tree_def by (metis butlast_snoc not_None_eq snoc_eq_iff_butlast)
  show ?case
  proof (cases "p = q")
    case False
    then have "prefix p q" using snoc.prems(3,4) by (simp add: prefix_snoc)
    with snoc.IH snoc.prems(1) b False show ?thesis by simp
  qed (use b in simp)
qed

lemma begin_create_keeps:
  assumes "files.tree d" and v: "ValidID (rbID b)" "ValidID (mfUploadID m)" and "get d q = Some n"
  shows "get (snd (begin_create E d b m raw (uploadDir (rbID b) (mfUploadID m)))) q = Some n"
proof (cases "prefix (uploadDir (rbID b) (mfUploadID m)) q")
  case False
  let ?c = "snd (begin_create E d b m raw (uploadDir (rbID b) (mfUploadID m)))"
  show ?thesis
  proof (cases "q \<in> upload_parents (rbID b)")
    case False
    then have "get ?c q = get d q"
      using \<open>\<not> prefix _ q\<close> by (intro changes_other [OF changes_begin_create [OF v]]) (simp add: upload_paths_def)
    with assms(4) show ?thesis by simp
  next
    case True
    let ?P = "\<lambda>d d'. get d q = Some n \<longrightarrow> get d' q = Some n"
    have "frame (\<lambda>_ :: unit. ?P)" by unfold_locales auto
    from frame.begin_create [OF this] have "?P d ?c"
      using grows_keeps [OF grows_mkdir_all] grows_keeps [OF grows_mkdir [OF UNIV_I]] grows_keeps [OF grows_begin_files]
        get_remove_all_other [OF \<open>\<not> prefix _ q\<close>] by simp
    with assms(4) show ?thesis by simp
  qed
next
  case True
  let ?dir = "uploadDir (rbID b) (mfUploadID m)"
  have dir: "get d ?dir \<noteq> None"
    using tree_ancestor [OF assms(1) _ True] assms(4) by (cases "?dir = q") auto
  obtain r d1 where all: "os_mkdir_all E d (requestUploadDir (rbID b)) = (r, d1)" by fastforce
  have g: "grows {x. prefix x (requestUploadDir (rbID b))} d d1" using grows_mkdir_all [of "requestUploadDir (rbID b)" d E] all by simp
  have k: "get d1 q = Some n" by (rule grows_keeps [OF g assms(4)])
  have "get d1 ?dir \<noteq> None" using dir g unfolding grows_def by metis
  then have "\<exists>e. os_mkdir E d1 ?dir = (Inl e, d1)" by (auto simp: os_mkdir_def)
  then obtain e where e: "os_mkdir E d1 ?dir = (Inl e, d1)" by blast
  show ?thesis
    using k assms(4) e by (auto simp: begin_create_def all and_then_def os_err_def split: sum.splits os_error.splits)
qed

lemma BeginUpload_keeps:
  assumes "files.tree d" and "get d q = Some n"
  shows "get (snd (BeginUpload E d b raw)) q = Some n"
proof (cases rule: BeginUpload_locked [of E d b raw])
  case same
  with assms show ?thesis by simp
next
  case (locked m)
  then have v: "ValidID (rbID b)" "ValidID (mfUploadID m)" by (simp_all add: validateBundle_ok validateManifest_ok)
  from v show ?thesis
  proof (cases rule: begin_locked_create [where E = E and d = d and raw = raw])
    case (same x)
    with locked assms show ?thesis by simp
  next
    case create
    with locked begin_create_keeps [OF assms(1) v assms(2)] show ?thesis by simp
  qed
qed

text \<open>C14: Submissions are write-once: importing, beginning, storing a chunk and completing never change or
  remove an entry that exists, whatever fails on the way; in particular a stored chunk, a manifest and a
  receipt stay as they are.\<close>

theorem submissions_write_once:
  assumes "get d q = Some n" and "files.tree d"
  shows "get (snd (ImportRequest E d b)) q = Some n \<and> get (snd (BeginUpload E d b raw)) q = Some n
    \<and> get (snd (PutChunk E d r u i bd len)) q = Some n \<and> get (snd (Complete E d r u)) q = Some n"
  using BeginUpload_keeps [OF assms(2,1)] grows_keeps [OF grows_ImportRequest assms(1)]
    grows_keeps [OF grows_PutChunk assms(1)] grows_keeps [OF grows_Complete assms(1)] by simp

lemma demo_tree: "files.tree demo_imported" "files.tree demo_begun" "files.tree demo_filled" "files.tree demo_completed"
proof -
  have "store_inv demo_dec demo_ready" by (rule store.run_inv [OF run_sane [OF demo_run_ready] store_inv_empty])
  then show i: "files.tree demo_imported" by (simp add: store_inv_def demo_ready_def)
  show b: "files.tree demo_begun" using tree_BeginUpload [OF i, of demo_env demo_bundle "''{}''"] demo_begin by simp
  show f: "files.tree demo_filled"
    using tree_PutChunk [OF b, of demo_env demo_id demo_up 0 "\<lparr>bodyBytes = demo_chunk, bodyFails = False\<rparr>" 19] demo_put by simp
  show "files.tree demo_completed" using tree_Complete [OF f, of demo_env demo_id demo_up] demo_complete by simp
qed

theorem submissions_write_once_witness:
  "get (snd (Complete demo_env demo_filled demo_id demo_up)) (chunkPath demo_id demo_up 0) = Some (File (Raw demo_chunk))"
proof -
  have "get demo_filled (chunkPath demo_id demo_up 0) = Some (File (Raw demo_chunk))"
    by (simp add: demo_chunkPath get_def demo_disks)
  from submissions_write_once [OF this demo_tree(3)] show ?thesis by blast
qed

section \<open>Listing receipts\<close>

lemma upload_entries_dir:
  assumes "os_read_dir E d (requestUploadDir r) = Inr es" and "ValidID r"
  shows "u \<in> set (upload_entries es) \<longleftrightarrow> ValidID u \<and> get d (uploadDir r u) = Some Dir"
proof -
  have "es = map (\<lambda>x. (x, get d (requestUploadDir r @ [x]) = Some Dir)) (children d (requestUploadDir r))"
    using os_read_dir_Inr [OF assms(1)] by simp
  then have "upload_entries es
      = filter (\<lambda>x. get d (requestUploadDir r @ [x]) = Some Dir \<and> ValidID x) (children d (requestUploadDir r))"
    using upload_entries_children by simp
  then have "u \<in> set (upload_entries es) \<longleftrightarrow> get d (requestUploadDir r @ [u]) = Some Dir \<and> ValidID u"
    by (auto simp: set_children)
  then show ?thesis using assms(2) by (auto simp: uploadDir_valid requestUploadDir_valid)
qed

text \<open>C36: \<open>ListReceipts\<close> returns exactly the receipts of the request's upload directories that can be read,
  each with its acknowledgement mark, ordered by completion time.\<close>

theorem list_receipts_exact:
  assumes "ListReceipts E d r = Inr rs" and "files.tree d"
  shows "sorted (map rcCompletedAt rs)
    \<and> set rs = {rc\<lparr>rcAcknowledged := is_ok (os_stat E d (ackPath r u))\<rparr> | rc u.
        ValidID u \<and> get d (uploadDir r u) = Some Dir \<and> readReceipt E d r u = Inr rc}"
proof -
  have v: "ValidID r" using assms(1) by (auto simp: ListReceipts_def split: if_splits)
  show ?thesis
  proof (cases "os_read_dir E d (requestUploadDir r)")
    case (Inl e)
    then have "e = NotExist" and rs: "rs = []"
      using assms(1) v by (auto simp: ListReceipts_def split: os_error.splits)
    then have n: "get d (requestUploadDir r) = None"
      using Inl by (auto simp: os_read_dir_def split: if_splits option.splits node.splits)
    have "get d (uploadDir r u) \<noteq> Some Dir" if "ValidID u" for u
      using tree_ancestor [OF assms(2), of "uploadDir r u" "requestUploadDir r"] n v that
      by (auto simp: uploadDir_valid requestUploadDir_valid)
    with rs show ?thesis by auto
  next
    case (Inr es)
    then have rs: "rs = sort_key rcCompletedAt (List.map_filter (listed_receipt E d r) (upload_entries es))"
      using assms(1) v by (simp add: ListReceipts_def)
    have l: "listed_receipt E d r u = Some x \<longleftrightarrow> (\<exists>rc. readReceipt E d r u = Inr rc
        \<and> x = rc\<lparr>rcAcknowledged := is_ok (os_stat E d (ackPath r u))\<rparr>)" for u x
      by (auto simp: listed_receipt_def split: sum.splits)
    have "set (List.map_filter (listed_receipt E d r) (upload_entries es))
        = {x. \<exists>u \<in> set (upload_entries es). listed_receipt E d r u = Some x}"
      unfolding List.map_filter_def by force
    then have "set (List.map_filter (listed_receipt E d r) (upload_entries es))
        = {rc\<lparr>rcAcknowledged := is_ok (os_stat E d (ackPath r u))\<rparr> | rc u.
            ValidID u \<and> get d (uploadDir r u) = Some Dir \<and> readReceipt E d r u = Inr rc}"
      unfolding l upload_entries_dir [OF Inr v] Bex_def by blast
    then show ?thesis by (simp add: rs)
  qed
qed

theorem list_receipts_exact_witness: "\<exists>rs. ListReceipts demo_env demo_completed demo_id = Inr rs \<and> sorted (map rcCompletedAt rs)"
proof -
  have "get demo_completed (requestUploadDir demo_id) = Some Dir" by (simp add: requestUploadDir_valid get_def demo_disks)
  then obtain rs where "ListReceipts demo_env demo_completed demo_id = Inr rs"
    by (simp add: ListReceipts_def os_read_dir_def)
  with list_receipts_exact [OF this demo_tree(4)] show ?thesis by blast
qed

section \<open>Acknowledging\<close>

lemma remove_all_no_faults:
  assumes "no_faults E"
  shows "os_remove_all E d p = (Inr (), del d (prefix p))"
proof -
  have s: "\<not> stuck E d q" for q using assms by (simp add: stuck_def no_faults_def list_ex_iff)
  have "\<not> list_ex (\<lambda>e. prefix p (fst e)) (del d (prefix p))" by (simp add: list_ex_iff del_def)
  then show ?thesis by (simp add: os_remove_all_def Let_def s)
qed

text \<open>C37: An acknowledgement needs a readable receipt, touches no other upload, and, when it succeeds, either
  leaves the acknowledgement on disk or, if the request deletes after collection, nothing of the upload.\<close>

theorem acknowledge_effect:
  assumes "Acknowledge E d b u = (Inr (), d')"
  shows "is_ok (readReceipt E d (rbID b) u)
    \<and> (\<forall>q. \<not> prefix (uploadDir (rbID b) u) q \<longrightarrow> get d' q = get d q)
    \<and> (if rbDeleteAfterCollect b then \<forall>q. prefix (uploadDir (rbID b) u) q \<longrightarrow> get d' q = None
       else get d' (ackPath (rbID b) u) \<noteq> None)"
proof -
  have "snd (Acknowledge E d b u) = d'" using assms by simp
  then have other: "get d' q = get d q" if "\<not> prefix (uploadDir (rbID b) u) q" for q
    using changes_other [OF changes_Acknowledge [of b u d E], of q] that \<open>snd _ = d'\<close>
    unfolding upload_paths_def by simp
  obtain rc where rr: "readReceipt E d (rbID b) u = Inr rc" and g: "is_ok (validateBundle b)" "ValidID u"
    using assms by (auto simp: Acknowledge_def split: if_splits sum.splits)
  obtain x d1 where w: "writeNew E d (ackPath (rbID b) u) (JAck (envNow E)) = (x, d1)" by fastforce
  have x: "x = Inl Exist \<or> x = Inr ()"
    using assms rr g w by (cases x) (auto simp: Acknowledge_def split: if_splits)
  then have a: "get d1 (ackPath (rbID b) u) \<noteq> None"
  proof
    assume "x = Inl Exist"
    then have "get d (ackPath (rbID b) u) \<noteq> None" using writeNew_exist [of E d "ackPath (rbID b) u" "JAck (envNow E)"] w by simp
    then show ?thesis using get_writeNew [of d "ackPath (rbID b) u" E "ackPath (rbID b) u"] w by (metis snd_conv)
  next
    assume "x = Inr ()"
    then show ?thesis using writeNew_ok(1) w by fastforce
  qed
  have rest: "if rbDeleteAfterCollect b then os_remove_all E d1 (uploadDir (rbID b) u) = (Inr (), d') else d' = d1"
    using assms rr g w x by (auto simp: Acknowledge_def split: if_splits)
  show ?thesis
  proof (cases "rbDeleteAfterCollect b")
    case True
    with rest have "os_remove_all E d1 (uploadDir (rbID b) u) = (Inr (), d')" by simp
    with remove_all_ok other rr True show ?thesis by auto
  next
    case False
    with rest a other rr show ?thesis by auto
  qed
qed

theorem acknowledge_effect_witness:
  "\<exists>d'. Acknowledge demo_env demo_completed demo_bundle demo_up = (Inr (), d')
    \<and> get d' (manifestPath demo_id demo_up) = None"
proof -
  have "get demo_completed (completePath demo_id demo_up) = Some (File (JReceipt demo_receipt))"
    by (simp add: demo_paths get_def demo_disks)
  then have rr: "readReceipt demo_env demo_completed demo_id demo_up = Inr demo_receipt" by (rule readReceipt_same) simp
  obtain d1 where w: "writeNew demo_env demo_completed (ackPath demo_id demo_up) (JAck (Time 10)) = (Inr (), d1)"
    by (simp add: writeNew_def write_temp_rename_def os_stat_def demo_paths get_def demo_disks)
  have "\<exists>d'. Acknowledge demo_env demo_completed demo_bundle demo_up = (Inr (), d')"
    using rr w by (simp add: Acknowledge_def remove_all_no_faults)
  then obtain d' where d': "Acknowledge demo_env demo_completed demo_bundle demo_up = (Inr (), d')" by blast
  have "prefix (uploadDir demo_id demo_up) (manifestPath demo_id demo_up)" by (simp add: manifestPath_def)
  with acknowledge_effect [OF d'] d' show ?thesis by auto
qed

section \<open>Purging\<close>

lemma upload_dirs_apart:
  assumes "ValidID r" "ValidID u" "ValidID r'" "ValidID u'" and "(r, u) \<noteq> (r', u')"
    and "prefix (uploadDir r u) q"
  shows "\<not> prefix (uploadDir r' u') q"
proof
  assume "prefix (uploadDir r' u') q"
  then have "prefix (uploadDir r u) (uploadDir r' u') \<or> prefix (uploadDir r' u') (uploadDir r u)"
    using assms(6) prefix_same_cases by blast
  with assms show False by (auto simp: uploadDir_valid)
qed

text \<open>Deciding about an upload, and measuring it, looks at the request's bundle and at the upload only.\<close>

lemma purge_due_cong:
  assumes "get d' (requestPath r) = get d (requestPath r)" "get d' (closedRequestPath r) = get d (closedRequestPath r)"
    "get d' (statePath r u) = get d (statePath r u)" "get d' (completePath r u) = get d (completePath r u)"
  shows "purge_due E d' st r u = purge_due E d st r u"
proof -
  have "readRequestPath E d' r (requestPath r) = readRequestPath E d r (requestPath r)"
    "readRequestPath E d' r (closedRequestPath r) = readRequestPath E d r (closedRequestPath r)"
    using assms by (simp_all add: readRequestPath_def os_read_file_def)
  then have "RequestIncludingClosed E d' r = RequestIncludingClosed E d r"
    by (simp only: RequestIncludingClosed_def Request_def)
  moreover have "readServerState E d' r u = readServerState E d r u"
    "fileExists E d' (completePath r u) = fileExists E d (completePath r u)"
    using assms by (simp_all add: readServerState_def os_read_file_def fileExists_def os_stat_def)
  ultimately show ?thesis by (simp only: purge_due_def)
qed

definition purge_one :: "env \<Rightarrow> disk \<Rightarrow> PurgeResult \<Rightarrow> string \<times> string \<Rightarrow> PurgeResult" where
  "purge_one E d res ru = res\<lparr>prUploadDirs := prUploadDirs res @ [uploadDir (fst ru) (snd ru)],
     prBytes := wrap64 (prBytes res + dirSize E d (uploadDir (fst ru) (snd ru)))\<rparr>"

lemma dirSize_del:
  assumes "\<And>q. prefix p q \<Longrightarrow> \<not> P q"
  shows "dirSize E (del d P) p = dirSize E d p"
  using assms unfolding dirSize_def del_def
  by (induction d) auto

lemma due_after_removal:
  assumes "ValidID r" "ValidID u" "ValidID r'" "ValidID u'" and "(r, u) \<noteq> (r', u')"
  shows "purge_due E (del d (prefix (uploadDir r' u'))) st r u = purge_due E d st r u"
    and "dirSize E (del d (prefix (uploadDir r' u'))) (uploadDir r u) = dirSize E d (uploadDir r u)"
proof -
  have p: "\<not> prefix (uploadDir r' u') (statePath r u)" "\<not> prefix (uploadDir r' u') (completePath r u)"
    by (rule upload_dirs_apart [OF assms], simp add: statePath_def completePath_def)+
  show "purge_due E (del d (prefix (uploadDir r' u'))) st r u = purge_due E d st r u"
    by (rule purge_due_cong) (use p assms in \<open>simp_all add: request_paths uploadDir_valid\<close>)
  show "dirSize E (del d (prefix (uploadDir r' u'))) (uploadDir r u) = dirSize E d (uploadDir r u)"
    by (rule dirSize_del) (use upload_dirs_apart [OF assms] in blast)
qed

lemma purge_each_spec:
  assumes "no_faults E" and "distinct us" and "\<forall>(r, u) \<in> set us. ValidID r \<and> ValidID u"
  shows "purge_each E a st us res d =
    ((foldl (purge_one E d) res (filter (\<lambda>(r, u). purge_due E d st r u) us), None),
     if a then del d (\<lambda>q. \<exists>(r, u) \<in> set us. purge_due E d st r u \<and> prefix (uploadDir r u) q) else d)"
  using assms(2,3)
proof (induction us arbitrary: res d)
  case Nil
  show ?case by (simp add: del_def)
next
  case (Cons ru us)
  obtain r u where ru: "ru = (r, u)" by fastforce
  then have v: "ValidID r" "ValidID u" and vs: "\<forall>(r, u) \<in> set us. ValidID r \<and> ValidID u" and ds: "distinct us"
    using Cons.prems by auto
  let ?d = "del d (prefix (uploadDir r u))"
  have apart: "(r', u') \<noteq> (r, u)" if "(r', u') \<in> set us" for r' u' using Cons.prems(1) ru that by auto
  have same: "purge_due E ?d st r' u' = purge_due E d st r' u'" "dirSize E ?d (uploadDir r' u') = dirSize E d (uploadDir r' u')"
    if "(r', u') \<in> set us" for r' u'
    using due_after_removal [of r' u' r u] apart [OF that] vs that v by auto
  have fl: "filter (\<lambda>(r, u). purge_due E ?d st r u) us = filter (\<lambda>(r, u). purge_due E d st r u) us"
    by (rule filter_cong) (use same in auto)
  have fo: "foldl (purge_one E ?d) res xs = foldl (purge_one E d) res xs" if "set xs \<subseteq> set us" for res xs
    using that by (induction xs arbitrary: res) (auto simp: purge_one_def same)
  have dl: "del ?d (\<lambda>q. \<exists>(r, u) \<in> set us. purge_due E ?d st r u \<and> prefix (uploadDir r u) q)
      = del d (\<lambda>q. prefix (uploadDir r u) q \<or> (\<exists>(r, u) \<in> set us. purge_due E d st r u \<and> prefix (uploadDir r u) q))"
  proof -
    have "(\<exists>(r, u) \<in> set us. purge_due E ?d st r u \<and> prefix (uploadDir r u) q)
        \<longleftrightarrow> (\<exists>(r, u) \<in> set us. purge_due E d st r u \<and> prefix (uploadDir r u) q)" for q
      using same by fastforce
    then show ?thesis by (simp add: del_def)
  qed
  show ?case
  proof (cases "purge_due E d st r u")
    case False
    then show ?thesis using Cons.IH [OF ds vs] ru by simp
  next
    case True
    note ih = Cons.IH [OF ds vs]
    have po: "res\<lparr>prUploadDirs := prUploadDirs res @ [uploadDir r u],
        prBytes := wrap64 (prBytes res + dirSize E d (uploadDir r u))\<rparr> = purge_one E d res (r, u)"
      by (simp add: purge_one_def)
    show ?thesis
    proof (cases a)
      case False
      then show ?thesis using \<open>purge_due E d st r u\<close> ru ih by (simp add: Let_def po)
    next
      case True
      then show ?thesis
        using \<open>purge_due E d st r u\<close> ru ih [where d = ?d] remove_all_no_faults [OF assms(1)]
        by (simp add: Let_def po fl fo dl subset_eq)
    qed
  qed
qed

lemma distinct_pairs: "distinct rs \<Longrightarrow> \<forall>r \<in> set rs. distinct (f r) \<Longrightarrow> distinct (concat (map (\<lambda>r. map (Pair r) (f r)) rs))"
  by (induction rs) (auto simp: distinct_map inj_on_def)

text \<open>The uploads that \<open>Purge\<close> looks at.\<close>

lemma purge_list:
  assumes "no_faults E" and "get d uploadsDir = Some Dir"
  shows "\<exists>us. distinct us \<and> (\<forall>(r, u) \<in> set us. ValidID r \<and> ValidID u)
    \<and> (\<forall>a st. Purge E d a st = purge_each E a st us \<lparr>prUploadDirs = [], prBytes = 0\<rparr> d)
    \<and> (\<forall>r u. (r, u) \<in> set us \<longleftrightarrow> ValidID r \<and> ValidID u \<and> get d [''uploads'', r] = Some Dir
      \<and> get d (uploadDir r u) = Some Dir)"
proof -
  have f: "\<not> envFault E p q" for p q using assms(1) by (simp add: no_faults_def)
  define g where "g p = filter (\<lambda>x. get d (p @ [x]) = Some Dir \<and> ValidID x) (children d p)" for p
  let ?us = "concat (map (\<lambda>r. map (Pair r) (g [''uploads'', r])) (g uploadsDir))"
  have rd: "os_read_dir E d p = Inr (map (\<lambda>x. (x, get d (p @ [x]) = Some Dir)) (children d p))"
    if "get d p = Some Dir" for p
    using that f by (simp add: os_read_dir_def)
  have j: "path_join (uploadsDir @ [r]) = [''uploads'', r]" if "ValidID r" for r
    using requestUploadDir_valid [OF that] that by (simp add: requestUploadDir_def)
  have pu: "purge_uploads E d r = map (Pair r) (g [''uploads'', r])" if "r \<in> set (g uploadsDir)" for r
  proof -
    have k: "ValidID r" "get d [''uploads'', r] = Some Dir" using that by (simp_all add: g_def uploadsDir_def)
    show ?thesis
      unfolding purge_uploads_def j [OF k(1)] rd [OF k(2)] sum.case
      by (simp only: upload_entries_children g_def)
  qed
  have e: "upload_entries (map (\<lambda>x. (x, get d (uploadsDir @ [x]) = Some Dir)) (children d uploadsDir)) = g uploadsDir"
    unfolding g_def by (rule upload_entries_children)
  have "map (purge_uploads E d) (g uploadsDir) = map (\<lambda>r. map (Pair r) (g [''uploads'', r])) (g uploadsDir)"
    by (rule map_cong) (simp_all add: pu)
  then have p: "Purge E d a st = purge_each E a st ?us \<lparr>prUploadDirs = [], prBytes = 0\<rparr> d" for a st
    unfolding Purge_def Let_def rd [OF assms(2)] sum.case e by (simp only:)
  have m: "(r, u) \<in> set ?us \<longleftrightarrow> ValidID r \<and> ValidID u \<and> get d [''uploads'', r] = Some Dir
      \<and> get d (uploadDir r u) = Some Dir" for r u
    by (auto simp: g_def set_children uploadsDir_def uploadDir_valid)
  have "distinct ?us" by (rule distinct_pairs) (simp_all add: g_def distinct_children)
  moreover have "\<forall>(r, u) \<in> set ?us. ValidID r \<and> ValidID u" using m by auto
  ultimately show ?thesis using p m by blast
qed

lemma purge_report:
  "prUploadDirs (foldl (purge_one E d) res us) = prUploadDirs res @ map (\<lambda>(r, u). uploadDir r u) us"
  "in_int64 (prBytes res) \<Longrightarrow> prBytes (foldl (purge_one E d) res us)
     = wrap64 (prBytes res + sum_list (map (\<lambda>(r, u). dirSize E d (uploadDir r u)) us))"
proof -
  show "prUploadDirs (foldl (purge_one E d) res us) = prUploadDirs res @ map (\<lambda>(r, u). uploadDir r u) us"
    by (induction us arbitrary: res) (auto simp: purge_one_def)
  show "in_int64 (prBytes res) \<Longrightarrow> prBytes (foldl (purge_one E d) res us)
     = wrap64 (prBytes res + sum_list (map (\<lambda>(r, u). dirSize E d (uploadDir r u)) us))"
    by (induction us arbitrary: res) (auto simp: purge_one_def in_int64_wrap64 wrap64_id wrap64_add add.assoc)
qed

lemma uploadDir_inj:
  "inj_on (\<lambda>(r, u). uploadDir r u) {(r, u). ValidID r \<and> ValidID u}"
  by (auto simp: inj_on_def uploadDir_valid)

text \<open>C29: \<open>Purge\<close> reports exactly what it removes. The dry run and the real run give the same report without an
  error: each upload directory of a valid name that is due, once, and the sum of their sizes in 64-bit arithmetic.
  The dry run changes nothing; the real run removes these directories with all below them and nothing else.\<close>

theorem purge_exact:
  fixes E :: env and d :: disk and st :: duration
  assumes "no_faults E" and "get d uploadsDir = Some Dir"
  defines "due \<equiv> {(r, u). ValidID r \<and> ValidID u \<and> get d [''uploads'', r] = Some Dir \<and> get d (uploadDir r u) = Some Dir
    \<and> purge_due E d st r u}"
  shows "snd (Purge E d False st) = d \<and> fst (Purge E d True st) = fst (Purge E d False st)
    \<and> snd (fst (Purge E d True st)) = None
    \<and> distinct (prUploadDirs (fst (fst (Purge E d True st))))
    \<and> set (prUploadDirs (fst (fst (Purge E d True st)))) = (\<lambda>(r, u). uploadDir r u) ` due
    \<and> prBytes (fst (fst (Purge E d True st))) = wrap64 (\<Sum>p \<in> set (prUploadDirs (fst (fst (Purge E d True st)))). dirSize E d p)
    \<and> (\<forall>q. get (snd (Purge E d True st)) q = (if \<exists>(r, u) \<in> due. prefix (uploadDir r u) q then None else get d q))"
proof -
  obtain us where us: "distinct us" "\<forall>(r, u) \<in> set us. ValidID r \<and> ValidID u"
    and p: "\<forall>a st. Purge E d a st = purge_each E a st us \<lparr>prUploadDirs = [], prBytes = 0\<rparr> d"
    and m: "\<forall>r u. (r, u) \<in> set us \<longleftrightarrow> ValidID r \<and> ValidID u \<and> get d [''uploads'', r] = Some Dir
      \<and> get d (uploadDir r u) = Some Dir"
    using purge_list [OF assms(1,2)] by (elim exE conjE)
  define gone where "gone = filter (\<lambda>(r, u). purge_due E d st r u) us"
  define dirs where "dirs = map (\<lambda>(r, u). uploadDir r u) gone"
  have due: "due = set gone" using m by (auto simp: due_def gone_def)
  have valid: "set gone \<subseteq> {(r, u). ValidID r \<and> ValidID u}" using us(2) by (auto simp: gone_def)
  have d: "distinct dirs"
    unfolding dirs_def using us(1) inj_on_subset [OF uploadDir_inj valid] by (simp add: distinct_map gone_def)
  have "map (\<lambda>(r, u). dirSize E d (uploadDir r u)) gone = map (dirSize E d) dirs"
    by (simp add: dirs_def comp_def case_prod_beta)
  then have sizes: "sum_list (map (\<lambda>(r, u). dirSize E d (uploadDir r u)) gone) = (\<Sum>p \<in> set dirs. dirSize E d p)"
    using sum_list_distinct_conv_sum_set [OF d, of "dirSize E d"] by simp
  define rep where "rep = foldl (purge_one E d) \<lparr>prUploadDirs = [], prBytes = 0\<rparr> gone"
  have rep: "prUploadDirs rep = dirs" "prBytes rep = wrap64 (\<Sum>p \<in> set dirs. dirSize E d p)"
    using purge_report [where E = E and d = d and res = "\<lparr>prUploadDirs = [], prBytes = 0\<rparr>" and us = gone] sizes
    by (simp_all add: rep_def dirs_def in_int64_def)
  have run: "Purge E d a st = ((rep, None),
      if a then del d (\<lambda>q. \<exists>(r, u) \<in> set us. purge_due E d st r u \<and> prefix (uploadDir r u) q) else d)" for a
    by (simp add: p purge_each_spec [OF assms(1) us] rep_def gone_def)
  have "(\<exists>(r, u) \<in> set us. purge_due E d st r u \<and> prefix (uploadDir r u) q) \<longleftrightarrow> (\<exists>(r, u) \<in> due. prefix (uploadDir r u) q)" for q
    unfolding due gone_def by auto
  then show ?thesis using d rep by (simp add: run due dirs_def)
qed

theorem purge_exact_witness:
  "uploadDir demo_id demo_up \<in> set (prUploadDirs (fst (fst (Purge (demo_env\<lparr>envNow := Time 2000\<rparr>) demo_completed True 0))))
    \<and> get (snd (Purge (demo_env\<lparr>envNow := Time 2000\<rparr>) demo_completed True 0)) (manifestPath demo_id demo_up) = None"
proof -
  let ?E = "demo_env\<lparr>envNow := Time 2000\<rparr>"
  have nf: "no_faults ?E" by (simp add: no_faults_def demo_env_def)
  have up: "get demo_completed uploadsDir = Some Dir" by (simp add: uploadsDir_def get_def demo_disks)
  have "RequestIncludingClosed ?E demo_completed demo_id = Inr demo_bundle"
    by (simp add: RequestIncludingClosed_def Request_def readRequestPath_def os_read_file_def demo_paths get_def demo_disks)
  then have "purge_due ?E demo_completed 0 demo_id demo_up" by (simp add: purge_due_def after_def)
  moreover have "get demo_completed [''uploads'', demo_id] = Some Dir" "get demo_completed (uploadDir demo_id demo_up) = Some Dir"
    by (simp_all add: uploadDir_valid get_def demo_disks)
  ultimately have due: "(demo_id, demo_up) \<in> {(r, u). ValidID r \<and> ValidID u \<and> get demo_completed [''uploads'', r] = Some Dir
      \<and> get demo_completed (uploadDir r u) = Some Dir \<and> purge_due ?E demo_completed 0 r u}" by simp
  have "prefix (uploadDir demo_id demo_up) (manifestPath demo_id demo_up)" by (simp add: manifestPath_def)
  with purge_exact [OF nf up, of 0] due show ?thesis by (force simp del: mem_Collect_eq)
qed

text \<open>When a bundle cannot be read, \<open>Purge\<close> takes the request for expired: a passing read error of one file
  removes uploads that are live.\<close>

lemma purge_fails_open:
  assumes "envFault E OpRead (requestPath r)" and "ValidID r"
  shows "purge_due E d st r u"
proof -
  have "Request E d r = Inl (ErrOS IOError)"
    using assms by (simp add: Request_def readRequestPath_def os_read_file_def)
  then show ?thesis by (simp add: purge_due_def RequestIncludingClosed_def)
qed

end
