(* ===== verification/StoreAccess.thy ===== *)
theory StoreAccess
  imports StoreBehaviour
begin

text \<open>
  Access to a request over runs: bundles move from the active to the closed requests and never change or
  vanish, so a token that opened a request goes on to open it.
\<close>

section \<open>Bundles are kept\<close>

definition bundles_kept :: "disk \<Rightarrow> disk \<Rightarrow> bool" where
  "bundles_kept d d' \<longleftrightarrow> (\<forall>i n. ValidID i \<longrightarrow>
     (get d (closedRequestPath i) = Some n \<longrightarrow> get d' (closedRequestPath i) = Some n)
     \<and> (get d (requestPath i) = Some n \<longrightarrow> get d' (requestPath i) = Some n \<or> get d' (closedRequestPath i) = Some n))"

lemma bundles_refl [simp]: "bundles_kept d d"
  by (simp add: bundles_kept_def)

lemma bundles_trans: "bundles_kept d d1 \<Longrightarrow> bundles_kept d1 d2 \<Longrightarrow> bundles_kept d d2"
  unfolding bundles_kept_def by metis

lemma bundles_grows: "grows S d d' \<Longrightarrow> bundles_kept d d'"
  using grows_keeps unfolding bundles_kept_def by metis

lemma bundles_changes:
  assumes "changes S d d'" and "\<And>i. ValidID i \<Longrightarrow> closedRequestPath i \<notin> S \<and> requestPath i \<notin> S"
  shows "bundles_kept d d'"
  using assms unfolding bundles_kept_def changes_def by metis

lemma bundles_uploads:
  "changes (upload_parents r \<union> upload_paths r u) d d' \<Longrightarrow> ValidID r \<Longrightarrow> ValidID u \<Longrightarrow> bundles_kept d d'"
  by (rule bundles_changes) (use upload_paths_apart in blast)+

text \<open>The move of \<open>CloseRequest\<close> happens only when the name among the closed requests is free.\<close>

lemma bundles_move:
  assumes "ValidID i" and "get d (closedRequestPath i) = None"
  shows "bundles_kept d (snd (move_closed E d i))"
  unfolding bundles_kept_def
proof (intro allI impI)
  fix j n assume j: "ValidID j"
  let ?d' = "snd (move_closed E d i)"
  show "(get d (closedRequestPath j) = Some n \<longrightarrow> get ?d' (closedRequestPath j) = Some n)
      \<and> (get d (requestPath j) = Some n \<longrightarrow> get ?d' (requestPath j) = Some n \<or> get ?d' (closedRequestPath j) = Some n)"
  proof (cases "j = i")
    case True
    then show ?thesis using assms
      by (auto simp: move_closed_def and_then_def os_err_def os_rename_def request_paths split: ok_split)
  next
    case False
    then have "requestPath j \<noteq> requestPath i" "closedRequestPath j \<noteq> closedRequestPath i"
      using assms(1) j by (auto simp: request_paths)
    moreover have "requestPath j \<noteq> closedRequestPath i" "closedRequestPath j \<noteq> requestPath i"
      using request_paths_apart [OF j] by auto
    ultimately show ?thesis using changes_other [OF changes_move_closed [of i d E]] by simp
  qed
qed

lemma bundles_CloseRequest: "bundles_kept d (snd (CloseRequest E d i))"
proof (cases "ValidID i")
  case True
  have e: "bundles_kept d (snd (ensure_closure E d i r))" for d r
    by (rule bundles_grows [OF grows_ensure_closure])
  have "bundles_kept d (snd (close_locked E d i))" for d
  proof (cases rule: close_locked_cases [of E d i])
    case (closure_failed x d1)
    with e [of d "readClosure E d i"] show ?thesis by simp
  next
    case (closed_before c d1)
    with e [of d "readClosure E d i"] show ?thesis by simp
  next
    case (move c d1)
    have "get d1 (closedRequestPath i) = get d (closedRequestPath i)"
      using changes_other [OF grows_changes [OF grows_ensure_closure [of i d E "readClosure E d i"]]]
        closure_bundle_apart [OF True True] move(1) by simp
    then have "bundles_kept d1 (snd (move_closed E d1 i))" using bundles_move [OF True] move(4) by simp
    moreover have "snd (close_locked E d i) = snd (move_closed E d1 i)"
      by (simp add: move(2) snd_and_then split: sum.split)
    moreover have "bundles_kept d d1" using e [of d "readClosure E d i"] move(1) by simp
    ultimately show ?thesis using bundles_trans by metis
  qed simp
  then show ?thesis
    using True bundles_trans [OF bundles_grows [OF grows_Init]]
    by (auto simp: CloseRequest_def snd_and_then bundles_grows [OF grows_Init] split: sum.splits)
qed (simp add: CloseRequest_def)

lemma bundles_BeginUpload: "bundles_kept d (snd (BeginUpload E d b raw))"
proof (cases rule: BeginUpload_locked [of E d b raw])
  case (locked m)
  then have "ValidID (rbID b)" "ValidID (mfUploadID m)" by (simp_all add: validateBundle_ok validateManifest_ok)
  then show ?thesis by (rule bundles_uploads [OF changes_BeginUpload [OF locked(1)]])
qed simp

lemma bundles_Acknowledge: "bundles_kept d (snd (Acknowledge E d b u))"
proof (cases "is_ok (validateBundle b) \<and> ValidID u")
  case True
  then have v: "ValidID (rbID b)" "ValidID u" by (auto simp: is_ok_iff validateBundle_ok)
  show ?thesis by (rule bundles_uploads [OF change.mono [OF changes_Acknowledge] v]) simp
qed (auto simp: Acknowledge_def)

lemma bundles_Purge: "bundles_kept d (snd (Purge E d a stale))"
  by (rule bundles_changes [OF shrinks_changes [OF shrinks_Purge]])
    (use upload_paths_apart in \<open>auto simp: valid_upload_paths_def\<close>)

lemma step_bundles: "store_step P s t \<Longrightarrow> bundles_kept (sysDisk s) (sysDisk t)"
  by (erule store_step.cases)
    (simp_all add: bundles_grows [OF grows_Init] bundles_grows [OF grows_ImportRequest] bundles_CloseRequest
      bundles_BeginUpload bundles_grows [OF grows_PutChunk] bundles_grows [OF grows_Complete] bundles_Acknowledge
      bundles_Purge)

interpretation access: monotone_system "store_step (sane dec)" "store_inv dec"
  "\<lambda>s t. bundles_kept (sysDisk s) (sysDisk t)" for dec
  by unfold_locales (auto simp: step_inv step_bundles intro: bundles_trans)

section \<open>Tokens go on to work\<close>

lemma read_bundle:
  assumes "no_faults E" and "ValidID i"
  shows "get d (requestPath i) = Some (File (JBundle b)) \<Longrightarrow> RequestIncludingClosed E d i = Inr b"
    and "get d (requestPath i) = None \<Longrightarrow> get d (closedRequestPath i) = Some (File (JBundle b))
      \<Longrightarrow> RequestIncludingClosed E d i = Inr b"
  using assms by (simp_all add: RequestIncludingClosed_def Request_def readRequestPath_def os_read_file_def no_faults_def)

lemma Authenticate_again:
  assumes "Authenticate E d i token kind = Some b" and "RequestIncludingClosed E' d' i = Inr b"
  shows "Authenticate E' d' i token kind = Some b"
  using Authenticate_Some [OF assms(1)] assms(2) by (simp add: Authenticate_def)

text \<open>C32: Access is durable: a token that authenticated for a bundle goes on to authenticate for exactly this
  bundle after any run of operations (submissions, completions, acknowledgements, purges, closing, imports)
  under any faults, as soon as the files can be read again. The one exception is a request that was closed and
  whose identifier was imported a second time with another bundle: then the bundle is still among the closed
  requests, hidden by the new one.\<close>

theorem access_survives:
  assumes "(store_step (sane dec))\<^sup>*\<^sup>* empty_system s" and "(store_step (sane dec))\<^sup>*\<^sup>* s t"
    and "Authenticate E (sysDisk s) i token kind = Some b" and "no_faults E'"
  shows "Authenticate E' (sysDisk t) i token kind = Some b
    \<or> get (sysDisk t) (closedRequestPath i) = Some (File (JBundle b)) \<and> get (sysDisk t) (closurePath i) \<noteq> None
      \<and> (\<exists>b'. b' \<noteq> b \<and> get (sysDisk t) (requestPath i) = Some (File (JBundle b')))"
proof -
  have inv: "store_inv dec s" "store_inv dec t"
    using store.run_inv [OF assms(1) store_inv_empty] store.run_inv [OF assms(2)] by auto
  have v: "ValidID i" and g: "get (sysDisk s) (requestPath i) = Some (File (JBundle b))
      \<or> get (sysDisk s) (closedRequestPath i) = Some (File (JBundle b))"
    using RequestIncludingClosed_Inr [OF Authenticate_Some(1) [OF assms(3)]] by auto
  have "bundles_kept (sysDisk s) (sysDisk t)" by (rule access.run_rel [OF assms(2) inv(1)])
  with v g have t: "get (sysDisk t) (requestPath i) = Some (File (JBundle b))
      \<or> get (sysDisk t) (closedRequestPath i) = Some (File (JBundle b))" unfolding bundles_kept_def by blast
  note again = Authenticate_again [OF assms(3)] read_bundle [OF assms(4) v, of "sysDisk t" b]
  show ?thesis
  proof (cases "get (sysDisk t) (requestPath i)")
    case None
    with t again show ?thesis by simp
  next
    case (Some n)
    have "entries_ok dec (sysDisk t)" using inv(2) by (simp add: store_inv_def)
    then obtain b' where b': "n = File (JBundle b')" using active_bundle [OF _ v Some] by metis
    show ?thesis
    proof (cases "b' = b")
      case True
      with Some b' again show ?thesis by simp
    next
      case False
      with t Some b' have "get (sysDisk t) (closedRequestPath i) = Some (File (JBundle b))" by simp
      moreover from this have "get (sysDisk t) (closurePath i) \<noteq> None"
        using inv(2) v unfolding store_inv_def closed_marked_def by auto
      ultimately show ?thesis using False Some b' by blast
    qed
  qed
qed

theorem access_survives_witness:
  "Authenticate demo_env demo_closed demo_id ''collect'' ''collect'' = Some demo_bundle"
proof -
  have a: "Authenticate demo_env (sysDisk demo_ready) demo_id ''collect'' ''collect'' = Some demo_bundle"
    by (simp add: demo_ready_def Authenticate_def RequestIncludingClosed_def Request_def readRequestPath_def
        os_read_file_def demo_paths get_def demo_disks HashToken_def hex_decode_sha256)
  have "store_step (sane demo_dec) demo_ready demo_shut"
    using store_step.close_request [where P = "sane demo_dec" and s = demo_ready and E = demo_env and i = demo_id]
    by (simp add: demo_ready_def demo_shut_def demo_close)
  then have r: "(store_step (sane demo_dec))\<^sup>*\<^sup>* demo_ready demo_shut" by (rule r_into_rtranclp)
  have "get demo_closed (requestPath demo_id) = None" by (simp add: demo_paths get_def demo_closed_def demo_top_def)
  then show ?thesis
    using access_survives [OF run_sane [OF demo_run_ready] r a demo_sane(3)] by (simp add: demo_shut_def)
qed

end
