(* ===== verification/FilenameLimits.thy ===== *)
theory FilenameLimits
  imports Filename
begin

text \<open>
  Two limits of \<open>SafeFilename\<close>, by evaluation: the device-name check precedes the truncation, so a long
  name can still end up as a device name, and bytes that are not UTF-8 slice out of range.
\<close>

definition long_con :: string where
  "long_con = ''CON'' @ replicate 240 CHR '' '' @ ''x''"

lemma long_con_clean: "clean_chars long_con = long_con"
  by code_simp

lemma long_con_no_device: "\<not> windowsDeviceName long_con"
  by code_simp

lemma long_con_truncated:
  "truncateFilenameComponent long_con = Some (''CON'' @ replicate 237 CHR '' '')"
  by code_simp

lemma truncated_con_device: "windowsDeviceName (''CON'' @ replicate 237 CHR '' '')"
  by code_simp

theorem SafeFilename_device_name:
  "SafeFilename long_con = Some (''CON'' @ replicate 237 CHR '' '')
    \<and> windowsDeviceName (''CON'' @ replicate 237 CHR '' '')"
proof -
  have "long_con \<noteq> []" "long_con \<noteq> ''.''" "long_con \<noteq> ''..''" by (simp_all add: long_con_def)
  then show ?thesis
    using long_con_clean long_con_no_device long_con_truncated truncated_con_device
    by (simp add: SafeFilename_def Let_def)
qed

theorem SafeFilename_invalid_utf8: "SafeFilename [CHR 0xFF] = None"
  by code_simp

end
