(* ===== verification/Limiter.thy ===== *)
theory Limiter
  imports Model
begin

text \<open>
  \<open>internal/server/limiter.go\<close>: the limiter of failed authorizations. The table of windows is an
  association list from keys to windows; \<open>l.now()\<close> is an argument. The mutex makes each call one
  step, so a run is a list of calls. The lemmas bound the table and show that the window of an
  address counts exactly the failures of that address, whatever other addresses do.
\<close>

section \<open>The limiter\<close>

definition failureLimit :: int where
  "failureLimit = 12"

definition failureWindowDuration :: duration where
  "failureWindowDuration = 60 * nanos_per_second"

definition maxFailureBuckets :: int where
  "maxFailureBuckets = 4096"

definition overflowFailureBucket :: string where
  "overflowFailureBucket = CHR 0x00 # ''overflow''"

record failureWindow =
  fwStart :: time
  fwCount :: int64

type_synonym windows = "(string \<times> failureWindow) list"

definition newFailureLimiter :: windows where
  "newFailureLimiter = []"

definition expiredFailureWindow :: "failureWindow \<Rightarrow> time \<Rightarrow> bool" where
  "expiredFailureWindow w now \<longleftrightarrow> \<not> now < time_add (fwStart w) failureWindowDuration"

definition removeExpired :: "windows \<Rightarrow> time \<Rightarrow> windows" where
  "removeExpired l now = filter (\<lambda>kw. \<not> expiredFailureWindow (snd kw) now) l"

definition bucketKey :: "windows \<Rightarrow> string \<Rightarrow> time \<Rightarrow> string \<times> windows" where
  "bucketKey l ip now =
     (if map_of l ip \<noteq> None then (ip, l)
      else let l = (if int (length l) \<ge> maxFailureBuckets - 1 then removeExpired l now else l)
        in if int (length l) \<ge> maxFailureBuckets - 1 then (overflowFailureBucket, l) else (ip, l))"

definition blocked :: "windows \<Rightarrow> string \<Rightarrow> time \<Rightarrow> bool \<times> windows" where
  "blocked l ip now =
     (case bucketKey l ip now of (key, l) \<Rightarrow>
        case map_of l key of
          None \<Rightarrow> (False, AList.delete key l)
        | Some w \<Rightarrow>
            if expiredFailureWindow w now then (False, AList.delete key l)
            else (fwCount w \<ge> failureLimit, l))"

definition failure :: "windows \<Rightarrow> string \<Rightarrow> time \<Rightarrow> windows" where
  "failure l ip now =
     (case bucketKey l ip now of (key, l) \<Rightarrow>
        let w = (case map_of l key of
              None \<Rightarrow> \<lparr>fwStart = now, fwCount = 0\<rparr>
            | Some w \<Rightarrow> if expiredFailureWindow w now then \<lparr>fwStart = now, fwCount = 0\<rparr> else w)
        in AList.update key (w\<lparr>fwCount := wrap64 (fwCount w + 1)\<rparr>) l)"

text \<open>The calls that requests make, in the order in which they hold the mutex.\<close>

datatype limiter_call = Check string time | Fail string time

fun limiter_apply :: "limiter_call \<Rightarrow> windows \<Rightarrow> windows" where
  "limiter_apply (Check ip now) l = snd (blocked l ip now)"
| "limiter_apply (Fail ip now) l = failure l ip now"

definition limiter_run :: "limiter_call list \<Rightarrow> windows \<Rightarrow> windows" where
  "limiter_run cs l = fold limiter_apply cs l"

lemmas limits60 = failureLimit_def failureWindowDuration_def maxFailureBuckets_def nanos_per_second_def

section \<open>The table is bounded\<close>

text \<open>One bucket per key, and at most 4095 of them beside the shared one.\<close>

definition limiter_inv :: "windows \<Rightarrow> bool" where
  "limiter_inv l \<longleftrightarrow> distinct (map fst l)
     \<and> length (filter (\<lambda>k. k \<noteq> overflowFailureBucket) (map fst l)) \<le> 4095"

lemma filter_keys_length:
  "length (filter P (map fst (filter Q l))) \<le> length (filter P (map fst l))"
  by (induction l) auto

lemma inv_filter:
  assumes "limiter_inv l"
  shows "limiter_inv (filter Q l)"
  using assms filter_keys_length [of "\<lambda>k. k \<noteq> overflowFailureBucket" Q l]
  by (auto simp: limiter_inv_def distinct_map_filter)

lemma inv_delete: "limiter_inv l \<Longrightarrow> limiter_inv (AList.delete k l)"
  by (simp add: AList.delete_eq inv_filter)

lemma inv_removeExpired: "limiter_inv l \<Longrightarrow> limiter_inv (removeExpired l now)"
  by (simp add: removeExpired_def inv_filter)

lemma inv_bucketKey: "limiter_inv l \<Longrightarrow> limiter_inv (snd (bucketKey l ip now))"
  by (simp add: bucketKey_def Let_def inv_removeExpired)

lemma update_keys:
  "map fst (AList.update k v l) = (if k \<in> set (map fst l) then map fst l else map fst l @ [k])"
  by (induction l) auto

lemma bucketKey_room:
  assumes "bucketKey l ip now = (key, l')" and "key \<notin> set (map fst l')" and "key \<noteq> overflowFailureBucket"
  shows "length l' < 4095"
  using assms by (auto simp: bucketKey_def Let_def limits60 map_of_eq_None_iff split: if_splits)

lemma inv_failure:
  assumes "limiter_inv l"
  shows "limiter_inv (failure l ip now)"
proof -
  obtain key l' where b: "bucketKey l ip now = (key, l')" by fastforce
  have l': "limiter_inv l'" using inv_bucketKey [OF assms, of ip now] b by simp
  have "limiter_inv (AList.update key w l')" for w
  proof -
    have "length (filter (\<lambda>k. k \<noteq> overflowFailureBucket) (map fst l')) \<le> length (map fst l')"
      by (rule length_filter_le)
    then have "key \<notin> set (map fst l') \<Longrightarrow> key \<noteq> overflowFailureBucket
        \<Longrightarrow> length (filter (\<lambda>k. k \<noteq> overflowFailureBucket) (map fst l')) < 4095"
      using bucketKey_room [OF b] by (metis le_less_trans length_map)
    then show ?thesis
      using l' by (simp add: limiter_inv_def update_keys del: filter_map length_filter_map set_map) linarith
  qed
  then show ?thesis by (simp add: failure_def b Let_def)
qed

lemma inv_blocked: "limiter_inv l \<Longrightarrow> limiter_inv (snd (blocked l ip now))"
  using inv_bucketKey [of l ip now]
  by (auto simp: blocked_def inv_delete split: prod.splits option.splits)

lemma inv_apply: "limiter_inv l \<Longrightarrow> limiter_inv (limiter_apply c l)"
  by (cases c) (simp_all add: inv_failure inv_blocked)

inductive limiter_step :: "windows \<Rightarrow> windows \<Rightarrow> bool" where
  "limiter_step l (limiter_apply c l)"

inductive_cases limiter_stepE: "limiter_step l l'"

interpretation limiter: invariant_system limiter_step limiter_inv
  by unfold_locales (auto elim!: limiter_stepE intro: inv_apply)

lemma run_steps: "limiter_step\<^sup>*\<^sup>* l (limiter_run cs l)"
proof (induction cs arbitrary: l)
  case Nil
  then show ?case by (simp add: limiter_run_def)
next
  case (Cons c cs)
  have "limiter_step\<^sup>*\<^sup>* (limiter_apply c l) (limiter_run cs (limiter_apply c l))" by (rule Cons.IH)
  then show ?case
    by (simp add: limiter_run_def) (rule converse_rtranclp_into_rtranclp, rule limiter_step.intros)
qed

lemma inv_length:
  assumes "limiter_inv l"
  shows "length l \<le> 4096"
proof -
  have "length l = length (filter (\<lambda>k. k \<noteq> overflowFailureBucket) (map fst l))
      + length (filter (\<lambda>k. k = overflowFailureBucket) (map fst l))"
    using sum_length_filter_compl [of "\<lambda>k. k \<noteq> overflowFailureBucket" "map fst l"] by simp
  moreover have "length (filter (\<lambda>k. k = overflowFailureBucket) (map fst l)) \<le> 1"
  proof -
    have "distinct (filter (\<lambda>k. k = overflowFailureBucket) (map fst l))"
      using assms by (simp add: limiter_inv_def)
    then have "length (filter (\<lambda>k. k = overflowFailureBucket) (map fst l))
        = card (set (filter (\<lambda>k. k = overflowFailureBucket) (map fst l)))"
      by (simp only: distinct_card)
    also have "\<dots> \<le> card {overflowFailureBucket}" by (rule card_mono) auto
    finally show ?thesis by simp
  qed
  ultimately show ?thesis using assms by (simp add: limiter_inv_def)
qed

section \<open>A window counts the failures of its address\<close>

text \<open>
  A live window of an address other than the shared key is changed by failures of that address
  only. It goes when it expires and not before.
\<close>

definition call_time :: "limiter_call \<Rightarrow> time" where
  "call_time c = (case c of Check _ now \<Rightarrow> now | Fail _ now \<Rightarrow> now)"

fun fails_of :: "string \<Rightarrow> limiter_call list \<Rightarrow> nat" where
  "fails_of ip [] = 0"
| "fails_of ip (Check ip' now # cs) = fails_of ip cs"
| "fails_of ip (Fail ip' now # cs) = (if ip' = ip then Suc (fails_of ip cs) else fails_of ip cs)"

lemma fails_of_append [simp]: "fails_of ip (cs @ cs') = fails_of ip cs + fails_of ip cs'"
  by (induction ip cs rule: fails_of.induct) simp_all

lemma fails_of_replicate [simp]: "fails_of ip (replicate n (Fail ip' now)) = (if ip' = ip then n else 0)"
  by (induction n) auto

lemma map_of_removeExpired:
  "distinct (map fst l) \<Longrightarrow> map_of (removeExpired l now) k =
     (case map_of l k of Some w \<Rightarrow> if expiredFailureWindow w now then None else Some w | None \<Rightarrow> None)"
  by (induction l) (auto simp: removeExpired_def map_of_eq_None_iff image_iff split: option.splits)

lemma bucketKey_own: "map_of l ip = Some w \<Longrightarrow> bucketKey l ip now = (ip, l)"
  by (simp add: bucketKey_def)

lemma bucketKey_other:
  assumes "bucketKey l ip' now = (key, l')" and "limiter_inv l"
    and "map_of l ip = Some w" and "\<not> expiredFailureWindow w now"
    and "ip' \<noteq> ip" and "ip \<noteq> overflowFailureBucket"
  shows "map_of l' ip = Some w" and "key \<noteq> ip"
  using assms by (auto simp: bucketKey_def Let_def map_of_removeExpired limiter_inv_def split: if_splits)

lemma blocked_own:
  assumes "map_of l ip = Some w"
  shows "blocked l ip now = (if expiredFailureWindow w now then (False, AList.delete ip l)
      else (failureLimit \<le> fwCount w, l))"
  by (simp add: blocked_def bucketKey_own [OF assms] assms)

lemma failure_own:
  assumes "map_of l ip = Some w" and "\<not> expiredFailureWindow w now"
  shows "map_of (failure l ip now) ip = Some (w\<lparr>fwCount := wrap64 (fwCount w + 1)\<rparr>)"
  using assms by (simp add: failure_def bucketKey_own Let_def update_conv)

lemma other_calls:
  assumes "limiter_inv l" and "map_of l ip = Some w" and "\<not> expiredFailureWindow w now"
    and "ip' \<noteq> ip" and "ip \<noteq> overflowFailureBucket"
  shows "map_of (failure l ip' now) ip = Some w" and "map_of (snd (blocked l ip' now)) ip = Some w"
proof -
  obtain key l' where b: "bucketKey l ip' now = (key, l')" by fastforce
  note k = bucketKey_other [OF b assms(1-5)]
  show "map_of (failure l ip' now) ip = Some w"
    using k by (simp add: failure_def b Let_def update_conv)
  show "map_of (snd (blocked l ip' now)) ip = Some w"
    using k by (simp add: blocked_def b delete_conv split: option.splits)
qed

lemma apply_other:
  assumes "limiter_inv l" and "map_of l ip = Some w" and "ip \<noteq> overflowFailureBucket"
    and "call_time c < time_add (fwStart w) failureWindowDuration"
    and "in_int64 (fwCount w + int (fails_of ip [c]))"
  shows "map_of (limiter_apply c l) ip = Some (w\<lparr>fwCount := fwCount w + int (fails_of ip [c])\<rparr>)"
proof (cases c)
  case (Check ip' now)
  then have live: "\<not> expiredFailureWindow w now"
    using assms(4) by (simp add: expiredFailureWindow_def call_time_def)
  show ?thesis
  proof (cases "ip' = ip")
    case True
    then show ?thesis using Check live assms(2) blocked_own [OF assms(2)] by simp
  next
    case False
    then show ?thesis using Check other_calls [OF assms(1,2) live _ assms(3)] by simp
  qed
next
  case (Fail ip' now)
  then have live: "\<not> expiredFailureWindow w now"
    using assms(4) by (simp add: expiredFailureWindow_def call_time_def)
  show ?thesis
  proof (cases "ip' = ip")
    case True
    then show ?thesis using Fail assms(5) failure_own [OF assms(2) live] by (simp add: wrap64_id)
  next
    case False
    then show ?thesis using Fail other_calls [OF assms(1,2) live _ assms(3)] by simp
  qed
qed

lemma window_counts:
  assumes "limiter_inv l" and "map_of l ip = Some w" and "ip \<noteq> overflowFailureBucket"
    and "\<forall>c \<in> set cs. call_time c < time_add (fwStart w) failureWindowDuration"
    and "0 \<le> fwCount w" and "fwCount w + int (fails_of ip cs) < 2 ^ 63"
  shows "map_of (limiter_run cs l) ip = Some (w\<lparr>fwCount := fwCount w + int (fails_of ip cs)\<rparr>)"
  using assms
proof (induction cs arbitrary: l w)
  case Nil
  then show ?case by (simp add: limiter_run_def)
next
  case (Cons c cs)
  let ?w = "w\<lparr>fwCount := fwCount w + int (fails_of ip [c])\<rparr>"
  have split: "fails_of ip (c # cs) = fails_of ip [c] + fails_of ip cs" by (cases c) simp_all
  have "map_of (limiter_apply c l) ip = Some ?w"
    using Cons.prems split by (intro apply_other) (auto simp: in_int64_def)
  from Cons.IH [OF inv_apply [OF Cons.prems(1)] this Cons.prems(3)] Cons.prems split
  show ?case by (simp add: limiter_run_def add.assoc)
qed

text \<open>The first failure of an address opens a window when the table has room.\<close>

lemma failure_opens:
  assumes "limiter_inv l" and "length l < 4095"
    and "\<forall>w. map_of l ip = Some w \<longrightarrow> expiredFailureWindow w now"
  shows "map_of (failure l ip now) ip = Some \<lparr>fwStart = now, fwCount = 1\<rparr>"
proof (cases "map_of l ip")
  case None
  then have "bucketKey l ip now = (ip, l)" using assms(2) by (simp add: bucketKey_def limits60)
  then show ?thesis using None by (simp add: failure_def Let_def update_conv wrap64_def)
next
  case (Some w)
  then show ?thesis using assms(3) by (simp add: failure_def bucketKey_own Let_def update_conv wrap64_def)
qed

text \<open>Only a failure of an address opens a window for it, and a call adds at most one bucket.\<close>

lemma bucketKey_keeps:
  assumes "bucketKey l ip' now = (key, l')" and "limiter_inv l"
  shows "map_of l' ip = map_of l ip \<or> map_of l' ip = None" and "key = ip' \<or> key = overflowFailureBucket"
    and "length l' \<le> length l"
proof -
  have "length (removeExpired l now) \<le> length l" by (simp add: removeExpired_def)
  then show "map_of l' ip = map_of l ip \<or> map_of l' ip = None" "key = ip' \<or> key = overflowFailureBucket" "length l' \<le> length l"
    using assms by (auto simp: bucketKey_def Let_def map_of_removeExpired limiter_inv_def split: if_splits option.splits)
qed

lemma call_keeps:
  assumes "limiter_inv l" and "\<forall>now. c \<noteq> Fail ip now" and "ip \<noteq> overflowFailureBucket"
  shows "map_of (limiter_apply c l) ip = map_of l ip \<or> map_of (limiter_apply c l) ip = None"
proof (cases c)
  case (Check ip' now)
  obtain key l' where b: "bucketKey l ip' now = (key, l')" by fastforce
  then show ?thesis using bucketKey_keeps(1) [OF b assms(1), of ip] Check
    by (auto simp: blocked_def b delete_conv split: option.splits)
next
  case (Fail ip' now)
  obtain key l' where b: "bucketKey l ip' now = (key, l')" by fastforce
  have "key \<noteq> ip" using bucketKey_keeps(2) [OF b assms(1)] assms(2,3) Fail by auto
  then show ?thesis using bucketKey_keeps(1) [OF b assms(1), of ip] Fail
    by (auto simp: failure_def b Let_def update_conv)
qed

lemma call_length:
  assumes "limiter_inv l"
  shows "length (limiter_apply (Check ip now) l) \<le> length l" and "length (limiter_apply (Fail ip now) l) \<le> Suc (length l)"
proof -
  obtain key l' where b: "bucketKey l ip now = (key, l')" by fastforce
  have le: "length l' \<le> length l" by (rule bucketKey_keeps(3) [OF b assms])
  have "length (AList.delete k l') \<le> length l'" for k by (simp add: AList.delete_eq)
  with le show "length (limiter_apply (Check ip now) l) \<le> length l"
    by (auto simp: blocked_def b intro: order_trans split: option.splits)
  have "length (AList.update k w l') \<le> Suc (length l')" for k w
    using update_keys [of k w l'] by (metis length_append_singleton length_map le_SucI order_refl)
  with le show "length (limiter_apply (Fail ip now) l) \<le> Suc (length l)"
    by (simp add: failure_def b Let_def) (meson Suc_le_mono order_trans)
qed

section \<open>Claims\<close>

text \<open>The table of failure windows never exceeds 4096 buckets and has one bucket per key, after
  any sequence of authorization checks and failures from any addresses at any times: a client that
  changes its address cannot exhaust the server's memory.\<close>

lemma limiter_bounded:
  "length (limiter_run cs newFailureLimiter) \<le> 4096 \<and> distinct (map fst (limiter_run cs newFailureLimiter))"
proof -
  have "limiter_inv newFailureLimiter" by (simp add: limiter_inv_def newFailureLimiter_def)
  then have "limiter_inv (limiter_run cs newFailureLimiter)" by (rule limiter.run_inv [OF run_steps])
  then show ?thesis by (simp add: inv_length) (simp add: limiter_inv_def)
qed

text \<open>C27: An address whose first failure finds room in the table is blocked for the rest of the
  minute exactly from its twelfth failure on, whatever other addresses do in between: they can
  neither clear its window nor fill it. When the minute has passed it is not blocked.\<close>

theorem limiter_isolates_addresses:
  assumes "length (limiter_run before newFailureLimiter) < 4095" and "ip \<noteq> overflowFailureBucket"
    and "\<forall>w. map_of (limiter_run before newFailureLimiter) ip = Some w \<longrightarrow> expiredFailureWindow w start"
    and "\<forall>c \<in> set cs. call_time c < time_add start failureWindowDuration"
    and "length cs < 2 ^ 62"
  shows "fst (blocked (limiter_run (before @ Fail ip start # cs) newFailureLimiter) ip now)
    \<longleftrightarrow> now < time_add start failureWindowDuration \<and> 12 \<le> 1 + fails_of ip cs"
proof -
  let ?l = "limiter_run before newFailureLimiter"
  have "limiter_inv newFailureLimiter" by (simp add: limiter_inv_def newFailureLimiter_def)
  then have inv: "limiter_inv ?l" by (rule limiter.run_inv [OF run_steps])
  have few: "fails_of ip cs \<le> length cs" by (induction ip cs rule: fails_of.induct) auto
  have "map_of (failure ?l ip start) ip = Some \<lparr>fwStart = start, fwCount = 1\<rparr>"
    by (rule failure_opens [OF inv assms(1,3)])
  then have "map_of (limiter_run cs (failure ?l ip start)) ip = Some \<lparr>fwStart = start, fwCount = 1 + int (fails_of ip cs)\<rparr>"
    using window_counts [OF inv_failure [OF inv] _ assms(2)] assms(4,5) few by fastforce
  moreover have "limiter_run (before @ Fail ip start # cs) newFailureLimiter = limiter_run cs (failure ?l ip start)"
    by (simp add: limiter_run_def)
  ultimately show ?thesis
    by (auto simp: blocked_own expiredFailureWindow_def failureLimit_def)
qed

theorem limiter_isolates_addresses_witness:
  "fst (blocked (limiter_run ([] @ Fail ''192.0.2.7'' (Time 5) # replicate 11 (Fail ''192.0.2.7'' (Time 9)) @
      [Fail ''192.0.2.8'' (Time 9), Check ''192.0.2.7'' (Time 9)]) newFailureLimiter) ''192.0.2.7'' (Time 12))
   \<and> \<not> fst (blocked (limiter_run ([] @ Fail ''192.0.2.7'' (Time 5) # replicate 10 (Fail ''192.0.2.7'' (Time 9)) @
      replicate 5 (Fail ''192.0.2.8'' (Time 9))) newFailureLimiter) ''192.0.2.7'' (Time 12))"
proof -
  let ?a = "''192.0.2.7''" and ?b = "''192.0.2.8''"
  note room = limiter_run_def newFailureLimiter_def overflowFailureBucket_def
  have "Time 9 < time_add (Time 5) failureWindowDuration" "Time 12 < time_add (Time 5) failureWindowDuration"
    by (simp_all add: limits60 time_add_def)
  then show ?thesis
    using limiter_isolates_addresses [of "[]" ?a "Time 5" "replicate 11 (Fail ?a (Time 9)) @ [Fail ?b (Time 9), Check ?a (Time 9)]" "Time 12"]
      limiter_isolates_addresses [of "[]" ?a "Time 5" "replicate 10 (Fail ?a (Time 9)) @ replicate 5 (Fail ?b (Time 9))" "Time 12"]
    by (simp add: room call_time_def)
qed

end
