(* ===== verification/Netip.thy ===== *)
theory Netip
  imports Codecs
begin

text \<open>
  What the server uses of Go's packages \<open>net/netip\<close> and \<open>net\<close>: addresses as 32-bit and 128-bit
  words, their text forms, prefixes, and \<open>net.SplitHostPort\<close>. An IPv6 address carries its zone.
  The last section shows that the printed form of an IPv4 address parses back and that membership in
  a prefix is agreement of the leading bits.
\<close>

unbundle bit_operations_syntax

section \<open>Splitting and joining text\<close>

text \<open>\<open>strings.Split\<close> and \<open>strings.Join\<close> with a separator of one character.\<close>

fun split_on :: "char \<Rightarrow> string \<Rightarrow> string list" where
  "split_on c [] = [[]]"
| "split_on c (x # s) =
     (if x = c then [] # split_on c s
      else case split_on c s of [] \<Rightarrow> [[x]] | y # ys \<Rightarrow> (x # y) # ys)"

fun join_with :: "char \<Rightarrow> string list \<Rightarrow> string" where
  "join_with c [] = []"
| "join_with c [x] = x"
| "join_with c (x # y # ys) = x @ c # join_with c (y # ys)"

lemma split_on_nonempty [simp]: "split_on c s \<noteq> []"
  by (induction s) (auto split: list.split)

lemma split_on_append: "split_on c (x @ c # y) = split_on c x @ split_on c y"
  by (induction x) (auto split: list.split)

lemma split_on_none: "c \<notin> set x \<Longrightarrow> split_on c x = [x]"
  by (induction x) auto

lemma join_with_append:
  "xs \<noteq> [] \<Longrightarrow> ys \<noteq> [] \<Longrightarrow> join_with c (xs @ ys) = join_with c xs @ c # join_with c ys"
proof (induction c xs rule: join_with.induct)
  case (2 c x)
  then show ?case by (cases ys) simp_all
qed simp_all

section \<open>Addresses\<close>

datatype addr = V4 "32 word" | V6 "128 word" string

definition with_zone :: "addr \<Rightarrow> string \<Rightarrow> addr" where
  "with_zone a z = (case a of V4 w \<Rightarrow> V4 w | V6 w _ \<Rightarrow> V6 w z)"

definition addr_zone :: "addr \<Rightarrow> string" where
  "addr_zone a = (case a of V4 _ \<Rightarrow> [] | V6 _ z \<Rightarrow> z)"

definition bit_len :: "addr \<Rightarrow> int" where
  "bit_len a = (case a of V4 _ \<Rightarrow> 32 | V6 _ _ \<Rightarrow> 128)"

text \<open>The dotted form: four fields without leading zeros, each at most 255.\<close>

definition parse_octet :: "string \<Rightarrow> nat option" where
  "parse_octet s =
     (case parse_digits s of
        None \<Rightarrow> None
      | Some n \<Rightarrow> if (length s > 1 \<and> hd s = CHR ''0'') \<or> n > 255 then None else Some n)"

definition parseIPv4 :: "string \<Rightarrow> 32 word option" where
  "parseIPv4 s =
     (case map parse_octet (split_on CHR ''.'' s) of
        [Some a, Some b, Some c, Some d] \<Rightarrow> Some (of_nat (((a * 256 + b) * 256 + c) * 256 + d))
      | _ \<Rightarrow> None)"

text \<open>
  The colon form. The loop reads one group of at most four hexadecimal digits a turn, at most eight
  turns; it gives the groups, the place of the ellipsis and the text it did not read.
\<close>

definition hex_number :: "string \<Rightarrow> nat" where
  "hex_number s = foldl (\<lambda>n c. n * 16 + (case hex_value c of Some v \<Rightarrow> v | None \<Rightarrow> 0)) 0 s"

fun v6_loop :: "nat \<Rightarrow> nat list \<Rightarrow> nat option \<Rightarrow> string \<Rightarrow> (nat list \<times> nat option \<times> string) option" where
  "v6_loop 0 gs e s = Some (gs, e, s)"
| "v6_loop (Suc n) gs e s =
     (let h = takeWhile (\<lambda>c. hex_value c \<noteq> None) s; rest = drop (length h) s; gs' = gs @ [hex_number h]
      in if h = [] \<or> length h > 4 then None
      else if rest = [] then Some (gs', e, [])
      else if hd rest = CHR ''.'' then
        (if e = None \<and> length gs \<noteq> 6 \<or> length gs + 2 > 8 then None
         else case parseIPv4 s of
           None \<Rightarrow> None
         | Some w \<Rightarrow> Some (gs @ [unat w div 65536, unat w mod 65536], e, []))
      else if hd rest \<noteq> CHR '':'' \<or> tl rest = [] then None
      else if hd (tl rest) = CHR '':'' then
        (if e \<noteq> None then None
         else if tl (tl rest) = [] then Some (gs', Some (length gs'), [])
         else v6_loop n gs' (Some (length gs')) (tl (tl rest)))
      else v6_loop n gs' e (tl rest))"

definition v6_expand :: "nat list \<Rightarrow> nat option \<Rightarrow> nat list option" where
  "v6_expand gs e =
     (case e of
        None \<Rightarrow> if length gs < 8 then None else Some gs
      | Some k \<Rightarrow> if length gs < 8 then Some (take k gs @ replicate (8 - length gs) 0 @ drop k gs) else None)"

definition groups_word :: "nat list \<Rightarrow> 128 word" where
  "groups_word gs = of_nat (foldl (\<lambda>n g. n * 65536 + g) 0 gs)"

definition parseIPv6 :: "string \<Rightarrow> addr option" where
  "parseIPv6 input =
     (let s = takeWhile (\<lambda>c. c \<noteq> CHR ''%'') input; z = drop (length s) input
      in if z = ''%'' then None
      else let z = tl z; lead = prefix ''::'' s; t = (if lead then drop 2 s else s)
        in if lead \<and> t = [] then Some (V6 0 z)
        else case v6_loop 8 [] (if lead then Some 0 else None) t of
          None \<Rightarrow> None
        | Some (gs, e, rest) \<Rightarrow>
            if rest \<noteq> [] then None
            else map_option (\<lambda>gs. V6 (groups_word gs) z) (v6_expand gs e))"

definition ParseAddr :: "string \<Rightarrow> addr option" where
  "ParseAddr s =
     (case dropWhile (\<lambda>c. c \<notin> {CHR ''.'', CHR '':'', CHR ''%''}) s of
        [] \<Rightarrow> None
      | c # _ \<Rightarrow> if c = CHR ''.'' then map_option V4 (parseIPv4 s)
          else if c = CHR '':'' then parseIPv6 s else None)"

section \<open>Printing\<close>

definition v4_string :: "32 word \<Rightarrow> string" where
  "v4_string w =
     (let n = unat w in join_with CHR ''.''
        [nat_str (n div 16777216), nat_str (n div 65536 mod 256), nat_str (n div 256 mod 256), nat_str (n mod 256)])"

fun hex_str :: "nat \<Rightarrow> string" where
  "hex_str n = (if n < 16 then [hex_digit n] else hex_str (n div 16) @ [hex_digit (n mod 16)])"

declare hex_str.simps [simp del]

definition word_groups :: "128 word \<Rightarrow> nat list" where
  "word_groups w = map (\<lambda>k. unat w div 65536 ^ k mod 65536) [7, 6, 5, 4, 3, 2, 1, 0]"

text \<open>The first longest run of at least two zero groups; \<open>(255, 255)\<close> when there is none.\<close>

definition zero_run :: "nat list \<Rightarrow> nat \<times> nat" where
  "zero_run gs =
     foldl (\<lambda>(s, e) i. let l = length (takeWhile (\<lambda>g. g = 0) (drop i gs))
        in if l \<ge> 2 \<and> l > e - s then (i, i + l) else (s, e)) (255, 255) [0..<8]"

definition v6_string :: "128 word \<Rightarrow> string" where
  "v6_string w =
     (let gs = map hex_str (word_groups w)
      in case zero_run (word_groups w) of (s, e) \<Rightarrow>
        if s = 255 then join_with CHR '':'' gs
        else join_with CHR '':'' (take s gs) @ ''::'' @ join_with CHR '':'' (drop e gs))"

text \<open>\<open>Addr.String\<close>; an IPv4 address mapped into IPv6 prints its last 32 bits in the dotted form.\<close>

definition addr_string :: "addr \<Rightarrow> string" where
  "addr_string a =
     (case a of
        V4 w \<Rightarrow> v4_string w
      | V6 w z \<Rightarrow>
          (if drop_bit 32 w = 0xFFFF then ''::ffff:'' @ v4_string (ucast w) else v6_string w)
            @ (if z = [] then [] else CHR ''%'' # z))"

section \<open>Prefixes\<close>

record Prefix =
  pfAddr :: addr
  pfBits :: int

text \<open>\<open>netip.PrefixFrom\<close> drops the zone.\<close>

definition PrefixFrom :: "addr \<Rightarrow> int \<Rightarrow> Prefix" where
  "PrefixFrom a n = \<lparr>pfAddr = with_zone a [], pfBits = n\<rparr>"

text \<open>The part of \<open>strconv.Atoi\<close> that is left after the check of the first digit.\<close>

definition ParsePrefix :: "string \<Rightarrow> Prefix option" where
  "ParsePrefix s =
     (let b = rev (takeWhile (\<lambda>c. c \<noteq> CHR ''/'') (rev s))
      in if CHR ''/'' \<notin> set s then None
      else case ParseAddr (take (length s - length b - 1) s) of
        None \<Rightarrow> None
      | Some a \<Rightarrow>
          if addr_zone a \<noteq> [] then None
          else if length b > 1 \<and> \<not> (CHR ''1'' \<le> hd b \<and> hd b \<le> CHR ''9'') then None
          else case parse_digits b of
            None \<Rightarrow> None
          | Some n \<Rightarrow> if int n > bit_len a then None else Some (PrefixFrom a (int n)))"

definition Masked :: "Prefix \<Rightarrow> Prefix" where
  "Masked p =
     (case pfAddr p of
        V4 w \<Rightarrow> p\<lparr>pfAddr := V4 (w AND NOT (mask (nat (32 - pfBits p))))\<rparr>
      | V6 w z \<Rightarrow> p\<lparr>pfAddr := V6 (w AND NOT (mask (nat (128 - pfBits p)))) z\<rparr>)"

definition Contains :: "Prefix \<Rightarrow> addr \<Rightarrow> bool" where
  "Contains p a =
     (case (pfAddr p, a) of
        (V4 n, V4 w) \<Rightarrow> drop_bit (nat (32 - pfBits p)) (w XOR n) = 0
      | (V6 n _, V6 w z) \<Rightarrow> z = [] \<and> (w XOR n) AND NOT (mask (nat (128 - pfBits p))) = 0
      | _ \<Rightarrow> False)"

section \<open>Host and port\<close>

definition SplitHostPort :: "string \<Rightarrow> (string \<times> string) option" where
  "SplitHostPort hp =
     (let port = rev (takeWhile (\<lambda>c. c \<noteq> CHR '':'') (rev hp)); i = length hp - length port - 1
      in if CHR '':'' \<notin> set hp then None
      else if hd hp = CHR ''['' then
        (let e = length (takeWhile (\<lambda>c. c \<noteq> CHR '']'') hp)
         in if e = length hp \<or> e + 1 \<noteq> i then None
         else if CHR ''['' \<in> set (drop 1 hp) \<or> CHR '']'' \<in> set (drop (e + 1) hp) then None
         else Some (drop 1 (take e hp), port))
      else if CHR '':'' \<in> set (take i hp) \<or> CHR ''['' \<in> set hp \<or> CHR '']'' \<in> set hp then None
      else Some (take i hp, port))"

section \<open>Lemmas\<close>

lemma nat_str_lead: "0 < n \<Longrightarrow> hd (nat_str n) \<noteq> CHR ''0''"
proof (induction n rule: nat_str.induct)
  case (1 n)
  show ?case
  proof (cases "n < 10")
    case True
    then have "byte (chr (48 + n)) = 48 + n" by (simp add: byte_chr del: of_char_of)
    moreover have "byte CHR ''0'' = 48" by simp
    ultimately have "chr (48 + n) \<noteq> CHR ''0''" using "1.prems" by (metis add_cancel_right_right not_gr0)
    then show ?thesis using True by (subst nat_str.simps) simp
  next
    case False
    then have "hd (nat_str (n div 10)) \<noteq> CHR ''0''" by (intro "1.IH") auto
    then show ?thesis using False nat_str_digits by (subst nat_str.simps) simp
  qed
qed

lemma parse_octet_nat_str: "n \<le> 255 \<Longrightarrow> parse_octet (nat_str n) = Some n"
proof -
  assume "n \<le> 255"
  moreover have "length (nat_str 0) = 1" by (simp add: nat_str.simps)
  ultimately show ?thesis using nat_str_lead [of n] by (cases "n = 0") (auto simp: parse_octet_def parse_digits_nat_str)
qed

lemma nat_str_no: "\<not> is_digit c \<Longrightarrow> c \<notin> set (nat_str n)"
  using nat_str_digits [of n] by (auto simp: list_all_iff)

lemma not_digit [simp]: "\<not> is_digit CHR ''.''" "\<not> is_digit CHR '':''" "\<not> is_digit CHR ''%''" "\<not> is_digit CHR '',''"
  by (simp_all add: is_digit_def)

lemma v4_string_chars: "\<forall>c \<in> set (v4_string w). is_digit c \<or> c = CHR ''.''"
  using nat_str_digits by (auto simp: v4_string_def Let_def list_all_iff)

lemma octets: "((n div 16777216 * 256 + n div 65536 mod 256) * 256 + n div 256 mod 256) * 256 + n mod 256 = (n::nat)"
proof -
  have "n div 16777216 = n div 256 div 256 div 256" "n div 65536 = n div 256 div 256"
    by (simp_all add: div_mult2_eq [symmetric])
  then show ?thesis by (simp add: div_mult_mod_eq)
qed

lemma parseIPv4_string: "parseIPv4 (v4_string w) = Some w"
proof -
  let ?n = "unat w"
  have "?n < 2 ^ LENGTH(32)" by (rule unsigned_less)
  then have "?n div 16777216 \<le> 255" by (simp add: less_mult_imp_div_less less_Suc_eq_le [symmetric])
  moreover have "m mod 256 \<le> 255" for m :: nat using mod_less_divisor [of 256 m] by simp
  moreover have "word_of_nat (((?n div 16777216 * 256 + ?n div 65536 mod 256) * 256 + ?n div 256 mod 256) * 256 + ?n mod 256) = w"
    unfolding octets by simp
  ultimately show ?thesis
    by (simp add: parseIPv4_def v4_string_def Let_def split_on_append split_on_none nat_str_no parse_octet_nat_str
        del: of_nat_add of_nat_mult)
qed

lemma ParseAddr_v4_string: "ParseAddr (v4_string w) = Some (V4 w)"
proof -
  let ?P = "\<lambda>c. c \<notin> {CHR ''.'', CHR '':'', CHR ''%''}"
  have d: "\<forall>c \<in> set (nat_str n). ?P c" for n using nat_str_no by fastforce
  obtain t where "v4_string w = nat_str (unat w div 16777216) @ CHR ''.'' # t"
    by (simp add: v4_string_def Let_def)
  with d have "dropWhile ?P (v4_string w) = CHR ''.'' # t" by (simp add: dropWhile_append2)
  then show ?thesis by (simp add: ParseAddr_def parseIPv4_string)
qed

definition is_v4 :: "addr \<Rightarrow> bool" where
  "is_v4 a = (case a of V4 _ \<Rightarrow> True | V6 _ _ \<Rightarrow> False)"

interpretation ipv4_text: codec addr_string ParseAddr is_v4
  by unfold_locales (simp add: is_v4_def addr_string_def ParseAddr_v4_string split: addr.splits)

text \<open>Membership in a masked prefix is agreement of the leading bits.\<close>

lemma drop_clear_low: "drop_bit k (x AND NOT (mask k)) = drop_bit k (x :: 'a :: len word)"
  by (rule bit_word_eqI) (auto simp: bit_simps dest: bit_imp_le_length)

lemma xor_eq_0: "x XOR y = 0 \<longleftrightarrow> x = (y :: 'a :: len word)"
  by (metis xor.left_commute xor.right_neutral xor_self_eq)

lemma Contains_Masked_v4:
  assumes "0 \<le> n" and "n \<le> 32"
  shows "Contains (Masked \<lparr>pfAddr = V4 p, pfBits = n\<rparr>) (V4 a) \<longleftrightarrow> drop_bit (nat (32 - n)) a = drop_bit (nat (32 - n)) p"
proof -
  let ?k = "nat (32 - n)"
  have "drop_bit ?k (a XOR (p AND NOT (mask ?k))) = drop_bit ?k a XOR drop_bit ?k p"
    by (simp only: drop_bit_xor drop_clear_low)
  then show ?thesis by (simp add: Contains_def Masked_def xor_eq_0)
qed

lemma clear_low_eq_0: "x AND NOT (mask k) = 0 \<longleftrightarrow> drop_bit k x = (0 :: 'a :: len word)"
proof
  assume "x AND NOT (mask k) = 0"
  then show "drop_bit k x = 0" by (metis drop_clear_low drop_bit_of_0)
next
  assume "drop_bit k x = 0"
  moreover have "x AND NOT (mask k) = push_bit k (drop_bit k x)"
    by (rule bit_word_eqI) (auto simp: bit_simps)
  ultimately show "x AND NOT (mask k) = 0" by simp
qed

lemma Contains_Masked_v6:
  assumes "0 \<le> n" and "n \<le> 128"
  shows "Contains (Masked \<lparr>pfAddr = V6 p [], pfBits = n\<rparr>) (V6 a []) \<longleftrightarrow> drop_bit (nat (128 - n)) a = drop_bit (nat (128 - n)) p"
proof -
  let ?k = "nat (128 - n)"
  have "drop_bit ?k (a XOR (p AND NOT (mask ?k))) = drop_bit ?k a XOR drop_bit ?k p"
    by (simp only: drop_bit_xor drop_clear_low)
  then show ?thesis by (simp add: Contains_def Masked_def clear_low_eq_0 xor_eq_0)
qed

end
