(* ===== verification/ClientIP.thy ===== *)
theory ClientIP
  imports Netip
begin

text \<open>
  \<open>internal/server/client_ip.go\<close>: whose failures the limiter counts. The address of the connection
  counts unless it is a configured proxy; then the hops of the header \<open>X-Forwarded-For\<close> are read
  from the right until one is not a proxy.
\<close>

section \<open>Requests and headers\<close>

text \<open>
  What the resolver reads of \<open>http.Request\<close>. Header names are in Go's canonical form, values in the
  order they came in.
\<close>

record http_head =
  hdRemoteAddr :: string
  hdHeaders :: "(string \<times> string) list"

definition header_values :: "(string \<times> string) list \<Rightarrow> string \<Rightarrow> string list" where
  "header_values hs k = map snd (filter (\<lambda>h. fst h = k) hs)"

definition header_get :: "(string \<times> string) list \<Rightarrow> string \<Rightarrow> string" where
  "header_get hs k = (case header_values hs k of [] \<Rightarrow> [] | v # _ \<Rightarrow> v)"

section \<open>The resolver\<close>

record clientIPResolver =
  ciTrusted :: "Prefix list"

definition newClientIPResolver :: "Prefix list \<Rightarrow> clientIPResolver" where
  "newClientIPResolver trusted = \<lparr>ciTrusted = trusted\<rparr>"

text \<open>An error names the value that is neither a prefix nor an address.\<close>

definition trusted_proxy :: "string \<Rightarrow> Prefix option" where
  "trusted_proxy value =
     (case ParsePrefix value of
        Some p \<Rightarrow> Some p
      | None \<Rightarrow> (case ParseAddr value of None \<Rightarrow> None | Some a \<Rightarrow> Some (PrefixFrom a (bit_len a))))"

fun ParseTrustedProxies :: "string list \<Rightarrow> string + Prefix list" where
  "ParseTrustedProxies [] = Inr []"
| "ParseTrustedProxies (v # vs) =
     (case trusted_proxy (trim_space v) of
        None \<Rightarrow> Inl (trim_space v)
      | Some p \<Rightarrow> (case ParseTrustedProxies vs of Inl e \<Rightarrow> Inl e | Inr ps \<Rightarrow> Inr (Masked p # ps)))"

definition isTrusted :: "clientIPResolver \<Rightarrow> addr \<Rightarrow> bool" where
  "isTrusted r a = list_ex (\<lambda>p. Contains p a) (ciTrusted r)"

definition parsePeer :: "string \<Rightarrow> addr option" where
  "parsePeer remote =
     (case SplitHostPort remote of
        Some (host, _) \<Rightarrow> ParseAddr host
      | None \<Rightarrow> ParseAddr (trim (\<lambda>c. c = CHR ''['' \<or> c = CHR '']'') remote))"

text \<open>The loop over the hops, the last one first.\<close>

fun resolve_hops :: "clientIPResolver \<Rightarrow> addr \<Rightarrow> string list \<Rightarrow> string" where
  "resolve_hops r peer [] = addr_string peer"
| "resolve_hops r peer (part # parts) =
     (case ParseAddr (trim_space part) of
        None \<Rightarrow> addr_string peer
      | Some a \<Rightarrow> let a = with_zone a [] in
          if \<not> isTrusted r a then addr_string a else resolve_hops r peer parts)"

definition resolve :: "clientIPResolver \<Rightarrow> 'a http_head_scheme \<Rightarrow> string" where
  "resolve r request =
     (case parsePeer (hdRemoteAddr request) of
        None \<Rightarrow> hdRemoteAddr request
      | Some peer \<Rightarrow> let peer = with_zone peer [] in
          if \<not> isTrusted r peer then addr_string peer
          else let forwarded = join_with CHR '','' (header_values (hdHeaders request) ''X-Forwarded-For'')
            in if forwarded = [] then addr_string peer
               else resolve_hops r peer (rev (split_on CHR '','' forwarded)))"

section \<open>Lemmas\<close>

text \<open>A hop that the loop passes over: an address of a proxy.\<close>

definition proxy_hop :: "clientIPResolver \<Rightarrow> string \<Rightarrow> bool" where
  "proxy_hop r part = (case ParseAddr (trim_space part) of None \<Rightarrow> False | Some a \<Rightarrow> isTrusted r (with_zone a []))"

lemma resolve_hops_untrusted:
  assumes "ParseAddr (trim_space part) = Some a" and "\<not> isTrusted r (with_zone a [])" and "list_all (proxy_hop r) parts"
  shows "resolve_hops r peer (parts @ part # rest) = addr_string (with_zone a [])"
  using assms(3) assms(1,2) by (induction parts) (auto simp: proxy_hop_def Let_def split: option.splits)

lemma trim_space_plain:
  assumes "\<forall>c \<in> set s. ascii c \<and> \<not> is_space (byte c)"
  shows "trim_space s = s"
proof -
  have "segs s = map (\<lambda>c. (byte c, [c])) s"
    using assms by (induction s) (simp_all add: segs_ascii ascii_def del: segs.simps(2))
  moreover have "dropWhile (\<lambda>(r, _). is_space r) (map (\<lambda>c. (byte c, [c])) s') = map (\<lambda>c. (byte c, [c])) s'"
    if "set s' \<subseteq> set s" for s'
    using that assms by (cases s') auto
  ultimately show ?thesis
    by (simp add: trim_space_def rev_map comp_def)
qed

lemma trim_space_v4 [simp]: "trim_space (v4_string w) = v4_string w"
  using v4_string_chars [of w] by (intro trim_space_plain) (auto simp: ascii_def is_space_def is_digit_def)

lemma v4_no_comma: "CHR '','' \<notin> set (v4_string w)"
  using v4_string_chars [of w] by (auto simp: is_digit_def)

lemma isTrusted_masked:
  "ParseTrustedProxies vs = Inr ps \<Longrightarrow>
     isTrusted \<lparr>ciTrusted = ps\<rparr> a \<longleftrightarrow> (\<exists>v \<in> set vs. \<exists>p. trusted_proxy (trim_space v) = Some p \<and> Contains (Masked p) a)"
  by (induction vs arbitrary: ps) (auto simp: isTrusted_def split: option.splits sum.splits)

lemma parsed_prefix:
  assumes "trusted_proxy v = Some p"
  shows "0 \<le> pfBits p" and "pfBits p \<le> bit_len (pfAddr p)" and "addr_zone (pfAddr p) = []"
proof -
  have len: "bit_len (with_zone a z) = bit_len a" "addr_zone (with_zone a []) = []" "0 \<le> bit_len a" for a z
    by (simp_all add: bit_len_def with_zone_def addr_zone_def split: addr.splits)
  have "\<exists>a n. p = PrefixFrom a n \<and> 0 \<le> n \<and> n \<le> bit_len a"
  proof (cases "ParsePrefix v")
    case None
    then show ?thesis using assms len(3) by (fastforce simp: trusted_proxy_def split: option.splits)
  next
    case (Some q)
    then show ?thesis using assms
      by (fastforce simp: trusted_proxy_def ParsePrefix_def Let_def split: option.splits if_splits)
  qed
  then show "0 \<le> pfBits p" "pfBits p \<le> bit_len (pfAddr p)" "addr_zone (pfAddr p) = []"
    by (auto simp: PrefixFrom_def len)
qed

lemma ex_shape:
  "(\<exists>p. t = Some p \<and> (\<exists>w n. p = f w n \<and> Q w n)) \<longleftrightarrow> (\<exists>w n. t = Some (f w n) \<and> Q w n)"
  by auto

section \<open>Claims\<close>

lemma resolve_hops_proxies: "list_all (proxy_hop r) parts \<Longrightarrow> resolve_hops r peer (parts @ rest) = resolve_hops r peer rest"
  by (induction parts) (auto simp: proxy_hop_def Let_def split: option.splits)

text \<open>C28: The header \<open>X-Forwarded-For\<close> counts only as far as proxies vouch for it. The lines of the header are
  one list of hops, separated by commas. It has no effect unless the connection comes from a configured proxy; then
  the address is that of the rightmost hop that is not a proxy, whatever stands left of it, in the same line or
  in lines before, and that of the connection when this hop is no address or all hops are proxies. So a
  client cannot choose the address under which its failures count by what it puts into the header.\<close>

theorem forwarded_header_bound:
  assumes "parsePeer (hdRemoteAddr h) = Some p" and "peer = with_zone p []"
    and "hops = split_on CHR '','' (join_with CHR '','' (header_values (hdHeaders h) ''X-Forwarded-For''))"
  shows "(\<not> isTrusted r peer \<longrightarrow> resolve r h = addr_string peer)
    \<and> (\<forall>left hop right. isTrusted r peer \<and> hops = left @ hop # right \<and> \<not> proxy_hop r hop \<and> list_all (proxy_hop r) right \<longrightarrow>
        resolve r h = addr_string (case ParseAddr (trim_space hop) of None \<Rightarrow> peer | Some a \<Rightarrow> with_zone a []))
    \<and> (isTrusted r peer \<and> list_all (proxy_hop r) hops \<longrightarrow> resolve r h = addr_string peer)"
proof -
  have empty: "\<not> proxy_hop r []" "ParseAddr (trim_space []) = None"
  proof -
    show "ParseAddr (trim_space []) = None" by code_simp
    then show "\<not> proxy_hop r []" by (simp add: proxy_hop_def)
  qed
  have hops: "resolve r h = resolve_hops r peer (rev hops)" if "isTrusted r peer"
    using that assms(1,2) empty by (auto simp: resolve_def Let_def assms(3))
  have one: "resolve_hops r peer (hop # rest)
      = addr_string (case ParseAddr (trim_space hop) of None \<Rightarrow> peer | Some a \<Rightarrow> with_zone a [])" if "\<not> proxy_hop r hop" for hop rest
    using that by (auto simp: proxy_hop_def Let_def split: option.splits)
  show ?thesis
  proof (intro conjI allI impI)
    assume "\<not> isTrusted r peer"
    then show "resolve r h = addr_string peer" using assms(1,2) by (simp add: resolve_def)
  next
    fix left hop right
    assume a: "isTrusted r peer \<and> hops = left @ hop # right \<and> \<not> proxy_hop r hop \<and> list_all (proxy_hop r) right"
    then have "resolve r h = resolve_hops r peer (rev right @ hop # rev left)" using hops by simp
    also have "\<dots> = resolve_hops r peer (hop # rev left)" using a by (intro resolve_hops_proxies) (simp add: list_all_iff)
    finally show "resolve r h = addr_string (case ParseAddr (trim_space hop) of None \<Rightarrow> peer | Some a \<Rightarrow> with_zone a [])"
      using a one by simp
  next
    assume a: "isTrusted r peer \<and> list_all (proxy_hop r) hops"
    then show "resolve r h = addr_string peer"
      using hops resolve_hops_proxies [of r "rev hops" peer "[]"] by (simp add: list_all_iff)
  qed
qed

theorem forwarded_header_bound_witness:
  "resolve \<lparr>ciTrusted = []\<rparr> \<lparr>hdRemoteAddr = ''9.9.9.9:5'', hdHeaders = [(''X-Forwarded-For'', ''1.1.1.1'')]\<rparr> = ''9.9.9.9''
   \<and> resolve \<lparr>ciTrusted = [\<lparr>pfAddr = V4 0x0A000000, pfBits = 8\<rparr>]\<rparr>
       \<lparr>hdRemoteAddr = ''10.0.0.1:5'', hdHeaders = [(''X-Forwarded-For'', ''2.2.2.2''), (''X-Forwarded-For'', ''1.1.1.1, 8.8.8.8, 10.2.3.4'')]\<rparr>
     = ''8.8.8.8''"
proof (rule conjI)
  let ?h = "\<lparr>hdRemoteAddr = ''9.9.9.9:5'', hdHeaders = [(''X-Forwarded-For'', ''1.1.1.1'')]\<rparr>"
  have "parsePeer ''9.9.9.9:5'' = Some (V4 0x09090909)" by code_simp
  then have p: "parsePeer (hdRemoteAddr ?h) = Some (V4 0x09090909)" by simp
  have "\<not> isTrusted \<lparr>ciTrusted = []\<rparr> (with_zone (V4 0x09090909) [])" by (simp add: isTrusted_def)
  with forwarded_header_bound [OF p HOL.refl HOL.refl, of "\<lparr>ciTrusted = []\<rparr>"]
  have "resolve \<lparr>ciTrusted = []\<rparr> ?h = addr_string (with_zone (V4 0x09090909) [])" by blast
  moreover have "addr_string (with_zone (V4 0x09090909) []) = ''9.9.9.9''" by code_simp
  ultimately show "resolve \<lparr>ciTrusted = []\<rparr> ?h = ''9.9.9.9''" by simp
next
  let ?r = "\<lparr>ciTrusted = [\<lparr>pfAddr = V4 0x0A000000, pfBits = 8\<rparr>]\<rparr>"
  let ?h = "\<lparr>hdRemoteAddr = ''10.0.0.1:5'', hdHeaders = [(''X-Forwarded-For'', ''2.2.2.2''), (''X-Forwarded-For'', ''1.1.1.1, 8.8.8.8, 10.2.3.4'')]\<rparr>"
  have "parsePeer ''10.0.0.1:5'' = Some (V4 0x0A000001)" by code_simp
  then have p: "parsePeer (hdRemoteAddr ?h) = Some (V4 0x0A000001)" by simp
  have t: "isTrusted ?r (with_zone (V4 0x0A000001) [])" by code_simp
  have "join_with CHR '','' [''2.2.2.2'', ''1.1.1.1, 8.8.8.8, 10.2.3.4''] = ''2.2.2.2,1.1.1.1, 8.8.8.8, 10.2.3.4''" by simp
  moreover have "split_on CHR '','' ''2.2.2.2,1.1.1.1, 8.8.8.8, 10.2.3.4'' = [''2.2.2.2'', ''1.1.1.1''] @ '' 8.8.8.8'' # ['' 10.2.3.4'']"
    by code_simp
  ultimately have s: "split_on CHR '','' (join_with CHR '','' (header_values (hdHeaders ?h) ''X-Forwarded-For''))
      = [''2.2.2.2'', ''1.1.1.1''] @ '' 8.8.8.8'' # ['' 10.2.3.4'']" by (simp add: header_values_def)
  have hop: "\<not> proxy_hop ?r '' 8.8.8.8''" "list_all (proxy_hop ?r) ['' 10.2.3.4'']" by code_simp+
  have a: "addr_string (case ParseAddr (trim_space '' 8.8.8.8'') of None \<Rightarrow> with_zone (V4 0x0A000001) [] | Some a \<Rightarrow> with_zone a []) = ''8.8.8.8''"
    by code_simp
  have "resolve ?r ?h = addr_string (case ParseAddr (trim_space '' 8.8.8.8'') of None \<Rightarrow> with_zone (V4 0x0A000001) [] | Some a \<Rightarrow> with_zone a [])"
    using forwarded_header_bound [OF p HOL.refl HOL.refl, of ?r] t s hop by blast
  with a show "resolve ?r ?h = ''8.8.8.8''" by simp
qed

text \<open>Behind one proxy that appends the IPv4 address it saw to the header, the resolver gives
  exactly the printed form of that address, whatever the header held before.\<close>

lemma proxied_client_resolved:
  assumes "parsePeer (hdRemoteAddr h) = Some peer" and "isTrusted r (with_zone peer [])"
    and "header_values (hdHeaders h) ''X-Forwarded-For'' = spoof @ [pre @ CHR '','' # CHR '' '' # v4_string client]"
    and "\<not> isTrusted r (V4 client)"
  shows "resolve r h = addr_string (V4 client)"
proof -
  let ?own = "pre @ CHR '','' # CHR '' '' # v4_string client"
  have "trim_space (CHR '' '' # v4_string client) = trim_space (v4_string client)"
    by (simp add: trim_space_def segs_ascii is_space_def del: segs.simps(2))
  then have hop: "ParseAddr (trim_space (CHR '' '' # v4_string client)) = Some (V4 client)"
    by (simp add: ParseAddr_v4_string)
  obtain before where "join_with CHR '','' (spoof @ [?own]) = before @ CHR '','' # CHR '' '' # v4_string client"
    using join_with_append [of spoof "[?own]" "CHR '',''"] by (cases "spoof = []") auto
  moreover have "split_on CHR '','' (before @ CHR '','' # CHR '' '' # v4_string client)
      = split_on CHR '','' before @ [CHR '' '' # v4_string client]"
    by (simp add: split_on_append split_on_none v4_no_comma)
  ultimately show ?thesis
    using assms resolve_hops_untrusted [OF hop, of r "[]"] by (simp add: resolve_def with_zone_def)
qed


text \<open>C38: The list of trusted proxies means what its text says: an accepted list trusts an IPv4
  address exactly when the address agrees with one of the listed prefixes on its leading bits, a
  listed plain address being a prefix of 32 bits. No listed IPv6 prefix trusts an IPv4 address.\<close>

theorem trusted_proxies_exact:
  assumes "ParseTrustedProxies vs = Inr ps"
  shows "isTrusted (newClientIPResolver ps) (V4 a) \<longleftrightarrow>
    (\<exists>v \<in> set vs. \<exists>w n. trusted_proxy (trim_space v) = Some \<lparr>pfAddr = V4 w, pfBits = int n\<rparr> \<and> n \<le> 32
       \<and> unat a div 2 ^ (32 - n) = unat w div 2 ^ (32 - n))"
proof -
  have eq: "Contains (Masked p) (V4 a) \<longleftrightarrow> (\<exists>w n. p = \<lparr>pfAddr = V4 w, pfBits = int n\<rparr> \<and> n \<le> 32
       \<and> unat a div 2 ^ (32 - n) = unat w div 2 ^ (32 - n))"
    if t: "trusted_proxy v = Some p" for v p
  proof (cases "pfAddr p")
    case (V4 w)
    then have n: "0 \<le> pfBits p" "pfBits p \<le> 32" using parsed_prefix [OF t] by (simp_all add: bit_len_def)
    define n where "n = nat (pfBits p)"
    have p: "p = \<lparr>pfAddr = V4 w, pfBits = int n\<rparr>" "n \<le> 32" using V4 n by (simp_all add: n_def)
    have "drop_bit (32 - n) a = drop_bit (32 - n) w \<longleftrightarrow> unat a div 2 ^ (32 - n) = unat w div 2 ^ (32 - n)"
      by (simp only: word_unat_eq_iff unat_drop_bit_eq) (simp only: drop_bit_eq_div)
    then show ?thesis using Contains_Masked_v4 [of "int n" w a] p by (auto simp: nat_diff_distrib')
  next
    case (V6 w z)
    then show ?thesis by (auto simp: Contains_def Masked_def)
  qed
  have "isTrusted (newClientIPResolver ps) (V4 a) \<longleftrightarrow> (\<exists>v \<in> set vs. \<exists>p. trusted_proxy (trim_space v) = Some p \<and> Contains (Masked p) (V4 a))"
    using isTrusted_masked [OF assms] by (simp add: newClientIPResolver_def)
  also have "\<dots> \<longleftrightarrow> (\<exists>v \<in> set vs. \<exists>p. trusted_proxy (trim_space v) = Some p \<and> (\<exists>w n. p = \<lparr>pfAddr = V4 w, pfBits = int n\<rparr> \<and> n \<le> 32
       \<and> unat a div 2 ^ (32 - n) = unat w div 2 ^ (32 - n)))"
    using eq by (simp cong: conj_cong)
  finally show ?thesis by (simp only: ex_shape)
qed

theorem trusted_proxies_exact_witness:
  "isTrusted (newClientIPResolver [\<lparr>pfAddr = V4 0x0A000000, pfBits = 8\<rparr>]) (V4 0x0A010203) \<longleftrightarrow>
    (\<exists>v \<in> set ['' 10.9.9.9/8 '']. \<exists>w n. trusted_proxy (trim_space v) = Some \<lparr>pfAddr = V4 w, pfBits = int n\<rparr> \<and> n \<le> 32
       \<and> unat (0x0A010203 :: 32 word) div 2 ^ (32 - n) = unat w div 2 ^ (32 - n))"
proof -
  have "ParseTrustedProxies ['' 10.9.9.9/8 ''] = Inr [\<lparr>pfAddr = V4 0x0A000000, pfBits = 8\<rparr>]" by code_simp
  then show ?thesis by (rule trusted_proxies_exact)
qed

end
