(* ===== verification/Server.thy ===== *)
theory Server
  imports StoreWrite Limiter ClientIP
begin

text \<open>
  \<open>internal/server/server.go\<close>: the HTTP handlers. A request is served in one step; each call of the
  store and of the clock inside it finds an environment of its own (\<open>At 0\<close> to \<open>At 4\<close>), so the disk
  may fail in one call and not in the next. The route comes from \<open>net/http\<close>'s multiplexer over the
  decoded segments of a clean path. A panic (status 0) ends the connection without an answer.
\<close>

section \<open>Requests, answers and the state\<close>

record http_request = http_head +
  rqMethod :: string
  rqSegments :: "string list"
  rqHost :: string
  rqBody :: body
  rqContentLength :: int64

datatype reply_body =
    NoBody
  | TextBody string
  | ErrorBody string string
  | HealthBody
  | InfoBody RequestInfo
  | BegunBody string int64
  | ReceiptBody Receipt
  | ReceiptsBody "Receipt list"
  | ClosureBody RequestClosure
  | BytesBody string

record response =
  rpStatus :: nat
  rpHeaders :: "(string \<times> string) list"
  rpBody :: reply_body

text \<open>
  The configuration: the proxies, the embedded files of the browser client, the table of
  \<open>mime.TypeByExtension\<close>, and \<open>url.Parse\<close> as the scheme and the host of a text it accepts.
\<close>

record server_config =
  scClientIPs :: clientIPResolver
  scWebFile :: "string \<Rightarrow> string option"
  scMimeType :: "string \<Rightarrow> string"
  scParseURL :: "string \<Rightarrow> (string \<times> string) option"

record server =
  svDisk :: disk
  svLimiter :: windows

definition url_path :: "http_request \<Rightarrow> string" where
  "url_path r = (if rqSegments r = [] then ''/'' else concat (map (\<lambda>s. slash # s) (rqSegments r)))"

section \<open>Writing answers\<close>

definition set_header :: "string \<Rightarrow> string \<Rightarrow> response \<Rightarrow> response" where
  "set_header k v p = p\<lparr>rpHeaders := AList.update k v (rpHeaders p)\<rparr>"

definition writeJSON :: "nat \<Rightarrow> reply_body \<Rightarrow> response" where
  "writeJSON status b =
     \<lparr>rpStatus = status, rpHeaders = [(''Content-Type'', ''application/json; charset=utf-8'')], rpBody = b\<rparr>"

definition writeError :: "nat \<Rightarrow> string \<Rightarrow> string \<Rightarrow> response" where
  "writeError status code message = writeJSON status (ErrorBody code message)"

definition writeStatus :: "nat \<Rightarrow> response" where
  "writeStatus status = \<lparr>rpStatus = status, rpHeaders = [], rpBody = NoBody\<rparr>"

definition writeBytes :: "string \<Rightarrow> int64 \<Rightarrow> string \<Rightarrow> response" where
  "writeBytes contentType len b =
     \<lparr>rpStatus = 200, rpHeaders = [(''Content-Type'', contentType), (''Content-Length'', int_str len)],
      rpBody = BytesBody b\<rparr>"

definition notFound :: response where
  "notFound = \<lparr>rpStatus = 404, rpHeaders = [(''Content-Type'', ''text/plain; charset=utf-8'')],
     rpBody = TextBody ''404 page not found''\<rparr>"

definition internalError :: response where
  "internalError = writeError 500 ''INTERNAL_ERROR'' ''The server could not complete the request.''"

text \<open>The text of \<open>err.Error()\<close> for an error that wraps \<open>ErrInvalid\<close>.\<close>

definition invalid_text :: "string \<Rightarrow> string" where
  "invalid_text detail = (if detail = [] then ''invalid input'' else ''invalid input: '' @ detail)"

fun storeError :: "err \<Rightarrow> response" where
  "storeError ErrNotFound = writeError 404 ''NOT_FOUND'' ''The requested upload was not found.''"
| "storeError ErrExpired = writeError 410 ''REQUEST_EXPIRED'' ''This request has expired.''"
| "storeError ErrClosed = writeError 410 ''REQUEST_CLOSED'' ''This request is closed to new submissions.''"
| "storeError ErrQuota = writeError 413 ''REQUEST_QUOTA_EXCEEDED'' ''This upload exceeds the request quota.''"
| "storeError (ErrConflict _) = writeError 409 ''UPLOAD_CONFLICT'' ''The upload state conflicts with this request.''"
| "storeError (ErrInvalid detail) = writeError 400 ''INVALID_UPLOAD'' (invalid_text detail)"
| "storeError Panic = writeStatus 0"
| "storeError (ErrOS _) = internalError"
| "storeError ErrJSON = internalError"

definition internal_of :: "err \<Rightarrow> response" where
  "internal_of e = (if e = Panic then writeStatus 0 else internalError)"

definition serveWeb :: "server_config \<Rightarrow> string \<Rightarrow> string \<Rightarrow> response" where
  "serveWeb cfg path contentType =
     (case scWebFile cfg path of
        None \<Rightarrow> internalError
      | Some b \<Rightarrow> \<lparr>rpStatus = 200, rpHeaders = [(''Content-Type'', contentType)], rpBody = BytesBody b\<rparr>)"

section \<open>Authorization\<close>

definition bearer :: "http_request \<Rightarrow> string" where
  "bearer r =
     (let header = header_get (hdHeaders r) ''Authorization'' in
      if prefix ''OpaqueDrop '' header then trim_prefix ''OpaqueDrop '' header else [])"

definition authorize :: "server_config \<Rightarrow> (nat \<Rightarrow> env) \<Rightarrow> server \<Rightarrow> http_request \<Rightarrow> string \<Rightarrow> string
    \<Rightarrow> (response + RequestBundle) \<times> server" where
  "authorize cfg At s r i kind =
     (let ip = resolve (scClientIPs cfg) r;
          (stop, l) = blocked (svLimiter s) ip (envNow (At 0));
          s = s\<lparr>svLimiter := l\<rparr>
      in if stop
         then (Inl (set_header ''Retry-After'' ''60'' (writeError 429 ''AUTH_RATE_LIMITED''
           ''Too many failed authorization attempts. Try again later.'')), s)
         else case Authenticate (At 1) (svDisk s) i (bearer r) kind of
           None \<Rightarrow> (Inl (writeError 401 ''INVALID_CAPABILITY'' ''The capability is missing or invalid.''),
             s\<lparr>svLimiter := failure l ip (envNow (At 2))\<rparr>)
         | Some bundle \<Rightarrow>
             if kind = ''submit'' then
               (case Closed (At 2) (svDisk s) (rbID bundle) of
                  Inl e \<Rightarrow> (Inl (storeError e), s)
                | Inr True \<Rightarrow> (Inl (storeError ErrClosed), s)
                | Inr False \<Rightarrow> (Inr bundle, s))
             else (Inr bundle, s))"

text \<open>What a handler does once it has a bundle, and the answer of a call of the store.\<close>

definition with_auth :: "server_config \<Rightarrow> (nat \<Rightarrow> env) \<Rightarrow> server \<Rightarrow> http_request \<Rightarrow> string \<Rightarrow> string
    \<Rightarrow> (RequestBundle \<Rightarrow> server \<Rightarrow> response \<times> server) \<Rightarrow> response \<times> server" where
  "with_auth cfg At s r i kind act =
     (case authorize cfg At s r i kind of (Inl p, s) \<Rightarrow> (p, s) | (Inr b, s) \<Rightarrow> act b s)"

definition stored :: "(err + 'a) \<times> disk \<Rightarrow> ('a \<Rightarrow> response) \<Rightarrow> server \<Rightarrow> response \<times> server" where
  "stored result ok s =
     (case result of (Inl e, d) \<Rightarrow> (storeError e, s\<lparr>svDisk := d\<rparr>) | (Inr x, d) \<Rightarrow> (ok x, s\<lparr>svDisk := d\<rparr>))"

definition with_index :: "string \<Rightarrow> (int \<Rightarrow> server \<Rightarrow> response \<times> server) \<Rightarrow> server \<Rightarrow> response \<times> server" where
  "with_index value act s =
     (case ParseChunkIndex value of
        Inl _ \<Rightarrow> (writeError 400 ''INVALID_CHUNK'' ''The chunk index is invalid.'', s)
      | Inr i \<Rightarrow> act i s)"

section \<open>Pages\<close>

definition landing :: "server_config \<Rightarrow> server \<Rightarrow> http_request \<Rightarrow> response \<times> server" where
  "landing cfg s r =
     (if url_path r \<noteq> ''/'' then notFound
      else serveWeb cfg ''web/index.html'' ''text/html; charset=utf-8'', s)"

definition requestPage :: "server_config \<Rightarrow> (nat \<Rightarrow> env) \<Rightarrow> server \<Rightarrow> string \<Rightarrow> response \<times> server" where
  "requestPage cfg At s i =
     ((case Closed (At 0) (svDisk s) i of
        Inr True \<Rightarrow> storeError ErrClosed
      | c \<Rightarrow>
          if \<not> is_ok c \<and> c \<noteq> Inl ErrNotFound then internalError
          else if \<not> is_ok (Request (At 1) (svDisk s) i) then notFound
          else serveWeb cfg ''web/request.html'' ''text/html; charset=utf-8''), s)"

definition asset :: "server_config \<Rightarrow> server \<Rightarrow> string \<Rightarrow> response \<times> server" where
  "asset cfg s value =
     (let name = filepath_base value in
      if name \<noteq> value \<or> sublist ''..'' name then (notFound, s)
      else let contentType = scMimeType cfg (filepath_ext name);
               contentType = (if contentType = [] then ''application/octet-stream'' else contentType);
               p = serveWeb cfg (''web/'' @ name) contentType
        in (set_header ''Cache-Control'' ''public, max-age=3600'' p, s))"

definition health :: "server \<Rightarrow> response \<times> server" where
  "health s = (writeJSON 200 HealthBody, s)"

section \<open>Submission\<close>

definition requestInfo :: "server_config \<Rightarrow> (nat \<Rightarrow> env) \<Rightarrow> server \<Rightarrow> http_request \<Rightarrow> string \<Rightarrow> response \<times> server" where
  "requestInfo cfg At s r i =
     with_auth cfg At s r i ''submit'' (\<lambda>bundle s.
       if \<not> after (rbExpiresAt bundle) (envNow (At 3))
       then (writeError 410 ''REQUEST_EXPIRED'' ''This request has expired.'', s)
       else case Info (At 4) (svDisk s) bundle of
         Inl e \<Rightarrow> (internal_of e, s)
       | Inr info \<Rightarrow> (writeJSON 200 (InfoBody info), s))"

text \<open>Reading the body fails when it is longer than the limit of \<open>MaxBytesReader\<close> or breaks off.\<close>

definition beginUpload :: "server_config \<Rightarrow> (nat \<Rightarrow> env) \<Rightarrow> server \<Rightarrow> http_request \<Rightarrow> string \<Rightarrow> response \<times> server" where
  "beginUpload cfg At s r i =
     with_auth cfg At s r i ''submit'' (\<lambda>bundle s.
       let raw = bodyBytes (rqBody r) in
       if length raw > MaxManifest \<or> bodyFails (rqBody r)
       then (writeError 413 ''MANIFEST_TOO_LARGE'' ''The upload manifest is too large.'', s)
       else stored (BeginUpload (At 3) (svDisk s) bundle raw)
         (\<lambda>m. writeJSON 201 (BegunBody (mfUploadID m) (mfChunkCount m))) s)"

definition putChunk :: "server_config \<Rightarrow> (nat \<Rightarrow> env) \<Rightarrow> server \<Rightarrow> http_request \<Rightarrow> string \<Rightarrow> string \<Rightarrow> string
    \<Rightarrow> response \<times> server" where
  "putChunk cfg At s r i u idx =
     with_auth cfg At s r i ''submit'' (\<lambda>_. with_index idx (\<lambda>index s.
       stored (PutChunk (At 3) (svDisk s) i u index (rqBody r) (rqContentLength r)) (\<lambda>_. writeStatus 204) s))"

definition headChunk :: "server_config \<Rightarrow> (nat \<Rightarrow> env) \<Rightarrow> server \<Rightarrow> http_request \<Rightarrow> string \<Rightarrow> string \<Rightarrow> string
    \<Rightarrow> response \<times> server" where
  "headChunk cfg At s r i u idx =
     with_auth cfg At s r i ''submit'' (\<lambda>_. with_index idx (\<lambda>index s.
       stored (ChunkDigest (At 3) (svDisk s) i u index, svDisk s)
         (\<lambda>digest. set_header ''X-OpaqueDrop-SHA256'' digest (writeStatus 200)) s))"

definition completeUpload :: "server_config \<Rightarrow> (nat \<Rightarrow> env) \<Rightarrow> server \<Rightarrow> http_request \<Rightarrow> string \<Rightarrow> string
    \<Rightarrow> response \<times> server" where
  "completeUpload cfg At s r i u =
     with_auth cfg At s r i ''submit'' (\<lambda>_ s.
       stored (Complete (At 3) (svDisk s) i u) (\<lambda>receipt. writeJSON 200 (ReceiptBody receipt)) s)"

section \<open>Collection\<close>

definition listUploads :: "server_config \<Rightarrow> (nat \<Rightarrow> env) \<Rightarrow> server \<Rightarrow> http_request \<Rightarrow> string \<Rightarrow> response \<times> server" where
  "listUploads cfg At s r i =
     with_auth cfg At s r i ''collect'' (\<lambda>_ s.
       case ListReceipts (At 3) (svDisk s) i of
         Inl e \<Rightarrow> (internal_of e, s)
       | Inr receipts \<Rightarrow> (writeJSON 200 (ReceiptsBody receipts), s))"

definition closeRequest :: "server_config \<Rightarrow> (nat \<Rightarrow> env) \<Rightarrow> server \<Rightarrow> http_request \<Rightarrow> string \<Rightarrow> response \<times> server" where
  "closeRequest cfg At s r i =
     with_auth cfg At s r i ''collect'' (\<lambda>_ s.
       stored (CloseRequest (At 3) (svDisk s) i) (\<lambda>closure. writeJSON 200 (ClosureBody closure)) s)"

definition collectManifest :: "server_config \<Rightarrow> (nat \<Rightarrow> env) \<Rightarrow> server \<Rightarrow> http_request \<Rightarrow> string \<Rightarrow> string
    \<Rightarrow> response \<times> server" where
  "collectManifest cfg At s r i u =
     with_auth cfg At s r i ''collect'' (\<lambda>_ s.
       stored (ReadManifest (At 3) (svDisk s) i u, svDisk s)
         (\<lambda>b. writeBytes ''application/json'' (int (length b)) b) s)"

text \<open>The copy of the opened file; what a failing read leaves out is not in the answer.\<close>

definition copied :: "env \<Rightarrow> path \<Rightarrow> node \<Rightarrow> string" where
  "copied E p n = (case n of File c \<Rightarrow> if envFault E OpRead p then [] else content_bytes E c | _ \<Rightarrow> [])"

definition collectChunk :: "server_config \<Rightarrow> (nat \<Rightarrow> env) \<Rightarrow> server \<Rightarrow> http_request \<Rightarrow> string \<Rightarrow> string \<Rightarrow> string
    \<Rightarrow> response \<times> server" where
  "collectChunk cfg At s r i u idx =
     with_auth cfg At s r i ''collect'' (\<lambda>_. with_index idx (\<lambda>index s.
       stored (OpenChunk (At 3) (svDisk s) i u index, svDisk s)
         (\<lambda>(n, len). writeBytes ''application/octet-stream'' len (copied (At 4) (chunkPath i u index) n)) s))"

definition acknowledge :: "server_config \<Rightarrow> (nat \<Rightarrow> env) \<Rightarrow> server \<Rightarrow> http_request \<Rightarrow> string \<Rightarrow> string
    \<Rightarrow> response \<times> server" where
  "acknowledge cfg At s r i u =
     with_auth cfg At s r i ''collect'' (\<lambda>bundle s.
       stored (Acknowledge (At 3) (svDisk s) bundle u) (\<lambda>_. writeStatus 204) s)"

section \<open>Routes\<close>

datatype route = Landing | Page string | Asset string | Healthz | Info_of string | Uploads string
  | Put_chunk string string string | Head_chunk string string string | Complete_of string string
  | List_of string | Close_of string | Manifest_of string string | Chunk_of string string string
  | Ack_of string string

definition is_get :: "string \<Rightarrow> bool" where
  "is_get m \<longleftrightarrow> m = ''GET'' \<or> m = ''HEAD''"

text \<open>A pattern, the methods it is for and the route with the values of its wildcards.\<close>

definition api_route :: "string \<Rightarrow> string list \<Rightarrow> route option" where
  "api_route m seg =
     (case seg of
        [kind, i] \<Rightarrow>
          if kind = ''requests'' \<and> is_get m then Some (Info_of i) else None
      | [kind, i, a] \<Rightarrow>
          if kind = ''requests'' \<and> a = ''uploads'' \<and> m = ''POST'' then Some (Uploads i)
          else if kind = ''collect'' \<and> a = ''uploads'' \<and> is_get m then Some (List_of i)
          else if kind = ''collect'' \<and> a = ''close'' \<and> m = ''POST'' then Some (Close_of i)
          else None
      | [kind, i, a, u, b] \<Rightarrow>
          if a \<noteq> ''uploads'' then None
          else if kind = ''requests'' \<and> b = ''complete'' \<and> m = ''POST'' then Some (Complete_of i u)
          else if kind = ''collect'' \<and> b = ''manifest'' \<and> is_get m then Some (Manifest_of i u)
          else if kind = ''collect'' \<and> b = ''ack'' \<and> m = ''POST'' then Some (Ack_of i u)
          else None
      | [kind, i, a, u, b, x] \<Rightarrow>
          if a \<noteq> ''uploads'' \<or> b \<noteq> ''chunks'' then None
          else if kind = ''requests'' \<and> m = ''PUT'' then Some (Put_chunk i u x)
          else if kind = ''requests'' \<and> m = ''HEAD'' then Some (Head_chunk i u x)
          else if kind = ''collect'' \<and> is_get m then Some (Chunk_of i u x)
          else None
      | _ \<Rightarrow> None)"

definition mux :: "string \<Rightarrow> string list \<Rightarrow> route option" where
  "mux m seg =
     (let special = (if [] \<in> set seg then None
        else case seg of
          [a] \<Rightarrow> if a = ''healthz'' \<and> is_get m then Some Healthz else None
        | [a, x] \<Rightarrow>
            if a = ''r'' \<and> is_get m then Some (Page x)
            else if a = ''assets'' \<and> is_get m then Some (Asset x) else None
        | a # v # rest \<Rightarrow> if a = ''api'' \<and> v = ''v1'' then api_route m rest else None
        | _ \<Rightarrow> None)
      in if special \<noteq> None then special else if is_get m then Some Landing else None)"

definition methodNotAllowed :: response where
  "methodNotAllowed = \<lparr>rpStatus = 405, rpHeaders = [(''Content-Type'', ''text/plain; charset=utf-8'')],
     rpBody = TextBody ''Method Not Allowed''\<rparr>"

fun dispatch :: "server_config \<Rightarrow> (nat \<Rightarrow> env) \<Rightarrow> server \<Rightarrow> http_request \<Rightarrow> route \<Rightarrow> response \<times> server" where
  "dispatch cfg At s r Landing = landing cfg s r"
| "dispatch cfg At s r (Page i) = requestPage cfg At s i"
| "dispatch cfg At s r (Asset name) = asset cfg s name"
| "dispatch cfg At s r Healthz = health s"
| "dispatch cfg At s r (Info_of i) = requestInfo cfg At s r i"
| "dispatch cfg At s r (Uploads i) = beginUpload cfg At s r i"
| "dispatch cfg At s r (Put_chunk i u x) = putChunk cfg At s r i u x"
| "dispatch cfg At s r (Head_chunk i u x) = headChunk cfg At s r i u x"
| "dispatch cfg At s r (Complete_of i u) = completeUpload cfg At s r i u"
| "dispatch cfg At s r (List_of i) = listUploads cfg At s r i"
| "dispatch cfg At s r (Close_of i) = closeRequest cfg At s r i"
| "dispatch cfg At s r (Manifest_of i u) = collectManifest cfg At s r i u"
| "dispatch cfg At s r (Chunk_of i u x) = collectChunk cfg At s r i u x"
| "dispatch cfg At s r (Ack_of i u) = acknowledge cfg At s r i u"

section \<open>The handler\<close>

definition security_headers :: "(string \<times> string) list" where
  "security_headers =
     [(''X-Content-Type-Options'', ''nosniff''), (''X-Frame-Options'', ''DENY''),
      (''Referrer-Policy'', ''no-referrer''),
      (''Permissions-Policy'', ''camera=(), microphone=(), geolocation=(), payment=(), usb=()''),
      (''Content-Security-Policy'', ''default-src 'none'; script-src 'self'; style-src 'self'; img-src 'self'; connect-src 'self'; base-uri 'none'; form-action 'none'; frame-ancestors 'none'' @ [CHR 0x27]),
      (''Cross-Origin-Opener-Policy'', ''same-origin''), (''Cache-Control'', ''no-store'')]"

text \<open>They are set before the handler runs, which may replace one.\<close>

definition securityHeaders :: "response \<times> server \<Rightarrow> response \<times> server" where
  "securityHeaders = (\<lambda>(p, s). (p\<lparr>rpHeaders := foldl (\<lambda>hs (k, v). AList.update k v hs) security_headers (rpHeaders p)\<rparr>, s))"

definition cross_origin :: "server_config \<Rightarrow> http_request \<Rightarrow> bool" where
  "cross_origin cfg r \<longleftrightarrow>
     prefix ''/api/'' (url_path r) \<and>
     (equal_fold (header_get (hdHeaders r) ''Sec-Fetch-Site'') ''cross-site''
      \<or> (let origin = header_get (hdHeaders r) ''Origin'' in origin \<noteq> [] \<and>
          (case scParseURL cfg origin of None \<Rightarrow> True | Some (_, host) \<Rightarrow> \<not> equal_fold host (rqHost r))))"

definition originBoundary :: "server_config \<Rightarrow> http_request \<Rightarrow> server \<Rightarrow> response \<times> server \<Rightarrow> response \<times> server" where
  "originBoundary cfg r s nxt =
     (if cross_origin cfg r
      then (writeError 403 ''CROSS_ORIGIN_DENIED'' ''Cross-origin API requests are not allowed.'', s)
      else nxt)"

definition serve :: "server_config \<Rightarrow> (nat \<Rightarrow> env) \<Rightarrow> server \<Rightarrow> http_request \<Rightarrow> response \<times> server" where
  "serve cfg At s r =
     securityHeaders (originBoundary cfg r s
       (case mux (rqMethod r) (rqSegments r) of
          None \<Rightarrow> (methodNotAllowed, s)
        | Some t \<Rightarrow> dispatch cfg At s r t))"

end
