(* ===== verification/ServerRuns.thy ===== *)
theory ServerRuns
  imports Server StorePurge
begin

text \<open>
  The HTTP server as a client of the store: each request is a few steps of the store system, taken
  with the capability they need. What a request may change, what it answers, and how many guesses of a
  capability an address has.
\<close>

section \<open>One request\<close>

lemma rpStatus_simps [simp]:
  "rpStatus (set_header k v p) = rpStatus p" "rpStatus (writeJSON st b) = st" "rpStatus (writeError st c m) = st"
  "rpStatus (writeStatus st) = st" "rpStatus (writeBytes ct len bs) = 200" "rpStatus notFound = 404"
  "rpStatus internalError = 500" "rpStatus methodNotAllowed = 405"
  by (simp_all add: set_header_def writeJSON_def writeError_def writeStatus_def writeBytes_def notFound_def
      internalError_def methodNotAllowed_def)

lemma storeError_status: "rpStatus (storeError e) \<in> {0, 400, 404, 409, 410, 413, 500}"
  by (cases e) simp_all

lemma internal_of_status: "rpStatus (internal_of e) \<in> {0, 500}"
  by (simp add: internal_of_def)

lemma serveWeb_status: "rpStatus (serveWeb cfg path ct) \<in> {200, 500}"
  by (simp add: serveWeb_def split: option.split)

lemma storeError_not [simp]: "rpStatus (storeError e) \<noteq> 401" "rpStatus (internal_of e) \<noteq> 401"
  "rpStatus (serveWeb cfg path ct) \<noteq> 401"
  using storeError_status [of e] internal_of_status [of e] serveWeb_status [of cfg path ct] by auto

text \<open>What authorization did: it refused and counted, refused without counting, or gave the bundle.\<close>

definition client :: "server_config \<Rightarrow> http_request \<Rightarrow> string" where
  "client cfg r = resolve (scClientIPs cfg) r"

definition checked :: "server_config \<Rightarrow> (nat \<Rightarrow> env) \<Rightarrow> server \<Rightarrow> http_request \<Rightarrow> server" where
  "checked cfg At s r = s\<lparr>svLimiter := limiter_apply (Check (client cfg r) (envNow (At 0))) (svLimiter s)\<rparr>"

lemma authorize_cases:
  obtains
    (limited) p where "authorize cfg At s r i kind = (Inl p, checked cfg At s r)" "rpStatus p = 429"
      "fst (blocked (svLimiter s) (client cfg r) (envNow (At 0)))"
  | (unauthorized) p where "authorize cfg At s r i kind = (Inl p, (checked cfg At s r)
        \<lparr>svLimiter := failure (svLimiter (checked cfg At s r)) (client cfg r) (envNow (At 2))\<rparr>)" "rpStatus p = 401"
      "\<not> fst (blocked (svLimiter s) (client cfg r) (envNow (At 0)))" "Authenticate (At 1) (svDisk s) i (bearer r) kind = None"
  | (closed) e b where "authorize cfg At s r i kind = (Inl (storeError e), checked cfg At s r)" "kind = ''submit''"
      "Authenticate (At 1) (svDisk s) i (bearer r) kind = Some b"
      "Closed (At 2) (svDisk s) (rbID b) = Inr True \<and> e = ErrClosed \<or> Closed (At 2) (svDisk s) (rbID b) = Inl e"
  | (granted) b where "authorize cfg At s r i kind = (Inr b, checked cfg At s r)"
      "Authenticate (At 1) (svDisk s) i (bearer r) kind = Some b"
      "kind = ''submit'' \<longrightarrow> Closed (At 2) (svDisk s) (rbID b) = Inr False"
proof -
  obtain stop l where b: "blocked (svLimiter s) (client cfg r) (envNow (At 0)) = (stop, l)" by fastforce
  then have c: "checked cfg At s r = s\<lparr>svLimiter := l\<rparr>" by (simp add: checked_def)
  note d = authorize_def [folded client_def] b c Let_def
  show thesis
  proof (cases stop)
    case True
    then show thesis using b by (intro limited [of "set_header ''Retry-After'' ''60'' (writeError 429 ''AUTH_RATE_LIMITED''
           ''Too many failed authorization attempts. Try again later.'')"]) (simp_all add: d)
  next
    case False
    show thesis
    proof (cases "Authenticate (At 1) (svDisk s) i (bearer r) kind")
      case None
      then show thesis using b False by (intro unauthorized [of "writeError 401 ''INVALID_CAPABILITY'' ''The capability is missing or invalid.''"]) (simp_all add: d)
    next
      case (Some bd)
      show thesis
      proof (cases "kind = ''submit'' \<and> Closed (At 2) (svDisk s) (rbID bd) \<noteq> Inr False")
        case True
        then obtain e where "Closed (At 2) (svDisk s) (rbID bd) = Inr True \<and> e = ErrClosed
            \<or> Closed (At 2) (svDisk s) (rbID bd) = Inl e"
          by (cases "Closed (At 2) (svDisk s) (rbID bd)") auto
        then show thesis using b False Some True by (intro closed [of e bd]) (auto simp: d split: if_splits)
      next
        case no: False
        then show thesis using b False Some by (intro granted [of bd]) (auto simp: d)
      qed
    qed
  qed
qed

lemma svDisk_checked [simp]: "svDisk (checked cfg At s r) = svDisk s"
  by (simp add: checked_def)

lemma svLimiter_checked: "svLimiter (checked cfg At s r) = limiter_run [Check (client cfg r) (envNow (At 0))] (svLimiter s)"
  by (simp add: checked_def limiter_run_def)

lemma stored_simps [simp]:
  "stored (Inl e, d) ok s = (storeError e, s\<lparr>svDisk := d\<rparr>)" "stored (Inr x, d) ok s = (ok x, s\<lparr>svDisk := d\<rparr>)"
  by (simp_all add: stored_def)

lemma stored_effect:
  "svDisk (snd (stored res ok s)) = snd res" "svLimiter (snd (stored res ok s)) = svLimiter s"
  by (simp_all add: stored_def split: prod.split sum.split)

section \<open>Routes and capabilities\<close>

fun route_auth :: "route \<Rightarrow> (string \<times> string) option" where
  "route_auth (Info_of i) = Some (''submit'', i)"
| "route_auth (Uploads i) = Some (''submit'', i)"
| "route_auth (Put_chunk i u x) = Some (''submit'', i)"
| "route_auth (Head_chunk i u x) = Some (''submit'', i)"
| "route_auth (Complete_of i u) = Some (''submit'', i)"
| "route_auth (List_of i) = Some (''collect'', i)"
| "route_auth (Close_of i) = Some (''collect'', i)"
| "route_auth (Manifest_of i u) = Some (''collect'', i)"
| "route_auth (Chunk_of i u x) = Some (''collect'', i)"
| "route_auth (Ack_of i u) = Some (''collect'', i)"
| "route_auth _ = None"

text \<open>The call of the store that a granted request makes, as a function on the disk.\<close>

fun route_effect :: "(nat \<Rightarrow> env) \<Rightarrow> http_request \<Rightarrow> RequestBundle \<Rightarrow> route \<Rightarrow> disk \<Rightarrow> disk" where
  "route_effect At r b (Uploads i) d =
     (let raw = bodyBytes (rqBody r) in
      if length raw > MaxManifest \<or> bodyFails (rqBody r) then d else snd (BeginUpload (At 3) d b raw))"
| "route_effect At r b (Put_chunk i u x) d =
     (case ParseChunkIndex x of
        Inl _ \<Rightarrow> d
      | Inr k \<Rightarrow> snd (PutChunk (At 3) d i u k (rqBody r) (rqContentLength r)))"
| "route_effect At r b (Complete_of i u) d = snd (Complete (At 3) d i u)"
| "route_effect At r b (Close_of i) d = snd (CloseRequest (At 3) d i)"
| "route_effect At r b (Ack_of i u) d = snd (Acknowledge (At 3) d b u)"
| "route_effect At r b _ d = d"

lemmas handler_defs = requestInfo_def beginUpload_def putChunk_def headChunk_def completeUpload_def listUploads_def
  closeRequest_def collectManifest_def collectChunk_def acknowledge_def

lemmas page_defs = landing_def requestPage_def asset_def health_def

lemma page_effect: "route_auth t = None \<Longrightarrow> snd (dispatch cfg At s r t) = s \<and> rpStatus (fst (dispatch cfg At s r t)) \<noteq> 401"
  by (cases t) (simp_all add: page_defs Let_def split: sum.split bool.split)

lemma dispatch_refused:
  assumes "route_auth t = Some (kind, i)" and "authorize cfg At s r i kind = (Inl p, s')"
  shows "dispatch cfg At s r t = (p, s')"
  using assms by (cases t) (auto simp: handler_defs with_auth_def)

lemma dispatch_granted:
  assumes "route_auth t = Some (kind, i)" and "authorize cfg At s r i kind = (Inr b, s')"
  shows "svDisk (snd (dispatch cfg At s r t)) = route_effect At r b t (svDisk s')"
    and "svLimiter (snd (dispatch cfg At s r t)) = svLimiter s'"
    and "rpStatus (fst (dispatch cfg At s r t)) \<noteq> 401"
  using assms
  by (cases t; auto simp: handler_defs with_auth_def with_index_def Let_def stored_effect stored_def
      split: sum.split prod.split if_splits)+

text \<open>The answer of the handler is that of the dispatched route but for the security headers.\<close>

lemma serve_simps:
  "rpStatus (fst (serve cfg At s r)) = rpStatus (fst (originBoundary cfg r s
     (case mux (rqMethod r) (rqSegments r) of None \<Rightarrow> (methodNotAllowed, s) | Some t \<Rightarrow> dispatch cfg At s r t)))"
  "rpBody (fst (serve cfg At s r)) = rpBody (fst (originBoundary cfg r s
     (case mux (rqMethod r) (rqSegments r) of None \<Rightarrow> (methodNotAllowed, s) | Some t \<Rightarrow> dispatch cfg At s r t)))"
  "snd (serve cfg At s r) = snd (originBoundary cfg r s
     (case mux (rqMethod r) (rqSegments r) of None \<Rightarrow> (methodNotAllowed, s) | Some t \<Rightarrow> dispatch cfg At s r t))"
  by (simp_all add: serve_def securityHeaders_def split: prod.split)

text \<open>The whole effect of a request, in three cases.\<close>

lemma serve_cases:
  obtains
    (plain) "snd (serve cfg At s r) = s" "rpStatus (fst (serve cfg At s r)) \<noteq> 401"
  | (refused) t kind i where "mux (rqMethod r) (rqSegments r) = Some t" "route_auth t = Some (kind, i)"
      "\<not> cross_origin cfg r" "snd (serve cfg At s r) = checked cfg At s r"
      "rpStatus (fst (serve cfg At s r)) \<noteq> 401"
  | (guess) t kind i where "mux (rqMethod r) (rqSegments r) = Some t" "route_auth t = Some (kind, i)"
      "\<not> cross_origin cfg r"
      "snd (serve cfg At s r) = s\<lparr>svLimiter := limiter_run [Check (client cfg r) (envNow (At 0)), Fail (client cfg r) (envNow (At 2))] (svLimiter s)\<rparr>"
      "rpStatus (fst (serve cfg At s r)) = 401" "\<not> fst (blocked (svLimiter s) (client cfg r) (envNow (At 0)))"
  | (granted) t kind i b where "mux (rqMethod r) (rqSegments r) = Some t" "route_auth t = Some (kind, i)"
      "\<not> cross_origin cfg r" "Authenticate (At 1) (svDisk s) i (bearer r) kind = Some b"
      "kind = ''submit'' \<longrightarrow> Closed (At 2) (svDisk s) (rbID b) = Inr False"
      "svDisk (snd (serve cfg At s r)) = route_effect At r b t (svDisk s)"
      "svLimiter (snd (serve cfg At s r)) = svLimiter (checked cfg At s r)" "rpStatus (fst (serve cfg At s r)) \<noteq> 401"
proof (cases "cross_origin cfg r \<or> mux (rqMethod r) (rqSegments r) = None")
  case True
  then show thesis by (intro plain) (auto simp: serve_simps originBoundary_def)
next
  case False
  then obtain t where t: "mux (rqMethod r) (rqSegments r) = Some t" and o: "\<not> cross_origin cfg r" by auto
  then have sv: "snd (serve cfg At s r) = snd (dispatch cfg At s r t)"
    "rpStatus (fst (serve cfg At s r)) = rpStatus (fst (dispatch cfg At s r t))"
    by (simp_all add: serve_simps originBoundary_def)
  show thesis
  proof (cases "route_auth t")
    case None
    then show thesis using page_effect [OF None] sv by (intro plain) auto
  next
    case (Some ki)
    then obtain kind i where a: "route_auth t = Some (kind, i)" by (cases ki) auto
    show thesis
    proof (cases rule: authorize_cases [of cfg At s r i kind])
      case (limited p)
      then show thesis using dispatch_refused [OF a] sv t a o by (intro refused) simp_all
    next
      case (unauthorized p)
      then have "snd (serve cfg At s r) = s\<lparr>svLimiter := limiter_run [Check (client cfg r) (envNow (At 0)),
          Fail (client cfg r) (envNow (At 2))] (svLimiter s)\<rparr>"
        using dispatch_refused [OF a unauthorized(1)] sv by (simp add: limiter_run_def checked_def)
      then show thesis using unauthorized dispatch_refused [OF a unauthorized(1)] sv t a o by (intro guess) simp_all
    next
      case (closed e b)
      then show thesis using dispatch_refused [OF a closed(1)] sv t a o by (intro refused) simp_all
    next
      case (granted b)
      then show thesis
        using dispatch_granted [OF a granted(1)] sv t a o by (intro that(4) [of t kind i b]) simp_all
    qed
  qed
qed

section \<open>Requests as steps of the store\<close>

text \<open>One step of the store that a granted request takes.\<close>

lemma route_effect_step:
  assumes "P (At 3)" and "b \<in> H"
  shows "route_effect At r b t d = d \<or> store_step P \<lparr>sysDisk = d, sysHeld = H\<rparr> \<lparr>sysDisk = route_effect At r b t d, sysHeld = H\<rparr>"
proof -
  let ?s = "\<lparr>sysDisk = d, sysHeld = H\<rparr>"
  note step = store_step.begin_upload [of P "At 3" b ?s] store_step.put_chunk [of P "At 3" ?s]
    store_step.complete [of P "At 3" ?s] store_step.close_request [of P "At 3" ?s] store_step.acknowledge [of P "At 3" b ?s]
  show ?thesis
    using assms step by (cases t) (auto simp: Let_def split: sum.split)
qed

lemma serve_one_step:
  assumes "\<forall>n. P (At n)"
  shows "svDisk (snd (serve cfg At s r)) = svDisk s
    \<or> (\<exists>t kind i b. mux (rqMethod r) (rqSegments r) = Some t \<and> route_auth t = Some (kind, i)
        \<and> Authenticate (At 1) (svDisk s) i (bearer r) kind = Some b
        \<and> (kind = ''submit'' \<longrightarrow> Closed (At 2) (svDisk s) (rbID b) = Inr False)
        \<and> svDisk (snd (serve cfg At s r)) = route_effect At r b t (svDisk s)
        \<and> store_step P \<lparr>sysDisk = svDisk s, sysHeld = insert b H\<rparr>
            \<lparr>sysDisk = svDisk (snd (serve cfg At s r)), sysHeld = insert b H\<rparr>)"
proof (cases rule: serve_cases [of cfg At s r])
  case (granted t kind i b)
  then show ?thesis
    using route_effect_step [of P At b "insert b H" r t "svDisk s"] assms by (cases "route_effect At r b t (svDisk s) = svDisk s") auto
qed simp_all

lemma serve_steps:
  assumes "\<forall>n. P (At n)"
  shows "\<exists>H'. H \<subseteq> H' \<and> (store_step P)\<^sup>*\<^sup>* \<lparr>sysDisk = svDisk s, sysHeld = H\<rparr>
    \<lparr>sysDisk = svDisk (snd (serve cfg At s r)), sysHeld = H'\<rparr>"
  using serve_one_step [OF assms, of cfg s r H]
proof (elim disjE exE conjE)
  fix t kind i b
  assume "Authenticate (At 1) (svDisk s) i (bearer r) kind = Some b"
    and act: "store_step P \<lparr>sysDisk = svDisk s, sysHeld = insert b H\<rparr> \<lparr>sysDisk = svDisk (snd (serve cfg At s r)), sysHeld = insert b H\<rparr>"
  then have "store_step P \<lparr>sysDisk = svDisk s, sysHeld = H\<rparr> \<lparr>sysDisk = svDisk s, sysHeld = insert b H\<rparr>"
    using store_step.authenticate [of P "At 1" "\<lparr>sysDisk = svDisk s, sysHeld = H\<rparr>"] assms by fastforce
  with act show ?thesis by (intro exI [of _ "insert b H"]) (auto intro: converse_rtranclp_into_rtranclp)
qed auto

text \<open>A server over a list of requests.\<close>

fun serve_run :: "server_config \<Rightarrow> ((nat \<Rightarrow> env) \<times> http_request) list \<Rightarrow> server \<Rightarrow> response list \<times> server" where
  "serve_run cfg [] s = ([], s)"
| "serve_run cfg ((At, r) # rs) s =
     (case serve cfg At s r of (p, s) \<Rightarrow> (case serve_run cfg rs s of (ps, s) \<Rightarrow> (p # ps, s)))"

declare serve_run.simps(2) [simp del]

lemma serve_run_Cons [simp]:
  "fst (serve_run cfg ((At, r) # rs) s) = fst (serve cfg At s r) # fst (serve_run cfg rs (snd (serve cfg At s r)))"
  "snd (serve_run cfg ((At, r) # rs) s) = snd (serve_run cfg rs (snd (serve cfg At s r)))"
  by (simp_all add: serve_run.simps(2) split: prod.split)

lemma serve_run_steps:
  assumes "\<forall>(At, r) \<in> set rs. \<forall>n. P (At n)"
  shows "\<exists>H'. H \<subseteq> H' \<and> (store_step P)\<^sup>*\<^sup>* \<lparr>sysDisk = svDisk s, sysHeld = H\<rparr>
    \<lparr>sysDisk = svDisk (snd (serve_run cfg rs s)), sysHeld = H'\<rparr>"
  using assms
proof (induction rs arbitrary: s H)
  case Nil
  then show ?case by auto
next
  case (Cons x rs)
  obtain At r where x: "x = (At, r)" by fastforce
  obtain H1 where H1: "H \<subseteq> H1" "(store_step P)\<^sup>*\<^sup>* \<lparr>sysDisk = svDisk s, sysHeld = H\<rparr>
      \<lparr>sysDisk = svDisk (snd (serve cfg At s r)), sysHeld = H1\<rparr>"
    using serve_steps [of P At H s cfg r] Cons.prems x by auto
  from Cons.IH [of H1 "snd (serve cfg At s r)"] Cons.prems obtain H2 where
    "H1 \<subseteq> H2" "(store_step P)\<^sup>*\<^sup>* \<lparr>sysDisk = svDisk (snd (serve cfg At s r)), sysHeld = H1\<rparr>
      \<lparr>sysDisk = svDisk (snd (serve_run cfg rs (snd (serve cfg At s r)))), sysHeld = H2\<rparr>" by auto
  with H1 show ?case unfolding x serve_run_Cons by (meson order_trans rtranclp_trans)
qed

section \<open>Guesses of an address\<close>

definition guesses :: "server_config \<Rightarrow> string \<Rightarrow> ((nat \<Rightarrow> env) \<times> http_request) list \<Rightarrow> response list \<Rightarrow> nat" where
  "guesses cfg ip rs ps = length (filter (\<lambda>((At, r), p). client cfg r = ip \<and> rpStatus p = 401) (zip rs ps))"

lemma guesses_Nil [simp]: "guesses cfg ip [] ps = 0"
  by (simp add: guesses_def)

lemma guesses_Cons [simp]:
  "guesses cfg ip ((At, r) # rs) (p # ps) = (if client cfg r = ip \<and> rpStatus p = 401 then 1 else 0) + guesses cfg ip rs ps"
  by (simp add: guesses_def)

text \<open>The limiter over one request: the calls it makes and what they say about a guess.\<close>

lemma serve_limiter:
  obtains cs where "svLimiter (snd (serve cfg At s r)) = limiter_run cs (svLimiter s)"
    and "\<forall>c \<in> set cs. \<exists>n. call_time c = envNow (At n)"
    and "fails_of ip cs = (if client cfg r = ip \<and> rpStatus (fst (serve cfg At s r)) = 401 then 1 else 0)"
    and "rpStatus (fst (serve cfg At s r)) = 401 \<Longrightarrow> \<not> fst (blocked (svLimiter s) (client cfg r) (envNow (At 0)))"
    and "cs = [] \<or> cs = [Check (client cfg r) (envNow (At 0))]
      \<or> cs = [Check (client cfg r) (envNow (At 0)), Fail (client cfg r) (envNow (At 2))]"
proof (cases rule: serve_cases [of cfg At s r])
  case plain
  then show thesis by (intro that [of "[]"]) (simp_all add: limiter_run_def)
next
  case (refused t kind i)
  then show thesis by (intro that [of "[Check (client cfg r) (envNow (At 0))]"]) (auto simp: svLimiter_checked call_time_def)
next
  case (guess t kind i)
  then show thesis
    by (intro that [of "[Check (client cfg r) (envNow (At 0)), Fail (client cfg r) (envNow (At 2))]"]) (auto simp: call_time_def)
next
  case (granted t kind i b)
  then show thesis by (intro that [of "[Check (client cfg r) (envNow (At 0))]"]) (auto simp: svLimiter_checked call_time_def)
qed

lemma guesses_window:
  assumes "limiter_inv (svLimiter s)" and "map_of (svLimiter s) ip = Some w" and "ip \<noteq> overflowFailureBucket"
    and "0 \<le> fwCount w" and "fwCount w < 2 ^ 62"
    and "\<forall>(At, r) \<in> set rs. \<forall>n. envNow (At n) < time_add (fwStart w) failureWindowDuration"
  shows "guesses cfg ip rs (fst (serve_run cfg rs s)) \<le> nat (12 - fwCount w)
    \<and> map_of (svLimiter (snd (serve_run cfg rs s))) ip
      = Some (w\<lparr>fwCount := fwCount w + int (guesses cfg ip rs (fst (serve_run cfg rs s)))\<rparr>)"
  using assms
proof (induction rs arbitrary: s w)
  case Nil
  then show ?case by simp
next
  case (Cons x rs)
  obtain At r where x: "x = (At, r)" by fastforce
  let ?s' = "snd (serve cfg At s r)"
  obtain cs where cs: "svLimiter ?s' = limiter_run cs (svLimiter s)" "\<forall>c \<in> set cs. \<exists>n. call_time c = envNow (At n)"
    and f: "fails_of ip cs = (if client cfg r = ip \<and> rpStatus (fst (serve cfg At s r)) = 401 then 1 else 0)"
    and g: "rpStatus (fst (serve cfg At s r)) = 401 \<Longrightarrow> \<not> fst (blocked (svLimiter s) (client cfg r) (envNow (At 0)))"
    by (rule serve_limiter [of cfg At s r ip]) blast
  let ?w = "w\<lparr>fwCount := fwCount w + int (fails_of ip cs)\<rparr>"
  have t: "envNow (At n) < time_add (fwStart w) failureWindowDuration" for n using Cons.prems(6) x by auto
  have w: "map_of (svLimiter ?s') ip = Some ?w"
    unfolding cs(1) using Cons.prems(1-5) cs(2) t f by (intro window_counts) force+
  have lt: "fwCount w < 12" if "fails_of ip cs \<noteq> 0"
  proof -
    from that f g have "client cfg r = ip" "\<not> fst (blocked (svLimiter s) ip (envNow (At 0)))" by (auto split: if_splits)
    with Cons.prems(2) t [of 0] show ?thesis by (auto simp: blocked_own expiredFailureWindow_def failureLimit_def)
  qed
  have "limiter_inv (svLimiter ?s')" unfolding cs(1) by (rule limiter.run_inv [OF run_steps Cons.prems(1)])
  from Cons.IH [OF this w Cons.prems(3)] Cons.prems(4-6) lt
  have ih: "guesses cfg ip rs (fst (serve_run cfg rs ?s')) \<le> nat (12 - fwCount ?w)"
      "map_of (svLimiter (snd (serve_run cfg rs ?s'))) ip
        = Some (?w\<lparr>fwCount := fwCount ?w + int (guesses cfg ip rs (fst (serve_run cfg rs ?s')))\<rparr>)"
    using f by (cases "fails_of ip cs = 0"; auto simp: x split: if_splits)+
  have n: "guesses cfg ip ((At, r) # rs) (fst (serve_run cfg ((At, r) # rs) s)) = fails_of ip cs + guesses cfg ip rs (fst (serve_run cfg rs ?s'))"
    using f by simp
  show ?case
    unfolding x n using ih lt f by (auto simp: algebra_simps split: if_splits)
qed

text \<open>Without a failure of its own an address gets no window, and each request adds at most one.\<close>

lemma run_keeps:
  assumes "limiter_inv l" and "fails_of ip cs = 0" and "ip \<noteq> overflowFailureBucket"
  shows "map_of (limiter_run cs l) ip = map_of l ip \<or> map_of (limiter_run cs l) ip = None"
  using assms
proof (induction cs arbitrary: l)
  case Nil
  then show ?case by (simp add: limiter_run_def)
next
  case (Cons c cs)
  have c: "\<forall>now. c \<noteq> Fail ip now" "fails_of ip cs = 0" using Cons.prems(2) by (cases c; auto split: if_splits)+
  then show ?case
    using Cons.IH [OF inv_apply [OF Cons.prems(1), of c] c(2) Cons.prems(3)] call_keeps [OF Cons.prems(1) c(1) Cons.prems(3)]
    by (auto simp: limiter_run_def)
qed

lemma one_request_length:
  assumes "limiter_inv l" and "cs = [] \<or> cs = [Check ip t] \<or> cs = [Check ip t, Fail ip t']"
  shows "length (limiter_run cs l) \<le> Suc (length l)"
  using assms(2) call_length [OF assms(1), of ip] call_length(2) [OF inv_apply [OF assms(1)], of ip t' "Check ip t"]
  by (auto simp: limiter_run_def intro: le_trans le_SucI)

lemma guesses_minute:
  assumes "limiter_inv (svLimiter s)" and "length (svLimiter s) + length rs < 4095" and "ip \<noteq> overflowFailureBucket"
    and "\<forall>w. map_of (svLimiter s) ip = Some w \<longrightarrow> \<not> start < time_add (fwStart w) failureWindowDuration"
    and "\<forall>(At, r) \<in> set rs. \<forall>n. \<not> envNow (At n) < start \<and> envNow (At n) < time_add start failureWindowDuration"
  shows "guesses cfg ip rs (fst (serve_run cfg rs s)) \<le> 12
    \<and> (0 < guesses cfg ip rs (fst (serve_run cfg rs s)) \<longrightarrow>
        (\<exists>w. map_of (svLimiter (snd (serve_run cfg rs s))) ip = Some w \<and> start \<le> fwStart w
          \<and> fwCount w = int (guesses cfg ip rs (fst (serve_run cfg rs s)))))"
    (is "?G rs s")
  using assms
proof (induction rs arbitrary: s)
  case Nil
  then show ?case by simp
next
  case (Cons x rs)
  obtain At r where x: "x = (At, r)" by fastforce
  let ?s' = "snd (serve cfg At s r)" and ?t = "envNow (At 2)"
  have t: "\<not> envNow (At n) < start" "envNow (At n) < time_add start failureWindowDuration" for n using Cons.prems(5) x by auto
  obtain cs where cs: "svLimiter ?s' = limiter_run cs (svLimiter s)" "\<forall>c \<in> set cs. \<exists>n. call_time c = envNow (At n)"
    and f: "fails_of ip cs = (if client cfg r = ip \<and> rpStatus (fst (serve cfg At s r)) = 401 then 1 else 0)"
    and shape: "cs = [] \<or> cs = [Check (client cfg r) (envNow (At 0))]
      \<or> cs = [Check (client cfg r) (envNow (At 0)), Fail (client cfg r) ?t]"
    by (rule serve_limiter [of cfg At s r ip]) blast
  have inv: "limiter_inv (svLimiter ?s')" unfolding cs(1) by (rule limiter.run_inv [OF run_steps Cons.prems(1)])
  show ?case
  proof (cases "fails_of ip cs = 0")
    case True
    have "length (svLimiter ?s') \<le> Suc (length (svLimiter s))"
      unfolding cs(1) by (rule one_request_length [OF Cons.prems(1) shape])
    moreover have "map_of (svLimiter ?s') ip = map_of (svLimiter s) ip \<or> map_of (svLimiter ?s') ip = None"
      unfolding cs(1) by (rule run_keeps [OF Cons.prems(1) True Cons.prems(3)])
    ultimately have ih: "?G rs ?s'"
      using Cons.prems by (intro Cons.IH [OF inv]) (auto simp: x)
    have "guesses cfg ip ((At, r) # rs) (fst (serve_run cfg ((At, r) # rs) s)) = guesses cfg ip rs (fst (serve_run cfg rs ?s'))"
      using True f by (simp split: if_splits)
    with ih show ?thesis by (simp add: x)
  next
    case False
    then have c: "client cfg r = ip" "cs = [Check ip (envNow (At 0)), Fail ip ?t]"
      using f shape by (auto split: if_splits)
    let ?l = "limiter_apply (Check ip (envNow (At 0))) (svLimiter s)"
    have l: "limiter_inv ?l" "length ?l < 4095"
      using inv_apply [OF Cons.prems(1), of "Check ip (envNow (At 0))"]
        call_length(1) [OF Cons.prems(1), of ip "envNow (At 0)"] Cons.prems(2) by auto
    have "map_of ?l ip = map_of (svLimiter s) ip \<or> map_of ?l ip = None"
      using run_keeps [OF Cons.prems(1) _ Cons.prems(3), of "[Check ip (envNow (At 0))]"] by (simp add: limiter_run_def)
    then have "\<forall>w. map_of ?l ip = Some w \<longrightarrow> expiredFailureWindow w ?t"
      using Cons.prems(4) t(1) [of 2] unfolding expiredFailureWindow_def by (metis (full_types) not_less order_trans option.distinct(1))
    from failure_opens [OF l this] have w: "map_of (svLimiter ?s') ip = Some \<lparr>fwStart = ?t, fwCount = 1\<rparr>"
      by (simp add: cs(1) c limiter_run_def)
    have "envNow (At' n) < time_add ?t failureWindowDuration" if "(At', r') \<in> set rs" for At' r' n
    proof -
      have "envNow (At' n) < time_add start failureWindowDuration" using Cons.prems(5) that by auto
      moreover have "time_add start failureWindowDuration \<le> time_add ?t failureWindowDuration"
        using t(1) [of 2] by (simp add: time_add_def less_eq_time_def less_time_def)
      ultimately show ?thesis by (rule less_le_trans)
    qed
    then have "\<forall>(At', r') \<in> set rs. \<forall>n. envNow (At' n) < time_add (fwStart \<lparr>fwStart = ?t, fwCount = 1\<rparr>) failureWindowDuration"
      by auto
    from guesses_window [OF inv w Cons.prems(3) _ _ this, of cfg]
    have g: "guesses cfg ip rs (fst (serve_run cfg rs ?s')) \<le> 11"
      "map_of (svLimiter (snd (serve_run cfg rs ?s'))) ip
        = Some \<lparr>fwStart = ?t, fwCount = 1 + int (guesses cfg ip rs (fst (serve_run cfg rs ?s')))\<rparr>" by simp_all
    have "guesses cfg ip ((At, r) # rs) (fst (serve_run cfg ((At, r) # rs) s)) = Suc (guesses cfg ip rs (fst (serve_run cfg rs ?s')))"
      using False f by (simp split: if_splits)
    with g t(1) [of 2] show ?thesis by (simp add: x not_less)
  qed
qed

text \<open>A blocked address is refused without a look at its token, whatever the request.\<close>

lemma blocked_refused:
  assumes "mux (rqMethod r) (rqSegments r) = Some t" and "route_auth t = Some (kind, i)" and "\<not> cross_origin cfg r"
    and "fst (blocked (svLimiter s) (client cfg r) (envNow (At 0)))"
  shows "rpStatus (fst (serve cfg At s r)) = 429 \<and> svDisk (snd (serve cfg At s r)) = svDisk s
    \<and> (\<exists>m. rpBody (fst (serve cfg At s r)) = ErrorBody ''AUTH_RATE_LIMITED'' m)"
proof -
  obtain l where b: "blocked (svLimiter s) (client cfg r) (envNow (At 0)) = (True, l)" using assms(4) by (metis prod.collapse)
  have "authorize cfg At s r i kind = (Inl (set_header ''Retry-After'' ''60'' (writeError 429 ''AUTH_RATE_LIMITED''
       ''Too many failed authorization attempts. Try again later.'')), s\<lparr>svLimiter := l\<rparr>)"
    using b by (simp add: authorize_def client_def Let_def)
  from dispatch_refused [OF assms(2) this] assms(1,3) show ?thesis
    by (simp add: serve_simps originBoundary_def) (simp add: set_header_def writeError_def writeJSON_def)
qed

end
