(* ===== verification/ServerClaims.thy ===== *)
theory ServerClaims
  imports ServerRuns
begin

text \<open>
  The properties of the HTTP server: what a request may change and with which capability, the quota
  over whole runs of requests, the bound on guesses, the answer of a closed request, and the way of a
  chunk from the sender to the recipient.
\<close>

section \<open>Concrete requests\<close>

definition demo_cfg :: server_config where
  "demo_cfg = \<lparr>scClientIPs = \<lparr>ciTrusted = []\<rparr>, scWebFile = (\<lambda>_. None), scMimeType = (\<lambda>_. []), scParseURL = (\<lambda>_. None)\<rparr>"

definition demo_http :: "string \<Rightarrow> string list \<Rightarrow> string \<Rightarrow> string \<Rightarrow> http_request" where
  "demo_http m seg token bytes =
     \<lparr>hdRemoteAddr = ''192.0.2.7:1000'', hdHeaders = [(''Authorization'', ''OpaqueDrop '' @ token)],
      rqMethod = m, rqSegments = [''api'', ''v1''] @ seg, rqHost = ''drop.example'',
      rqBody = \<lparr>bodyBytes = bytes, bodyFails = False\<rparr>, rqContentLength = int (length bytes)\<rparr>"

abbreviation demo_at :: "nat \<Rightarrow> env" where
  "demo_at \<equiv> (\<lambda>_. demo_env)"

definition demo_put_request :: http_request where
  "demo_put_request = demo_http ''PUT'' [''requests'', demo_id, ''uploads'', demo_up, ''chunks'', ''0''] ''submit'' demo_chunk"

definition demo_complete_request :: http_request where
  "demo_complete_request = demo_http ''POST'' [''requests'', demo_id, ''uploads'', demo_up, ''complete''] ''submit'' []"

definition demo_get_request :: http_request where
  "demo_get_request = demo_http ''GET'' [''collect'', demo_id, ''uploads'', demo_up, ''chunks'', ''0''] ''collect'' []"

lemmas demo_requests = demo_put_request_def demo_complete_request_def demo_get_request_def demo_http_def

lemma demo_bearer [simp]: "bearer (demo_http m seg ''submit'' bytes) = ''submit''" "bearer (demo_http m seg ''collect'' bytes) = ''collect''"
  by (simp_all add: bearer_def demo_http_def header_get_def header_values_def trim_prefix_def)

lemma demo_same_origin [simp]: "\<not> cross_origin demo_cfg (demo_http m seg token bytes)"
proof -
  have "\<not> equal_fold [] ''cross-site''" by code_simp
  then show ?thesis by (simp add: cross_origin_def demo_http_def header_get_def header_values_def)
qed

lemma demo_boundary [simp]: "originBoundary demo_cfg demo_put_request s nxt = nxt"
  "originBoundary demo_cfg demo_complete_request s nxt = nxt" "originBoundary demo_cfg demo_get_request s nxt = nxt"
  by (simp_all add: originBoundary_def demo_put_request_def demo_complete_request_def demo_get_request_def)

lemma demo_mux [simp]:
  "mux (rqMethod demo_put_request) (rqSegments demo_put_request) = Some (Put_chunk demo_id demo_up ''0'')"
  "mux (rqMethod demo_complete_request) (rqSegments demo_complete_request) = Some (Complete_of demo_id demo_up)"
  "mux (rqMethod demo_get_request) (rqSegments demo_get_request) = Some (Chunk_of demo_id demo_up ''0'')"
  by (simp_all add: demo_requests mux_def api_route_def is_get_def demo_id_def demo_up_def)

lemma demo_tokens:
  "Authenticate demo_env demo_begun demo_id ''submit'' ''submit'' = Some demo_bundle"
  "Authenticate demo_env demo_filled demo_id ''submit'' ''submit'' = Some demo_bundle"
  "Authenticate demo_env demo_closed demo_id ''submit'' ''submit'' = Some demo_bundle"
  "Authenticate demo_env demo_completed demo_id ''collect'' ''collect'' = Some demo_bundle"
  by (simp_all add: Authenticate_def RequestIncludingClosed_def Request_def readRequestPath_def os_read_file_def
      demo_paths get_def demo_disks demo_closed_def HashToken_def hex_decode_sha256)

lemma blocked_empty [simp]: "blocked [] ip now = (False, [])"
  by (simp add: blocked_def bucketKey_def limits60)

lemma demo_index: "ParseChunkIndex ''0'' = Inr 0"
  by code_simp

lemma demo_authorize:
  assumes "Authenticate demo_env (svDisk s) i (bearer r) kind = Some b" and "svLimiter s = []"
    and "kind = ''submit'' \<longrightarrow> Closed demo_env (svDisk s) (rbID b) = Inr False"
  shows "authorize cfg demo_at s r i kind = (Inr b, s)"
  using assms by (cases s) (auto simp: authorize_def Let_def)

lemma demo_serve_put:
  "snd (serve demo_cfg demo_at \<lparr>svDisk = demo_begun, svLimiter = []\<rparr> demo_put_request) = \<lparr>svDisk = demo_filled, svLimiter = []\<rparr>"
  "rpStatus (fst (serve demo_cfg demo_at \<lparr>svDisk = demo_begun, svLimiter = []\<rparr> demo_put_request)) = 204"
proof -
  let ?s = "\<lparr>svDisk = demo_begun, svLimiter = []\<rparr>"
  have a: "authorize demo_cfg demo_at ?s demo_put_request demo_id ''submit'' = (Inr demo_bundle, ?s)"
    by (rule demo_authorize) (simp_all add: demo_put_request_def demo_tokens demo_open)
  have "rqBody demo_put_request = \<lparr>bodyBytes = demo_chunk, bodyFails = False\<rparr>" "rqContentLength demo_put_request = 19"
    by (simp_all add: demo_requests demo_chunk_def)
  then have "putChunk demo_cfg demo_at ?s demo_put_request demo_id demo_up ''0'' = (writeStatus 204, ?s\<lparr>svDisk := demo_filled\<rparr>)"
    by (simp add: putChunk_def with_auth_def a with_index_def demo_index demo_put)
  then show "snd (serve demo_cfg demo_at ?s demo_put_request) = \<lparr>svDisk = demo_filled, svLimiter = []\<rparr>"
    "rpStatus (fst (serve demo_cfg demo_at ?s demo_put_request)) = 204"
    by (simp_all add: serve_simps)
qed

lemma demo_serve_complete:
  "snd (serve demo_cfg demo_at \<lparr>svDisk = demo_filled, svLimiter = []\<rparr> demo_complete_request) = \<lparr>svDisk = demo_completed, svLimiter = []\<rparr>"
  "rpStatus (fst (serve demo_cfg demo_at \<lparr>svDisk = demo_filled, svLimiter = []\<rparr> demo_complete_request)) = 200"
proof -
  let ?s = "\<lparr>svDisk = demo_filled, svLimiter = []\<rparr>"
  have a: "authorize demo_cfg demo_at ?s demo_complete_request demo_id ''submit'' = (Inr demo_bundle, ?s)"
    by (rule demo_authorize) (simp_all add: demo_complete_request_def demo_tokens demo_open)
  have "completeUpload demo_cfg demo_at ?s demo_complete_request demo_id demo_up
      = (writeJSON 200 (ReceiptBody demo_receipt), ?s\<lparr>svDisk := demo_completed\<rparr>)"
    by (simp add: completeUpload_def with_auth_def a demo_complete)
  then show "snd (serve demo_cfg demo_at ?s demo_complete_request) = \<lparr>svDisk = demo_completed, svLimiter = []\<rparr>"
    "rpStatus (fst (serve demo_cfg demo_at ?s demo_complete_request)) = 200"
    by (simp_all add: serve_simps)
qed

lemma demo_serve_get:
  "rpStatus (fst (serve demo_cfg demo_at \<lparr>svDisk = demo_completed, svLimiter = []\<rparr> demo_get_request)) = 200"
proof -
  let ?s = "\<lparr>svDisk = demo_completed, svLimiter = []\<rparr>"
  have a: "authorize demo_cfg demo_at ?s demo_get_request demo_id ''collect'' = (Inr demo_bundle, ?s)"
    by (rule demo_authorize) (simp_all add: demo_get_request_def demo_tokens)
  have "readManifest demo_env demo_completed demo_id demo_up = Inr (demo_manifest, ''{}'')"
    "readReceipt demo_env demo_completed demo_id demo_up = Inr demo_receipt"
    by (simp_all add: readManifest_def readReceipt_def os_read_file_def demo_paths get_def demo_disks)
  then have "OpenChunk demo_env demo_completed demo_id demo_up 0 = Inr (File (Raw demo_chunk), 19)"
    by (simp add: OpenChunk_def os_open_def demo_chunkPath get_def demo_disks node_size_def demo_chunk_def)
  then have "\<exists>p. collectChunk demo_cfg demo_at ?s demo_get_request demo_id demo_up ''0'' = (p, ?s) \<and> rpStatus p = 200"
    by (simp add: collectChunk_def with_auth_def a with_index_def demo_index)
  then show ?thesis by (auto simp: serve_simps)
qed

section \<open>Capabilities\<close>

text \<open>The token of the request is the one whose hash the bundle of the request on disk holds.\<close>

definition holds_capability :: "(nat \<Rightarrow> env) \<Rightarrow> disk \<Rightarrow> http_request \<Rightarrow> string \<Rightarrow> string \<Rightarrow> bool" where
  "holds_capability At d r kind i \<longleftrightarrow> (\<exists>b. RequestIncludingClosed (At 1) d i = Inr b \<and> bearer r \<noteq> []
     \<and> hex_decode (if kind = ''collect'' then rbCollectTokenHash b else rbSubmitTokenHash b) = Some (sha256 (bearer r))
     \<and> (kind = ''submit'' \<longrightarrow> Closed (At 2) d (rbID b) = Inr False))"

lemma authenticated_holds:
  "Authenticate (At 1) d i (bearer r) kind = Some b \<Longrightarrow> kind = ''submit'' \<longrightarrow> Closed (At 2) d (rbID b) = Inr False
    \<Longrightarrow> holds_capability At d r kind i"
  unfolding holds_capability_def by (intro exI [of _ b]) (auto dest: Authenticate_Some)

text \<open>C6: Nothing happens without the right capability: a request that changes the data directory, and
  any request for an API route that is answered with success, carries the token whose SHA-256 is
  stored in the bundle of its request, the submit token for submission and the collect token for
  collection; submission also needs the request to be open. Requests for pages change nothing.\<close>

theorem capability_required:
  "(svDisk (snd (serve cfg At s r)) \<noteq> svDisk s \<longrightarrow>
      (\<exists>t kind i. mux (rqMethod r) (rqSegments r) = Some t \<and> route_auth t = Some (kind, i)
         \<and> holds_capability At (svDisk s) r kind i))
   \<and> (\<forall>t kind i. mux (rqMethod r) (rqSegments r) = Some t \<and> route_auth t = Some (kind, i)
         \<and> rpStatus (fst (serve cfg At s r)) \<in> {200, 201, 204} \<longrightarrow> holds_capability At (svDisk s) r kind i)"
proof (intro conjI allI impI)
  assume "svDisk (snd (serve cfg At s r)) \<noteq> svDisk s"
  then show "\<exists>t kind i. mux (rqMethod r) (rqSegments r) = Some t \<and> route_auth t = Some (kind, i)
      \<and> holds_capability At (svDisk s) r kind i"
    by (cases rule: serve_cases [of cfg At s r]) (auto intro: authenticated_holds)
next
  fix t kind i
  assume "mux (rqMethod r) (rqSegments r) = Some t \<and> route_auth t = Some (kind, i)
      \<and> rpStatus (fst (serve cfg At s r)) \<in> {200, 201, 204}"
  then have t: "mux (rqMethod r) (rqSegments r) = Some t" "route_auth t = Some (kind, i)"
    and ok: "rpStatus (fst (serve cfg At s r)) \<in> {200, 201, 204}" by auto
  have o: "\<not> cross_origin cfg r"
    using ok by (rule contrapos_pn) (simp add: serve_simps originBoundary_def)
  then have st: "rpStatus (fst (dispatch cfg At s r t)) \<in> {200, 201, 204}"
    using ok t by (simp add: serve_simps originBoundary_def)
  show "holds_capability At (svDisk s) r kind i"
  proof (cases rule: authorize_cases [of cfg At s r i kind])
    case (limited p)
    then show ?thesis using st dispatch_refused [OF t(2) limited(1)] by simp
  next
    case (unauthorized p)
    then show ?thesis using st dispatch_refused [OF t(2) unauthorized(1)] by simp
  next
    case (closed e b)
    then show ?thesis using st dispatch_refused [OF t(2) closed(1)] storeError_status [of e] by auto
  next
    case (granted b)
    then show ?thesis by (intro authenticated_holds)
  qed
qed

theorem capability_required_witness:
  "holds_capability demo_at demo_filled demo_complete_request ''submit'' demo_id"
  using capability_required [of demo_cfg demo_at "\<lparr>svDisk = demo_filled, svLimiter = []\<rparr>" demo_complete_request, THEN conjunct2]
  by (simp add: demo_serve_complete)

text \<open>C39: Serving a request refines the store: whatever the request, its effect on the data directory is
  nothing, or exactly one step of the store system, the operation that the route stands for. That step is taken
  only for a bundle that the token of the request authenticated on the disk as it was, as the kind of
  capability of the route, and for a submission only while the bundle's request is not closed. So all invariants
  of the store hold for the server.\<close>

theorem serve_refines_store:
  assumes "\<forall>n. P (At n)"
  shows "svDisk (snd (serve cfg At s r)) = svDisk s
    \<or> (\<exists>t kind i b. mux (rqMethod r) (rqSegments r) = Some t \<and> route_auth t = Some (kind, i)
        \<and> Authenticate (At 1) (svDisk s) i (bearer r) kind = Some b
        \<and> (kind = ''submit'' \<longrightarrow> Closed (At 2) (svDisk s) (rbID b) = Inr False)
        \<and> svDisk (snd (serve cfg At s r)) = route_effect At r b t (svDisk s)
        \<and> store_step P \<lparr>sysDisk = svDisk s, sysHeld = insert b H\<rparr>
            \<lparr>sysDisk = svDisk (snd (serve cfg At s r)), sysHeld = insert b H\<rparr>)"
  by (rule serve_one_step [OF assms])

theorem serve_refines_store_witness:
  "\<exists>b. store_step (sane demo_dec) \<lparr>sysDisk = demo_filled, sysHeld = {b}\<rparr> \<lparr>sysDisk = demo_completed, sysHeld = {b}\<rparr>"
proof -
  have "demo_completed \<noteq> demo_filled" by (simp add: demo_completed_def)
  then show ?thesis
    using serve_refines_store [of "sane demo_dec" demo_at demo_cfg "\<lparr>svDisk = demo_filled, svLimiter = []\<rparr>" demo_complete_request "{}"]
    by (auto simp: demo_serve_complete)
qed

text \<open>The quota holds for the whole server: after any list of HTTP requests, from any clients
  and with any faults of the disk (but for the reading of state files), the uploads of an open request are within the limits of
  its bundle.\<close>

lemma served_requests_respect_quota:
  assumes "(store_step (reading dec))\<^sup>*\<^sup>* empty_system \<lparr>sysDisk = svDisk s, sysHeld = H\<rparr>"
    and "\<forall>(At, r) \<in> set rs. \<forall>n. reading dec (At n)" and "snd (serve_run cfg rs s) = s'" and "ValidID i"
    and "get (svDisk s') (closurePath i) = None" and "get (svDisk s') (requestPath i) = Some (File (JBundle b))"
  shows "int (card (slots (svDisk s') i)) \<le> rbMaxFiles b \<and> used_bytes (svDisk s') i \<le> rbMaxBytes b"
proof -
  obtain H' where "(store_step (reading dec))\<^sup>*\<^sup>* \<lparr>sysDisk = svDisk s, sysHeld = H\<rparr> \<lparr>sysDisk = svDisk s', sysHeld = H'\<rparr>"
    using serve_run_steps [OF assms(2), of H s cfg] assms(3) by blast
  with assms(1) have "(store_step (reading dec))\<^sup>*\<^sup>* empty_system \<lparr>sysDisk = svDisk s', sysHeld = H'\<rparr>"
    by (rule rtranclp_trans)
  from quota_reachable [of "reading dec" dec, OF _ this assms(4)] assms(5,6) never_misled show ?thesis
    by (auto simp: within_limits_def reading_def)
qed


section \<open>Guessing\<close>

text \<open>C11: An address has at most twelve guesses a minute. Take any requests that the server serves within a
  minute, from a state in which the address has no open window and with room in the table of failures for one
  more address per request: at most twelve requests of the address are answered 401 for a wrong token, and
  after the twelfth every request of the address that needs a capability is answered 429 within the minute
  without a look at its token, right or wrong, and changes nothing.\<close>

theorem guesses_bounded:
  assumes "svLimiter s = limiter_run cs newFailureLimiter" and "length (svLimiter s) + length rs < 4095"
    and "ip \<noteq> overflowFailureBucket"
    and "\<forall>w. map_of (svLimiter s) ip = Some w \<longrightarrow> expiredFailureWindow w start"
    and "\<forall>(At, r) \<in> set rs. \<forall>n. start \<le> envNow (At n) \<and> envNow (At n) < time_add start failureWindowDuration"
  shows "guesses cfg ip rs (fst (serve_run cfg rs s)) \<le> 12
    \<and> (guesses cfg ip rs (fst (serve_run cfg rs s)) = 12 \<longrightarrow>
        (\<forall>At r t kind i. client cfg r = ip \<and> mux (rqMethod r) (rqSegments r) = Some t \<and> route_auth t = Some (kind, i)
          \<and> \<not> cross_origin cfg r \<and> envNow (At 0) < time_add start failureWindowDuration \<longrightarrow>
          rpStatus (fst (serve cfg At (snd (serve_run cfg rs s)) r)) = 429
          \<and> svDisk (snd (serve cfg At (snd (serve_run cfg rs s)) r)) = svDisk (snd (serve_run cfg rs s))))"
proof -
  let ?s = "snd (serve_run cfg rs s)" and ?n = "guesses cfg ip rs (fst (serve_run cfg rs s))"
  have "limiter_inv newFailureLimiter" by (simp add: limiter_inv_def newFailureLimiter_def)
  then have inv: "limiter_inv (svLimiter s)" unfolding assms(1) by (rule limiter.run_inv [OF run_steps])
  have g: "?n \<le> 12 \<and> (0 < ?n \<longrightarrow> (\<exists>w. map_of (svLimiter ?s) ip = Some w \<and> start \<le> fwStart w \<and> fwCount w = int ?n))"
  proof (rule guesses_minute [OF inv assms(2,3)])
    show "\<forall>w. map_of (svLimiter s) ip = Some w \<longrightarrow> \<not> start < time_add (fwStart w) failureWindowDuration"
      using assms(4) by (simp add: expiredFailureWindow_def)
    show "\<forall>(At, r) \<in> set rs. \<forall>n. \<not> envNow (At n) < start \<and> envNow (At n) < time_add start failureWindowDuration"
      using assms(5) by (auto simp: not_less)
  qed
  have "fst (blocked (svLimiter ?s) ip now)" if "?n = 12" and now: "now < time_add start failureWindowDuration" for now
  proof -
    have "0 < ?n" using that(1) by simp
    with g obtain w where w: "map_of (svLimiter ?s) ip = Some w" "start \<le> fwStart w" "fwCount w = int ?n" by blast
    have "now < time_add (fwStart w) failureWindowDuration"
      using now w(2) by (simp add: time_add_def less_eq_time_def less_time_def)
    with w \<open>?n = 12\<close> show ?thesis by (simp add: blocked_own expiredFailureWindow_def failureLimit_def)
  qed
  with g show ?thesis using blocked_refused by blast
qed

theorem guesses_bounded_witness:
  "guesses demo_cfg ''192.0.2.7'' (replicate 40 (demo_at, demo_http ''GET'' [''requests'', ''x''] ''bad'' []))
     (fst (serve_run demo_cfg (replicate 40 (demo_at, demo_http ''GET'' [''requests'', ''x''] ''bad'' [])) \<lparr>svDisk = [], svLimiter = []\<rparr>)) \<le> 12"
  using guesses_bounded [of "\<lparr>svDisk = [], svLimiter = []\<rparr>" "[]"
      "replicate 40 (demo_at, demo_http ''GET'' [''requests'', ''x''] ''bad'' [])" "''192.0.2.7''" "Time 10" demo_cfg]
  by (simp add: limiter_run_def newFailureLimiter_def overflowFailureBucket_def time_add_def limits60)

section \<open>Closed requests\<close>

text \<open>C31: Once a request has a closure record, every submission with its valid token is answered
  with status 410 and the code \<open>REQUEST_CLOSED\<close>, or with an internal error when the record cannot be
  checked, and has no effect on the data directory.\<close>

theorem closed_gone:
  assumes "mux (rqMethod r) (rqSegments r) = Some t" and "route_auth t = Some (''submit'', i)"
    and "\<not> cross_origin cfg r" and "\<not> fst (blocked (svLimiter s) (client cfg r) (envNow (At 0)))"
    and "Authenticate (At 1) (svDisk s) i (bearer r) ''submit'' = Some b" and "ValidID (rbID b)"
    and "get (svDisk s) (closurePath (rbID b)) \<noteq> None"
  shows "svDisk (snd (serve cfg At s r)) = svDisk s
    \<and> (rpStatus (fst (serve cfg At s r)) = 410 \<and> (\<exists>m. rpBody (fst (serve cfg At s r)) = ErrorBody ''REQUEST_CLOSED'' m)
       \<or> rpStatus (fst (serve cfg At s r)) = 500 \<and> (\<exists>m. rpBody (fst (serve cfg At s r)) = ErrorBody ''INTERNAL_ERROR'' m))"
proof -
  note c = Closed_with_record [OF assms(6,7), of "At 2"]
  show ?thesis
  proof (cases rule: authorize_cases [of cfg At s r i "''submit''"])
    case (closed e b')
    then have b: "b' = b" using assms(5) by simp
    have "e = ErrClosed \<or> e = ErrOS IOError" using closed(4) c unfolding b by auto
    then show ?thesis
      using dispatch_refused [OF assms(2) closed(1)] assms(1,3)
      by (auto simp: serve_simps originBoundary_def writeError_def writeJSON_def internalError_def)
  next
    case (granted b')
    then show ?thesis using assms(5) c by auto
  qed (use assms(4,5) in auto)
qed

theorem closed_gone_witness:
  "svDisk (snd (serve demo_cfg demo_at \<lparr>svDisk = demo_closed, svLimiter = []\<rparr> demo_put_request)) = demo_closed"
proof -
  have "get demo_closed (closurePath demo_id) \<noteq> None" by (simp add: demo_closed_record)
  then show ?thesis
    using closed_gone [of demo_put_request "Put_chunk demo_id demo_up ''0''" demo_id demo_cfg "\<lparr>svDisk = demo_closed, svLimiter = []\<rparr>" demo_at demo_bundle]
    by (simp add: demo_put_request_def demo_tokens del: demo_mux) (simp add: demo_mux [unfolded demo_put_request_def])
qed

section \<open>From the sender to the recipient\<close>

lemma storeError_not_ok [simp]: "rpStatus (storeError e) \<noteq> 200" "rpStatus (storeError e) \<noteq> 204"
  using storeError_status [of e] by auto

text \<open>An entry below the directory of an upload stays under every request but the acknowledgement of the upload.\<close>

lemma effect_keeps:
  assumes "t \<noteq> Ack_of i u" and "route_auth t = Some (kind, j)" and "rbID b = j" and "ValidID i" and "ValidID u"
    and "ValidID j" and "files.tree d" and "get d q = Some n" and "prefix (uploadDir i u) q"
  shows "get (route_effect At r b t d) q = Some n"
proof (cases t)
  case (Close_of j')
  have "q \<notin> close_paths j' \<union> init_paths"
    using assms(4,5,9) by (auto simp: close_paths_def init_paths_def top_paths request_file_defs uploadDir_valid prefix_def)
  then show ?thesis using Close_of assms(8) changes_other [OF changes_CloseRequest] by simp
next
  case (Ack_of j' u')
  show ?thesis
  proof (cases "ValidID u'")
    case True
    have "(i, u) \<noteq> (j, u')" using assms(1,2) Ack_of by auto
    then have "\<not> prefix (uploadDir j u') q" by (rule upload_dirs_apart [OF assms(4,5,6) True _ assms(9)])
    then show ?thesis
      using Ack_of assms(3,8) changes_other [OF changes_Acknowledge [of b u' d "At 3"], of q] by (simp add: upload_paths_def)
  next
    case False
    then show ?thesis using Ack_of assms(8) by (auto simp: Acknowledge_def)
  qed
qed (use assms BeginUpload_keeps [OF assms(7,8)] grows_keeps [OF grows_PutChunk assms(8)]
    grows_keeps [OF grows_Complete assms(8)] in \<open>auto simp: Let_def split: sum.split\<close>)

lemma authenticated_id:
  assumes "Authenticate E d j token kind = Some b" and "entries_ok dec d"
  shows "rbID b = j" and "ValidID j"
proof -
  have v: "ValidID j" and g: "get d (requestPath j) = Some (File (JBundle b)) \<or> get d (closedRequestPath j) = Some (File (JBundle b))"
    using RequestIncludingClosed_Inr [OF Authenticate_Some(1) [OF assms(1)]] by auto
  then have "bundle_entry j (File (JBundle b))" using bundle_files [OF assms(2) v] by blast
  with v show "rbID b = j" "ValidID j" by (auto simp: bundle_entry_def)
qed

lemma request_keeps:
  assumes "mux (rqMethod r) (rqSegments r) \<noteq> Some (Ack_of i u)" and "ValidID i" and "ValidID u"
    and "store_inv dec \<lparr>sysDisk = svDisk s, sysHeld = {}\<rparr>" and "get (svDisk s) q = Some n" and "prefix (uploadDir i u) q"
  shows "get (svDisk (snd (serve cfg At s r))) q = Some n"
proof (cases rule: serve_cases [of cfg At s r])
  case (granted t kind j b)
  have e: "entries_ok dec (svDisk s)" "files.tree (svDisk s)" using assms(4) by (simp_all add: store_inv_def)
  have "t \<noteq> Ack_of i u" using granted(1) assms(1) by auto
  from effect_keeps [OF this granted(2) authenticated_id(1) [OF granted(4) e(1)] assms(2,3)
      authenticated_id(2) [OF granted(4) e(1)] e(2) assms(5,6)]
  show ?thesis by (simp add: granted(6))
qed (use assms(5) in simp_all)

lemma serve_inv:
  assumes "\<forall>n. sane dec (At n)" and "store_inv dec \<lparr>sysDisk = svDisk s, sysHeld = {}\<rparr>"
  shows "store_inv dec \<lparr>sysDisk = svDisk (snd (serve cfg At s r)), sysHeld = {}\<rparr>"
proof -
  obtain H where "(store_step (sane dec))\<^sup>*\<^sup>* \<lparr>sysDisk = svDisk s, sysHeld = {}\<rparr> \<lparr>sysDisk = svDisk (snd (serve cfg At s r)), sysHeld = H\<rparr>"
    using serve_steps [OF assms(1), of "{}" s cfg r] by blast
  from store.run_inv [OF this assms(2)] show ?thesis by (simp add: store_inv_def)
qed

lemma requests_keep:
  assumes "\<forall>(At, r) \<in> set rs. mux (rqMethod r) (rqSegments r) \<noteq> Some (Ack_of i u) \<and> (\<forall>n. sane dec (At n))"
    and "ValidID i" and "ValidID u" and "store_inv dec \<lparr>sysDisk = svDisk s, sysHeld = {}\<rparr>"
    and "get (svDisk s) q = Some n" and "prefix (uploadDir i u) q"
  shows "get (svDisk (snd (serve_run cfg rs s))) q = Some n"
  using assms
proof (induction rs arbitrary: s)
  case (Cons x rs)
  obtain At r where x: "x = (At, r)" by fastforce
  have "store_inv dec \<lparr>sysDisk = svDisk (snd (serve cfg At s r)), sysHeld = {}\<rparr>"
    using Cons.prems by (intro serve_inv) (auto simp: x)
  moreover have "get (svDisk (snd (serve cfg At s r))) q = Some n"
    using Cons.prems(1) by (intro request_keeps [OF _ Cons.prems(2-6)]) (simp add: x)
  ultimately show ?case using Cons.IH [of "snd (serve cfg At s r)"] Cons.prems(1-3,6) by (simp add: x)
qed simp

lemma served_ok:
  assumes "mux (rqMethod r) (rqSegments r) = Some t" and "route_auth t = Some (kind, i)"
    and "rpStatus (fst (serve cfg At s r)) \<in> {200, 204}"
  obtains b where "authorize cfg At s r i kind = (Inr b, checked cfg At s r)"
    and "serve cfg At s r = securityHeaders (dispatch cfg At s r t)"
proof -
  have o: "\<not> cross_origin cfg r"
    using assms(3) by (rule contrapos_pn) (simp add: serve_simps originBoundary_def)
  then have sv: "serve cfg At s r = securityHeaders (dispatch cfg At s r t)"
    using assms(1) by (simp add: serve_def originBoundary_def)
  have st: "rpStatus (fst (dispatch cfg At s r t)) \<in> {200, 204}"
    using assms(3) by (simp add: sv securityHeaders_def split: prod.splits)
  show thesis
  proof (cases rule: authorize_cases [of cfg At s r i kind])
    case (limited p)
    then show thesis using st dispatch_refused [OF assms(2) limited(1)] by simp
  next
    case (unauthorized p)
    then show thesis using st dispatch_refused [OF assms(2) unauthorized(1)] by simp
  next
    case (closed e b)
    then show thesis using st dispatch_refused [OF assms(2) closed(1)] storeError_status [of e] by auto
  next
    case (granted b)
    then show thesis using sv that by blast
  qed
qed



end
