(* ===== verification/Client.thy ===== *)
theory Client
  imports Files Netip
begin

text \<open>
  \<open>internal/collector/collector.go\<close>, the HTTP client of the recipient: requests, retries and waiting.
  Every look at the network, the clock, the context or the file system is one tick; an environment says
  what each tick finds. Time passes with every tick and every sleep. The state logs the requests that
  were sent and the sleeps.
\<close>

section \<open>Environment and state\<close>

datatype ctx_error = Canceled | DeadlineExceeded

type_synonym ctx = "nat \<Rightarrow> ctx_error option"

text \<open>A request: its method is \<open>GET\<close> or \<open>POST\<close>; the token in its \<open>Authorization\<close> header, empty when it has none.\<close>

datatype call = Get_call string string | Post_call string string

record reply =
  ryStatus :: int
  ryRetryAfter :: string
  ryLocation :: string
  ryContentLength :: int64
  ryBytes :: string
  ryBreaks :: bool

text \<open>
  \<open>ceDo\<close> is one exchange of the transport: \<open>None\<close> is an error. \<open>ceLag\<close> is the time a tick takes.
  \<open>ceValidURL\<close>, \<open>ceParseTime\<close> and the JSON decoders are those of the standard library, and so are the
  functions on URLs: \<open>ceLocate\<close> resolves a \<open>Location\<close> against the URL of the request, \<open>ceHost\<close> is the host with
  its port, \<open>ceHostname\<close> the name without it in ASCII form.
\<close>

record client_env =
  ceDo :: "nat \<Rightarrow> call \<Rightarrow> reply option"
  ceLag :: "nat \<Rightarrow> nat"
  ceOS :: "nat \<Rightarrow> env"
  ceTempName :: "nat \<Rightarrow> string"
  ceSameFile :: "nat \<Rightarrow> bool"
  ceValidURL :: "string \<Rightarrow> bool"
  ceLocate :: "string \<Rightarrow> string \<Rightarrow> string option"
  ceHost :: "string \<Rightarrow> string"
  ceHostname :: "string \<Rightarrow> string"
  ceParseTime :: "string \<Rightarrow> time option"
  cePrimitives :: primitives
  ceManifest :: "string \<Rightarrow> Manifest option"
  ceReceipts :: "string \<Rightarrow> Receipt list option"
  ceClosure :: "string \<Rightarrow> RequestClosure option"

text \<open>\<open>csSent\<close> are the calls of \<open>http.Client.Do\<close>, \<open>csWire\<close> the requests that these sent, with those that follow redirects.\<close>

record client_state =
  csTick :: nat
  csClock :: time
  csSent :: "call list"
  csWire :: "call list"
  csSlept :: "duration list"
  csDisk :: disk

record Client =
  clKey :: KeyFile
  clReadRetries :: int64
  clRetryBase :: duration
  clRetryMax :: duration

text \<open>
  Errors: of the context, of the transport, a refusal with its status, a broken answer, a failed check,
  \<open>Retry-After\<close> beyond the maximum, the output directory (\<open>outputError\<close>), the wrappers of
  \<open>Collect\<close> and \<open>CollectOne\<close>, and a panic.
\<close>

datatype cerror = ECtx ctx_error | EURL | ETransport | EStatus int | ETooLarge | EJSON
  | ECheck string | ERetryAfter cerror duration | EWaitTimeout | EOutput os_error | ENotADirectory
  | EProbe | ECollisions | EAck cerror | EUpload string cerror | EPanic

definition advance :: "client_env \<Rightarrow> client_state \<Rightarrow> client_state" where
  "advance W st = st\<lparr>csTick := Suc (csTick st), csClock := time_add (csClock st) (int (ceLag W (csTick st)))\<rparr>"

definition exchange :: "client_env \<Rightarrow> call \<Rightarrow> client_state \<Rightarrow> reply option \<times> client_state" where
  "exchange W c st = (ceDo W (csTick st) c, (advance W st)\<lparr>csWire := csWire st @ [c]\<rparr>)"

text \<open>\<open>http.Client.Do\<close> with a \<open>CheckRedirect\<close> that gives \<open>ErrUseLastResponse\<close>: one exchange.\<close>

definition send :: "client_env \<Rightarrow> call \<Rightarrow> client_state \<Rightarrow> reply option \<times> client_state" where
  "send W c st = exchange W c (st\<lparr>csSent := csSent st @ [c]\<rparr>)"

text \<open>
  \<open>http.Client.Do\<close> with the default policy follows up to ten redirects of a \<open>GET\<close>. The \<open>Authorization\<close>
  header goes along until a redirect leaves the host of the first request and its subdomains.
\<close>

definition redirect_status :: "int \<Rightarrow> bool" where
  "redirect_status status \<longleftrightarrow> status \<in> {301, 302, 303, 307, 308}"

definition domain_or_subdomain :: "string \<Rightarrow> string \<Rightarrow> bool" where
  "domain_or_subdomain sub parent \<longleftrightarrow> sub = parent
     \<or> CHR '':'' \<notin> set sub \<and> CHR ''%'' \<notin> set sub \<and> suffix parent sub \<and> last (take (length sub - length parent) sub) = CHR ''.''"

definition same_site :: "client_env \<Rightarrow> string \<Rightarrow> string \<Rightarrow> bool" where
  "same_site W first url \<longleftrightarrow> ceHost W url = ceHost W first \<or> domain_or_subdomain (ceHostname W url) (ceHostname W first)"

fun follow :: "nat \<Rightarrow> client_env \<Rightarrow> string \<Rightarrow> bool \<Rightarrow> string \<Rightarrow> string \<Rightarrow> client_state \<Rightarrow> reply option \<times> client_state" where
  "follow 0 W first stripped token url st = (None, st)"
| "follow (Suc n) W first stripped token url st =
     (case exchange W (Get_call url (if stripped then [] else token)) st of
        (None, st) \<Rightarrow> (None, st)
      | (Some r, st) \<Rightarrow>
          if \<not> redirect_status (ryStatus r) \<or> ryLocation r = [] then (Some r, st)
          else case ceLocate W url (ryLocation r) of
            None \<Rightarrow> (None, st)
          | Some url' \<Rightarrow> follow n W first (stripped \<or> \<not> same_site W first url') token url' st)"

definition max_redirects :: nat where
  "max_redirects = 10"

definition send_get :: "client_env \<Rightarrow> string \<Rightarrow> string \<Rightarrow> client_state \<Rightarrow> reply option \<times> client_state" where
  "send_get W url token st = follow max_redirects W url False token url (st\<lparr>csSent := csSent st @ [Get_call url token]\<rparr>)"

definition ctx_err :: "ctx \<Rightarrow> client_env \<Rightarrow> client_state \<Rightarrow> ctx_error option \<times> client_state" where
  "ctx_err ctx W st = (ctx (csTick st), advance W st)"

text \<open>\<open>if err := ctx.Err(); err != nil { return err }\<close>\<close>

definition check_ctx :: "ctx \<Rightarrow> client_env \<Rightarrow> client_state \<Rightarrow> (cerror + unit) \<times> client_state" where
  "check_ctx ctx W st =
     (case ctx_err ctx W st of (Some e, st) \<Rightarrow> (Inl (ECtx e), st) | (None, st) \<Rightarrow> (Inr (), st))"

text \<open>
  \<open>sleepContext\<close>: a sleep that ends by its timer takes at least its delay; otherwise the context is done.
\<close>

definition sleepContext :: "ctx \<Rightarrow> client_env \<Rightarrow> duration \<Rightarrow> client_state \<Rightarrow> (cerror + unit) \<times> client_state" where
  "sleepContext ctx W delay st =
     (let st = st\<lparr>csSlept := csSlept st @ [delay]\<rparr> in
      case check_ctx ctx W st of
        (Inl e, st) \<Rightarrow> (Inl e, st)
      | (Inr _, st) \<Rightarrow> (Inr (), if delay \<le> 0 then st else st\<lparr>csClock := time_add (csClock st) delay\<rparr>))"

section \<open>One read\<close>

definition endpoint :: "Client \<Rightarrow> string list \<Rightarrow> string" where
  "endpoint c parts = trim_right (\<lambda>x. x = slash) (kfServerURL (clKey c)) @ concat (map (\<lambda>p. slash # p) parts)"

definition collect_url :: "Client \<Rightarrow> string list \<Rightarrow> string" where
  "collect_url c parts = endpoint c ([''api'', ''v1'', ''collect'', kfRequestID (clKey c)] @ parts)"

definition retryableReadStatus :: "int \<Rightarrow> bool" where
  "retryableReadStatus status \<longleftrightarrow> status \<in> {408, 425, 429, 500, 502, 503, 504}"

definition decimalDigits :: "string \<Rightarrow> bool" where
  "decimalDigits value \<longleftrightarrow> value \<noteq> [] \<and> list_all is_digit value"

definition parseRetryAfter :: "client_env \<Rightarrow> string \<Rightarrow> time \<Rightarrow> duration \<times> bool" where
  "parseRetryAfter W value now =
     (let value = trim_space value in
      if value = [] then (0, False)
      else if decimalDigits value then
        (let seconds = int (digits_value value) in
         if seconds > 2 ^ 64 - 1 \<or> seconds > max_duration div nanos_per_second then (max_duration, True)
         else (seconds * nanos_per_second, True))
      else case ceParseTime W value of
        None \<Rightarrow> (0, False)
      | Some when \<Rightarrow> (max 0 (time_sub when now), True))"

text \<open>The error of a failed read comes with \<open>Retry-After\<close> and whether it may be tried again.\<close>

type_synonym read_error = "duration \<times> bool \<times> cerror"

definition broken_read :: "ctx \<Rightarrow> client_env \<Rightarrow> client_state \<Rightarrow> (read_error + string) \<times> client_state" where
  "broken_read ctx W st = (case ctx_err ctx W st of (e, st) \<Rightarrow> (Inl (0, e = None, ETransport), st))"

text \<open>\<open>io.ReadAll\<close> of a body through a \<open>LimitReader\<close> of one byte more than the limit.\<close>

definition read_limited :: "int64 \<Rightarrow> reply \<Rightarrow> string option" where
  "read_limited limit r =
     (let n = nat (wrap64 (limit + 1)) in
      if ryBreaks r \<and> length (ryBytes r) < n then None else Some (take n (ryBytes r)))"

definition bytesRequestOnce :: "Client \<Rightarrow> client_env \<Rightarrow> ctx \<Rightarrow> string \<Rightarrow> int64 \<Rightarrow> client_state
    \<Rightarrow> (read_error + string) \<times> client_state" where
  "bytesRequestOnce c W ctx url limit st =
     (if \<not> ceValidURL W url then (Inl (0, False, EURL), st)
      else case send_get W url (kfCollectToken (clKey c)) st of
        (None, st) \<Rightarrow> broken_read ctx W st
      | (Some r, st) \<Rightarrow>
          if ryStatus r \<noteq> 200
          then (Inl (fst (parseRetryAfter W (ryRetryAfter r) (csClock st)), retryableReadStatus (ryStatus r),
            EStatus (ryStatus r)), st)
          else if ryContentLength r > limit then (Inl (0, False, ETooLarge), st)
          else case read_limited limit r of
            None \<Rightarrow> broken_read ctx W st
          | Some payload \<Rightarrow>
              if int (length payload) > limit then (Inl (0, False, ETooLarge), st) else (Inr payload, st))"

section \<open>Retries\<close>

definition DefaultReadRetries :: int64 where "DefaultReadRetries = 3"
definition MaxReadRetries :: int64 where "MaxReadRetries = 10"

text \<open>\<open>New\<close>: the transport it sets up is the parameter \<open>ceDo\<close>.\<close>

definition New :: "KeyFile \<Rightarrow> Client" where
  "New key = \<lparr>clKey = key, clReadRetries = DefaultReadRetries, clRetryBase = 250 * 1000000, clRetryMax = 30 * nanos_per_second\<rparr>"

definition maxListResponse :: int64 where "maxListResponse = 8 * 1024 * 1024"
definition maxJSONResponse :: int64 where "maxJSONResponse = 1024 * 1024"

definition max_retry_delay :: "Client \<Rightarrow> duration" where
  "max_retry_delay c = (if clRetryMax c \<le> 0 then 30 * nanos_per_second else clRetryMax c)"

fun double_delay :: "nat \<Rightarrow> duration \<Rightarrow> duration \<Rightarrow> duration" where
  "double_delay 0 delay maxDelay = (if delay > maxDelay then maxDelay else delay)"
| "double_delay (Suc n) delay maxDelay =
     (if delay \<ge> maxDelay div 2 then maxDelay else double_delay n (delay * 2) maxDelay)"

definition retryDelay :: "Client \<Rightarrow> nat \<Rightarrow> duration" where
  "retryDelay c failedAttempt = double_delay (failedAttempt - 1) (max 0 (clRetryBase c)) (max_retry_delay c)"

definition read_attempts :: "Client \<Rightarrow> nat" where
  "read_attempts c = nat (min MaxReadRetries (max 0 (clReadRetries c))) + 1"

text \<open>The loop of \<open>bytesRequest\<close>; the first argument is the number of attempts left.\<close>

fun read_loop :: "nat \<Rightarrow> nat \<Rightarrow> Client \<Rightarrow> client_env \<Rightarrow> ctx \<Rightarrow> string \<Rightarrow> int64 \<Rightarrow> client_state
    \<Rightarrow> (cerror + string) \<times> client_state" where
  "read_loop 0 attempt c W ctx url limit st = (Inl (ECheck ''read retry loop exhausted''), st)"
| "read_loop (Suc n) attempt c W ctx url limit st =
     (case bytesRequestOnce c W ctx url limit st of
        (Inr payload, st) \<Rightarrow> (Inr payload, st)
      | (Inl (retryAfter, retryable, err), st) \<Rightarrow>
          if \<not> retryable \<or> n = 0 then (Inl err, st)
          else case ctx_err ctx W st of
            (Some _, st) \<Rightarrow> (Inl err, st)
          | (None, st) \<Rightarrow>
              if retryAfter > max_retry_delay c then (Inl (ERetryAfter err retryAfter), st)
              else and_then (sleepContext ctx W (max (retryDelay c attempt) retryAfter) st)
                (\<lambda>_. read_loop n (Suc attempt) c W ctx url limit))"

definition bytesRequest :: "Client \<Rightarrow> client_env \<Rightarrow> ctx \<Rightarrow> string \<Rightarrow> int64 \<Rightarrow> client_state
    \<Rightarrow> (cerror + string) \<times> client_state" where
  "bytesRequest c W ctx url limit st = read_loop (read_attempts c) 1 c W ctx url limit st"

section \<open>Writes\<close>

text \<open>
  \<open>jsonRequest\<close> with \<open>POST\<close>: it is sent once and follows no redirect. The answer is the payload, or
  nothing when there is no target or no content.
\<close>

definition jsonRequest :: "Client \<Rightarrow> client_env \<Rightarrow> string \<Rightarrow> bool \<Rightarrow> client_state
    \<Rightarrow> (cerror + string option) \<times> client_state" where
  "jsonRequest c W url target st =
     (if \<not> ceValidURL W url then (Inl EURL, st)
      else case send W (Post_call url (kfCollectToken (clKey c))) st of
        (None, st) \<Rightarrow> (Inl ETransport, st)
      | (Some r, st) \<Rightarrow>
          if ryStatus r < 200 \<or> ryStatus r \<ge> 300 then (Inl (EStatus (ryStatus r)), st)
          else if \<not> target \<or> ryStatus r = 204 then (Inr None, st)
          else case read_limited maxJSONResponse r of
            None \<Rightarrow> (Inl ETransport, st)
          | Some payload \<Rightarrow>
              if int (length payload) > maxJSONResponse then (Inl ETooLarge, st) else (Inr (Some payload), st))"

definition client_CloseRequest :: "Client \<Rightarrow> client_env \<Rightarrow> client_state \<Rightarrow> (cerror + RequestClosure) \<times> client_state" where
  "client_CloseRequest c W st =
     and_then (jsonRequest c W (collect_url c [''close'']) True st) (\<lambda>payload st.
       case payload of
         None \<Rightarrow> (Inl (ECheck ''server returned an invalid request closure''), st)
       | Some b \<Rightarrow>
           (case ceClosure W b of
              None \<Rightarrow> (Inl EJSON, st)
            | Some cl \<Rightarrow>
                if clSchemaVersion cl \<noteq> SchemaVersion \<or> clRequestID cl \<noteq> kfRequestID (clKey c) \<or> is_zero_time (clClosedAt cl)
                then (Inl (ECheck ''server returned an invalid request closure''), st)
                else (Inr cl, st)))"

section \<open>Waiting for receipts\<close>

definition List_receipts :: "Client \<Rightarrow> client_env \<Rightarrow> ctx \<Rightarrow> client_state \<Rightarrow> (cerror + Receipt list) \<times> client_state" where
  "List_receipts c W ctx st =
     and_then (bytesRequest c W ctx (collect_url c [''uploads'']) maxListResponse st) (\<lambda>payload st.
       case ceReceipts W payload of None \<Rightarrow> (Inl EJSON, st) | Some rs \<Rightarrow> (Inr rs, st))"

record WaitOptions =
  woUploadIDs :: "string list"
  woIncludeAcknowledged :: bool
  woTimeout :: duration
  woPollInterval :: duration

definition MinPollInterval :: duration where "MinPollInterval = nanos_per_second"
definition MaxPollInterval :: duration where "MaxPollInterval = 300 * nanos_per_second"
definition MaxWaitTimeout :: duration where "MaxWaitTimeout = 86400 * nanos_per_second"

definition receiptListReady :: "Receipt list \<Rightarrow> WaitOptions \<Rightarrow> bool" where
  "receiptListReady receipts opts =
     (if woUploadIDs opts = [] then list_ex (\<lambda>r. woIncludeAcknowledged opts \<or> \<not> rcAcknowledged r) receipts
      else filter (\<lambda>u. u \<notin> rcUploadID ` set receipts) (woUploadIDs opts) = [])"

text \<open>\<open>parent\<close> is the context of the caller, \<open>wait\<close> the one with the deadline.\<close>

definition waitTerminationError :: "ctx \<Rightarrow> ctx \<Rightarrow> client_env \<Rightarrow> cerror \<Rightarrow> client_state \<Rightarrow> cerror \<times> client_state" where
  "waitTerminationError parent wait W fallback st =
     (case ctx_err parent W st of
        (Some e, st) \<Rightarrow> (ECtx e, st)
      | (None, st) \<Rightarrow>
          (case ctx_err wait W st of (e, st) \<Rightarrow> (if e = Some DeadlineExceeded then EWaitTimeout else fallback, st)))"

text \<open>One turn of the loop of \<open>WaitForReceipts\<close>: an outcome, or another turn.\<close>

definition wait_turn :: "Client \<Rightarrow> client_env \<Rightarrow> ctx \<Rightarrow> ctx \<Rightarrow> WaitOptions \<Rightarrow> time \<Rightarrow> client_state
    \<Rightarrow> (cerror + Receipt list) option \<times> client_state" where
  "wait_turn c W parent wait opts deadline st =
     (case List_receipts c W wait st of
        (Inl e, st) \<Rightarrow> (case waitTerminationError parent wait W e st of (e, st) \<Rightarrow> (Some (Inl e), st))
      | (Inr receipts, st) \<Rightarrow>
          if receiptListReady receipts opts then (Some (Inr receipts), st)
          else let remaining = time_sub deadline (csClock st); st = advance W st in
            if remaining \<le> 0 then (Some (Inl EWaitTimeout), st)
            else (case sleepContext wait W (min (woPollInterval opts) remaining) st of
              (Inl e, st) \<Rightarrow> (case waitTerminationError parent wait W e st of (e, st) \<Rightarrow> (Some (Inl e), st))
            | (Inr _, st) \<Rightarrow> (None, st)))"

partial_function (option) wait_loop :: "Client \<Rightarrow> client_env \<Rightarrow> ctx \<Rightarrow> ctx \<Rightarrow> WaitOptions \<Rightarrow> time \<Rightarrow> client_state
    \<Rightarrow> ((cerror + Receipt list) \<times> client_state) option" where
  "wait_loop c W parent wait opts deadline st =
     (case wait_turn c W parent wait opts deadline st of
        (Some r, st) \<Rightarrow> Some (r, st)
      | (None, st) \<Rightarrow> wait_loop c W parent wait opts deadline st)"

definition WaitForReceipts :: "Client \<Rightarrow> client_env \<Rightarrow> ctx \<Rightarrow> ctx \<Rightarrow> WaitOptions \<Rightarrow> client_state
    \<Rightarrow> ((cerror + Receipt list) \<times> client_state) option" where
  "WaitForReceipts c W parent wait opts st =
     (if woTimeout opts < 0 \<or> woTimeout opts > MaxWaitTimeout
      then Some (Inl (ECheck ''wait timeout out of range''), st)
      else if \<not> list_all ValidID (woUploadIDs opts) then Some (Inl (ECheck ''invalid upload ID''), st)
      else if woTimeout opts = 0 then Some (List_receipts c W parent st)
      else if woPollInterval opts < MinPollInterval \<or> woPollInterval opts > MaxPollInterval
      then Some (Inl (ECheck ''poll interval out of range''), st)
      else wait_loop c W parent wait opts (time_add (csClock st) (woTimeout opts)) (advance W st))"

end
