(* ===== verification/ClientRuns.thy ===== *)
theory ClientRuns
  imports Client
begin

text \<open>
  What the client's requests do: reads send only \<open>GET\<close> requests with bounded retries and bounded
  delays and leave the disk alone; waiting comes to an end because the clock passes the deadline.
\<close>

section \<open>Quiet operations\<close>

definition is_get_call :: "call \<Rightarrow> bool" where
  "is_get_call c = (case c of Get_call _ _ \<Rightarrow> True | Post_call _ _ \<Rightarrow> False)"

text \<open>The disk is as it was, only \<open>GET\<close> requests were added to the logs, and the clock has not gone back.\<close>

definition quiet :: "client_state \<Rightarrow> client_state \<Rightarrow> bool" where
  "quiet st st' \<longleftrightarrow> csDisk st' = csDisk st \<and> csClock st \<le> csClock st'
     \<and> (\<exists>gets. csSent st' = csSent st @ gets \<and> list_all is_get_call gets)
     \<and> (\<exists>gets. csWire st' = csWire st @ gets \<and> list_all is_get_call gets)"

lemma quiet_refl [intro!, simp]: "quiet st st"
  by (simp add: quiet_def)

lemma quiet_trans: "quiet st st1 \<Longrightarrow> quiet st1 st2 \<Longrightarrow> quiet st st2"
  unfolding quiet_def using order_trans by (fastforce simp: list_all_append)

lemma time_le_nanos: "t \<le> u \<longleftrightarrow> nanos t \<le> nanos u"
  by (simp add: less_eq_time_def)

lemma nanos_add [simp]: "nanos (time_add t d) = nanos t + d"
  by (simp add: time_add_def)

lemma quiet_advance [intro!, simp]: "quiet st (advance W st)"
  by (simp add: quiet_def advance_def time_le_nanos)

lemma advance_simps [simp]: "csDisk (advance W st) = csDisk st" "csSent (advance W st) = csSent st"
  "csWire (advance W st) = csWire st"
  "csSlept (advance W st) = csSlept st"
  by (simp_all add: advance_def)

lemma snd_ctx_err [simp]: "snd (ctx_err ctx W st) = advance W st"
  by (simp add: ctx_err_def)

lemma snd_check_ctx [simp]: "snd (check_ctx ctx W st) = advance W st"
  by (auto simp: check_ctx_def split: prod.split option.split) (simp_all add: ctx_err_def)

text \<open>
  What one \<open>Do\<close> of a \<open>GET\<close> puts on the wire: at most ten requests, each with the token only when it goes
  to the URL asked for or to its site.
\<close>

definition hop_ok :: "client_env \<Rightarrow> string \<Rightarrow> string \<Rightarrow> call \<Rightarrow> bool" where
  "hop_ok W first token call = (case call of
     Get_call url t \<Rightarrow> t = [] \<or> t = token \<and> (url = first \<or> same_site W first url)
   | Post_call _ _ \<Rightarrow> False)"

definition only_wire :: "nat \<Rightarrow> (call \<Rightarrow> bool) \<Rightarrow> client_state \<Rightarrow> client_state \<Rightarrow> bool" where
  "only_wire n X st st' \<longleftrightarrow> csDisk st' = csDisk st \<and> csClock st \<le> csClock st' \<and> csSlept st' = csSlept st
     \<and> csSent st' = csSent st \<and> (\<exists>hops. csWire st' = csWire st @ hops \<and> list_all X hops \<and> length hops \<le> n)"

lemma exchange_wire: "X c \<Longrightarrow> only_wire 1 X st (snd (exchange W c st))"
  by (simp add: only_wire_def exchange_def) (simp add: advance_def time_le_nanos)

lemma only_wire_trans: "only_wire m X st st1 \<Longrightarrow> only_wire n X st1 st2 \<Longrightarrow> only_wire (m + n) X st st2"
  unfolding only_wire_def by (fastforce simp: list_all_append intro: order_trans)

lemma only_wire_mono: "only_wire m X st st' \<Longrightarrow> m \<le> n \<Longrightarrow> only_wire n X st st'"
  unfolding only_wire_def by (auto intro: order_trans)

lemma follow_wire:
  "stripped \<or> url = first \<or> same_site W first url
    \<Longrightarrow> only_wire n (hop_ok W first token) st (snd (follow n W first stripped token url st))"
proof (induction n arbitrary: stripped url st)
  case 0
  show ?case by (simp add: only_wire_def)
next
  case (Suc n)
  let ?c = "Get_call url (if stripped then [] else token)"
  obtain r st1 where e: "exchange W ?c st = (r, st1)" by fastforce
  have "hop_ok W first token ?c" using Suc.prems by (auto simp: hop_ok_def)
  then have one: "only_wire 1 (hop_ok W first token) st st1" using exchange_wire [of _ ?c st W] e by (metis snd_conv)
  have "only_wire (Suc n) (hop_ok W first token) st (snd (follow n W first (stripped \<or> \<not> same_site W first u) token u st1))" for u
    using only_wire_trans [OF one Suc.IH [of "stripped \<or> \<not> same_site W first u" u st1]] by simp
  then show ?case using only_wire_mono [OF one, of "Suc n"] by (auto simp: e split: option.split)
qed

lemma send_get_wire:
  "only_wire 10 (hop_ok W url token) (st\<lparr>csSent := csSent st @ [Get_call url token]\<rparr>) (snd (send_get W url token st))"
  unfolding send_get_def max_redirects_def by (rule follow_wire) simp

lemma hop_is_get: "hop_ok W first token call \<Longrightarrow> is_get_call call"
  by (simp add: hop_ok_def is_get_call_def split: call.splits)

lemma quiet_send [simp]: "quiet st (snd (send_get W u t st))"
proof -
  have "list_all (hop_ok W u t) hops \<Longrightarrow> list_all is_get_call hops" for hops
    by (auto simp: list_all_iff hop_is_get)
  then show ?thesis using send_get_wire [of W u t st] by (auto simp: only_wire_def quiet_def is_get_call_def)
qed

lemma send_get_logs:
  "csSlept (snd (send_get W u t st)) = csSlept st" "csSent (snd (send_get W u t st)) = csSent st @ [Get_call u t]"
  "csDisk (snd (send_get W u t st)) = csDisk st"
  using send_get_wire [of W u t st] by (simp_all add: only_wire_def)

lemma sleep_state:
  "snd (sleepContext ctx W d st) = (advance W st)\<lparr>csSlept := csSlept st @ [d]\<rparr>
   \<or> 0 < d \<and> snd (sleepContext ctx W d st) = (advance W st)\<lparr>csSlept := csSlept st @ [d],
       csClock := time_add (csClock (advance W st)) d\<rparr>"
  by (auto simp: sleepContext_def check_ctx_def ctx_err_def advance_def Let_def split: option.split)

lemma quiet_sleep: "quiet st (snd (sleepContext ctx W d st))"
  using sleep_state [of ctx W d st] by (auto simp: quiet_def time_le_nanos advance_def)

lemma sleep_slept [simp]: "csSlept (snd (sleepContext ctx W d st)) = csSlept st @ [d]"
  using sleep_state [of ctx W d st] by auto

lemma sleep_sent [simp]: "csSent (snd (sleepContext ctx W d st)) = csSent st"
  "csWire (snd (sleepContext ctx W d st)) = csWire st"
  using sleep_state [of ctx W d st] by (auto simp: advance_def)

text \<open>A sleep that was not interrupted takes its time.\<close>

lemma sleep_ok_clock:
  "sleepContext ctx W d st = (Inr (), st') \<Longrightarrow> nanos (csClock st) + d \<le> nanos (csClock st')"
  by (auto simp: sleepContext_def check_ctx_def ctx_err_def advance_def Let_def split: option.splits if_splits)

section \<open>Reads\<close>

lemma once_state:
  "snd (bytesRequestOnce c W ctx url limit st) = st
   \<or> (\<exists>st1. st1 = snd (send_get W url (kfCollectToken (clKey c)) st)
       \<and> (snd (bytesRequestOnce c W ctx url limit st) = st1 \<or> snd (bytesRequestOnce c W ctx url limit st) = advance W st1))"
  by (auto simp: bytesRequestOnce_def broken_read_def ctx_err_def split: prod.split option.split)

lemma once_logs:
  obtains j hops where "csSlept (snd (bytesRequestOnce c W ctx url limit st)) = csSlept st"
    and "csSent (snd (bytesRequestOnce c W ctx url limit st)) = csSent st @ replicate j (Get_call url (kfCollectToken (clKey c)))"
    and "csWire (snd (bytesRequestOnce c W ctx url limit st)) = csWire st @ hops" and "j \<le> 1" and "length hops \<le> 10 * j"
proof -
  let ?st1 = "snd (send_get W url (kfCollectToken (clKey c)) st)"
  obtain hops where h: "csWire ?st1 = csWire st @ hops" "length hops \<le> 10"
    using send_get_wire [of W url "kfCollectToken (clKey c)" st] by (auto simp: only_wire_def)
  consider "snd (bytesRequestOnce c W ctx url limit st) = st"
    | "snd (bytesRequestOnce c W ctx url limit st) \<in> {?st1, advance W ?st1}"
    using once_state [of c W ctx url limit st] by auto
  then show thesis
  proof cases
    case 1
    then show thesis by (intro that [of 0 "[]"]) simp_all
  next
    case 2
    then show thesis using h by (intro that [of 1 hops]) (auto simp: send_get_logs)
  qed
qed

lemma double_delay_bounds:
  "0 \<le> d \<Longrightarrow> 0 < M \<Longrightarrow> 0 \<le> double_delay n d M \<and> double_delay n d M \<le> M"
  by (induction n d M rule: double_delay.induct) auto

lemma max_retry_delay_pos: "0 < max_retry_delay c"
  by (simp add: max_retry_delay_def nanos_per_second_def)

lemma retryDelay_bounds: "0 \<le> retryDelay c n" "retryDelay c n \<le> max_retry_delay c"
  using double_delay_bounds [of "max 0 (clRetryBase c)" "max_retry_delay c" "n - 1"] max_retry_delay_pos
  by (simp_all add: retryDelay_def)

text \<open>What a loop of at most \<open>n\<close> attempts adds to the logs.\<close>

definition bounded_read :: "Client \<Rightarrow> string \<Rightarrow> nat \<Rightarrow> client_state \<Rightarrow> client_state \<Rightarrow> bool" where
  "bounded_read c url n st st' \<longleftrightarrow>
     (\<exists>k ds hops. csSent st' = csSent st @ replicate k (Get_call url (kfCollectToken (clKey c))) \<and> k \<le> n
        \<and> csWire st' = csWire st @ hops \<and> length hops \<le> 10 * k
        \<and> csSlept st' = csSlept st @ ds \<and> length ds \<le> n - 1 \<and> (\<forall>d \<in> set ds. 0 \<le> d \<and> d \<le> max_retry_delay c))"

lemma bounded_read_refl: "bounded_read c url n st st"
  by (auto simp: bounded_read_def intro: exI [of _ 0])

lemma read_loop_bounded:
  "bounded_read c url n st (snd (read_loop n attempt c W ctx url limit st))"
proof (induction n arbitrary: attempt st)
  case 0
  show ?case by (simp add: bounded_read_def)
next
  case (Suc n)
  let ?call = "Get_call url (kfCollectToken (clKey c))"
  obtain r st1 where once: "bytesRequestOnce c W ctx url limit st = (r, st1)" by fastforce
  obtain j hops where l: "csSlept st1 = csSlept st" "csSent st1 = csSent st @ replicate j ?call" "csWire st1 = csWire st @ hops"
      and j: "j \<le> 1" "length hops \<le> 10 * j"
    using once_logs [of c W ctx url limit st] once by (metis snd_conv)
  have one: "bounded_read c url (Suc n) st st2"
    if "csSlept st2 = csSlept st1" "csSent st2 = csSent st1" "csWire st2 = csWire st1" for st2
    unfolding bounded_read_def
    by (rule exI [of _ j], rule exI [of _ "[]"], rule exI [of _ hops]) (use that l j in simp)
  show ?case
  proof (cases r)
    case (Inr payload)
    then show ?thesis using one once by simp
  next
    case (Inl e)
    obtain ra retryable err where e: "e = (ra, retryable, err)" by (cases e) auto
    show ?thesis
    proof (cases "\<not> retryable \<or> n = 0 \<or> fst (ctx_err ctx W st1) \<noteq> None \<or> ra > max_retry_delay c")
      case True
      then show ?thesis using one [of st1] one [of "advance W st1"]
        by (auto simp: once Inl e ctx_err_def split: option.splits)
    next
      case False
      let ?d = "max (retryDelay c attempt) ra"
      obtain s st2 where sl: "sleepContext ctx W ?d (advance W st1) = (s, st2)" by fastforce
      have sl2: "csSlept st2 = csSlept st @ [?d]" "csSent st2 = csSent st1" "csWire st2 = csWire st1"
        using sleep_slept [of ctx W ?d "advance W st1"] sleep_sent [of ctx W ?d "advance W st1"] l sl by simp_all
      have d: "0 \<le> ?d" "?d \<le> max_retry_delay c" using retryDelay_bounds [of c attempt] False by auto
      have fin: "bounded_read c url (Suc n) st st3" if b: "bounded_read c url n st2 st3" for st3
      proof -
        obtain k ds more where k: "csSent st3 = csSent st2 @ replicate k ?call" "k \<le> n" "csWire st3 = csWire st2 @ more"
          "length more \<le> 10 * k" "csSlept st3 = csSlept st2 @ ds"
          "length ds \<le> n - 1" "\<forall>d \<in> set ds. 0 \<le> d \<and> d \<le> max_retry_delay c"
          using b unfolding bounded_read_def by blast
        show ?thesis unfolding bounded_read_def
          by (rule exI [of _ "j + k"], rule exI [of _ "?d # ds"], rule exI [of _ "hops @ more"])
            (use k l j sl2 d False in \<open>auto simp: replicate_add\<close>)
      qed
      with Suc.IH [of st2 "Suc attempt"] bounded_read_refl [of c url n st2] False sl show ?thesis
        by (cases s) (auto simp: once Inl e ctx_err_def)
    qed
  qed
qed

section \<open>Steps of the client\<close>

text \<open>
  A relation on states that holds for the steps the reads are made of holds for the reads: time passes,
  the client sleeps, and a \<open>GET\<close> request with the collect token is sent to a URL of \<open>U\<close>, which has the
  collect URLs of the client.
\<close>

locale client_steps = step_relation R for R :: "client_state \<Rightarrow> client_state \<Rightarrow> bool" +
  fixes c :: Client and W :: client_env and U :: "string \<Rightarrow> bool"
  assumes advances: "R st (advance W st)"
    and sleeps: "R st (snd (sleepContext ctx W d st))"
    and gets: "U url \<Longrightarrow> R st (snd (send_get W url (kfCollectToken (clKey c)) st))"
    and urls: "U (collect_url c parts)"
begin

lemma checks: "R st (snd (check_ctx ctx W st))"
  by (simp add: advances)

lemma once:
  assumes "U url"
  shows "R st (snd (bytesRequestOnce c W ctx url limit st))"
  using once_state [of c W ctx url limit st] gets [OF assms, of st] by (auto intro: refl trans [OF _ advances])

lemma loops: "U url \<Longrightarrow> R st (snd (read_loop n attempt c W ctx url limit st))"
proof (induction n arbitrary: attempt st)
  case (Suc n)
  obtain r st1 where o: "bytesRequestOnce c W ctx url limit st = (r, st1)" by fastforce
  have q: "R st st1" using once [OF Suc.prems, of st ctx limit] o by simp
  have step: "R st1 (snd (and_then (sleepContext ctx W d (advance W st1))
      (\<lambda>_. read_loop n (Suc attempt) c W ctx url limit)))" for d
    by (rule trans [OF advances]) (rule and_then [OF sleeps], rule Suc.IH [OF Suc.prems])
  show ?case
    using q trans [OF q step] trans [OF q advances]
    by (auto simp: o ctx_err_def split: sum.split prod.split option.split)
qed (simp add: refl)

lemma reads: "U url \<Longrightarrow> R st (snd (bytesRequest c W ctx url limit st))"
  by (simp add: bytesRequest_def loops)

lemma lists: "R st (snd (List_receipts c W ctx st))"
  unfolding List_receipts_def by (rule and_then) (auto split: option.split intro: reads urls refl)

lemma wait_errors: "R st (snd (waitTerminationError parent wait W e st))"
  by (auto simp: waitTerminationError_def ctx_err_def split: option.split intro: trans advances)

lemma turns: "R st (snd (wait_turn c W parent wait opts deadline st))"
proof -
  obtain r st1 where l: "List_receipts c W wait st = (r, st1)" by fastforce
  have q: "R st st1" using lists [of st wait] l by simp
  have e: "R st (snd (case waitTerminationError parent wait W e st2 of (e, st) \<Rightarrow> (Some (Inl e :: cerror + Receipt list), st)))"
    if "R st st2" for e :: cerror and st2
    using trans [OF that wait_errors [of st2 parent wait e]] by (simp add: split_def)
  show ?thesis
  proof (cases r)
    case (Inl x)
    then show ?thesis using e [OF q] l by (simp add: wait_turn_def)
  next
    case (Inr rs)
    define d where "d = min (woPollInterval opts) (time_sub deadline (csClock st1))"
    obtain sl st2 where sl: "sleepContext wait W d (advance W st1) = (sl, st2)" by fastforce
    have "R st st2" using trans [OF q trans [OF advances sleeps [of "advance W st1" wait d]]] sl by simp
    then show ?thesis using q trans [OF q advances] l Inr sl e [of st2]
      by (cases sl) (simp_all add: wait_turn_def Let_def d_def)
  qed
qed

lemma waits_loop:
  assumes "wait_loop c W parent wait opts deadline st = Some x"
  shows "R st (snd x)"
proof -
  have "R st (snd x)" if "wait_loop c' W' parent wait opts deadline st = Some x" and "c' = c" and "W' = W" for c' W'
    using that
  proof (induction rule: wait_loop.raw_induct [rotated, consumes 1])
    case (1 loop c' W' parent wait opts deadline st y)
    obtain r st1 where t: "wait_turn c W parent wait opts deadline st = (r, st1)" by fastforce
    have q: "R st st1" using turns [of st parent wait opts deadline] t by simp
    show ?case
    proof (cases r)
      case None
      then have "loop c' W' parent wait opts deadline st1 = Some y" using 1 t by simp
      then have "R st1 (snd y)" using 1 by blast
      then show ?thesis by (rule trans [OF q])
    next
      case (Some z)
      then show ?thesis using 1 t q by auto
    qed
  qed
  with assms show ?thesis by blast
qed

lemma waits:
  assumes "WaitForReceipts c W parent wait opts st = Some (r, st')"
  shows "R st st'"
  using assms lists [of st parent] trans [OF advances waits_loop [of parent wait opts _ "advance W st" "(r, st')"]]
  by (auto simp: WaitForReceipts_def refl split: if_splits)

end

interpretation quiet: client_steps quiet c W "\<lambda>_. True"
  by unfold_locales (auto intro: quiet_trans quiet_sleep)

lemmas quiet_and_then = quiet.and_then

lemma bytesRequest_quiet [simp]: "quiet st (snd (bytesRequest c W ctx url limit st))"
  by (rule quiet.reads) simp

section \<open>Waiting\<close>

lemma time_sub_pos: "0 < time_sub t u \<longleftrightarrow> nanos u < nanos t"
  by (auto simp: time_sub_def min_duration_def max_duration_def)

text \<open>A turn that goes on has brought the clock nearer to the deadline.\<close>

lemma wait_turn_progress:
  assumes "wait_turn c W parent wait opts deadline st = (None, st')" and "0 < woPollInterval opts"
  shows "nanos (csClock st) < nanos (csClock st')" and "nanos (csClock st) < nanos deadline"
proof -
  obtain r st1 where l: "List_receipts c W wait st = (r, st1)" by fastforce
  have q: "nanos (csClock st) \<le> nanos (csClock st1)"
    using quiet.lists [of st c W wait] l by (simp add: quiet_def time_le_nanos)
  have a: "nanos (csClock st1) \<le> nanos (csClock (advance W st1))" by (simp add: advance_def)
  let ?rem = "time_sub deadline (csClock st1)"
  obtain rs where rs: "r = Inr rs" using assms(1) l by (cases r) (auto simp: wait_turn_def split: prod.splits)
  then have rem: "0 < ?rem" and sl: "sleepContext wait W (min (woPollInterval opts) ?rem) (advance W st1) = (Inr (), st')"
    using assms(1) l by (auto simp: wait_turn_def Let_def split: if_splits sum.splits prod.splits)
  from sleep_ok_clock [OF sl] rem assms(2) q a show "nanos (csClock st) < nanos (csClock st')" by simp
  from rem q show "nanos (csClock st) < nanos deadline" by (simp add: time_sub_pos)
qed

lemma wait_turn_ready:
  "wait_turn c W parent wait opts deadline st = (Some (Inr rs), st') \<Longrightarrow> receiptListReady rs opts"
  by (auto simp: wait_turn_def Let_def split: if_splits sum.splits prod.splits)

lemma wait_loop_returns:
  assumes "0 < woPollInterval opts"
  shows "\<exists>r st'. wait_loop c W parent wait opts deadline st = Some (r, st') \<and> quiet st st'
    \<and> (\<forall>rs. r = Inr rs \<longrightarrow> receiptListReady rs opts)"
proof (induction "nat (nanos deadline - nanos (csClock st))" arbitrary: st rule: less_induct)
  case less
  obtain r st1 where t: "wait_turn c W parent wait opts deadline st = (r, st1)" by fastforce
  have q: "quiet st st1" using quiet.turns [of st c W parent wait opts deadline] t by simp
  show ?case
  proof (cases r)
    case (Some x)
    then show ?thesis using t q wait_turn_ready [of c W parent wait opts deadline st]
      by (subst wait_loop.simps) auto
  next
    case None
    with t have "nat (nanos deadline - nanos (csClock st1)) < nat (nanos deadline - nanos (csClock st))"
      using wait_turn_progress [of c W parent wait opts deadline st st1] assms by simp
    from less [OF this] show ?thesis using t None quiet_trans [OF q] by (subst wait_loop.simps) auto
  qed
qed

lemma WaitForReceipts_returns:
  "\<exists>r st'. WaitForReceipts c W parent wait opts st = Some (r, st') \<and> quiet st st'
    \<and> (\<forall>rs. r = Inr rs \<longrightarrow> woTimeout opts = 0 \<or> receiptListReady rs opts)"
proof (cases "woTimeout opts < 0 \<or> woTimeout opts > MaxWaitTimeout \<or> \<not> list_all ValidID (woUploadIDs opts)
    \<or> woTimeout opts = 0 \<or> woPollInterval opts < MinPollInterval \<or> woPollInterval opts > MaxPollInterval")
  case True
  moreover obtain r st1 where "List_receipts c W parent st = (r, st1)" by fastforce
  ultimately show ?thesis using quiet.lists [of st c W parent] by (auto simp: WaitForReceipts_def)
next
  case False
  then have "0 < woPollInterval opts" by (simp add: MinPollInterval_def nanos_per_second_def)
  from wait_loop_returns [OF this] obtain r st' where
    "wait_loop c W parent wait opts (time_add (csClock st) (woTimeout opts)) (advance W st) = Some (r, st')"
    "quiet (advance W st) st'" "\<forall>rs. r = Inr rs \<longrightarrow> receiptListReady rs opts" by blast
  then show ?thesis using False quiet_trans [OF quiet_advance] by (auto simp: WaitForReceipts_def)
qed

end
