(* ===== verification/Collector.thy ===== *)
theory Collector
  imports Client
begin

text \<open>
  \<open>internal/collector/collector.go\<close>: choosing receipts, decrypting an upload into a temporary file,
  publishing it under a free name by a hard link, and acknowledging it; and the inspection of uploads
  without saving them. A panic is an error value.
\<close>

section \<open>The output directory\<close>

text \<open>
  \<open>os.CreateTemp\<close> with the name it ends up with, \<open>os.File.Write\<close>, \<open>Sync\<close> and \<open>Close\<close>, \<open>os.Link\<close>
  and \<open>os.Remove\<close>. A failed write leaves the temporary file as it was.
\<close>

definition os_create_temp :: "env \<Rightarrow> disk \<Rightarrow> path \<Rightarrow> (os_error + unit) \<times> disk" where
  "os_create_temp E d p =
     (if envFault E OpCreate p then (Inl IOError, d)
      else if get d (butlast p) \<noteq> Some Dir then (Inl NotExist, d)
      else if get d p \<noteq> None then (Inl Exist, d)
      else (Inr (), put d p (File (Raw []))))"

definition os_append :: "env \<Rightarrow> disk \<Rightarrow> path \<Rightarrow> string \<Rightarrow> (os_error + unit) \<times> disk" where
  "os_append E d p b =
     (if envFault E OpWrite p then (Inl IOError, d)
      else case get d p of
        Some (File (Raw a)) \<Rightarrow> (Inr (), put d p (File (Raw (a @ b))))
      | _ \<Rightarrow> (Inl IOError, d))"

definition os_sync :: "env \<Rightarrow> disk \<Rightarrow> path \<Rightarrow> (os_error + unit) \<times> disk" where
  "os_sync E d p = (if envFault E OpSync p then (Inl IOError, d) else (Inr (), d))"

definition os_link :: "env \<Rightarrow> disk \<Rightarrow> path \<Rightarrow> path \<Rightarrow> (os_error + unit) \<times> disk" where
  "os_link E d p q =
     (if envFault E OpLink q then (Inl IOError, d)
      else if get d q \<noteq> None then (Inl Exist, d)
      else case get d p of
        None \<Rightarrow> (Inl NotExist, d)
      | Some n \<Rightarrow> if get d (butlast q) \<noteq> Some Dir then (Inl NotExist, d) else (Inr (), put d q n))"

definition os_remove :: "env \<Rightarrow> disk \<Rightarrow> path \<Rightarrow> (os_error + unit) \<times> disk" where
  "os_remove E d p =
     (if envFault E OpRemove p then (Inl IOError, d)
      else if get d p = None then (Inl NotExist, d) else (Inr (), del d (\<lambda>q. q = p)))"

text \<open>A call of package \<open>os\<close> at one tick; its error is an \<open>outputError\<close>.\<close>

definition on_disk :: "client_env \<Rightarrow> (env \<Rightarrow> disk \<Rightarrow> (os_error + 'a) \<times> disk) \<Rightarrow> client_state \<Rightarrow> (os_error + 'a) \<times> client_state" where
  "on_disk W f st = (case f (ceOS W (csTick st)) (csDisk st) of (r, d) \<Rightarrow> (r, (advance W st)\<lparr>csDisk := d\<rparr>))"

definition output_err :: "(os_error + 'a) \<times> client_state \<Rightarrow> (cerror + 'a) \<times> client_state" where
  "output_err r = (case r of (Inl e, st) \<Rightarrow> (Inl (EOutput e), st) | (Inr x, st) \<Rightarrow> (Inr x, st))"

definition remove_quietly :: "client_env \<Rightarrow> path \<Rightarrow> client_state \<Rightarrow> client_state" where
  "remove_quietly W p st = snd (on_disk W (\<lambda>E d. os_remove E d p) st)"

text \<open>The deferred removal of \<open>preflightOutputPublication\<close> reports an error other than absence.\<close>

definition remove_probe :: "client_env \<Rightarrow> path \<Rightarrow> (cerror + unit) \<times> client_state \<Rightarrow> (cerror + unit) \<times> client_state" where
  "remove_probe W p r =
     (case r of (res, st) \<Rightarrow>
        (case on_disk W (\<lambda>E d. os_remove E d p) st of
           (Inl e, st) \<Rightarrow> (if e = NotExist then res else case res of Inl x \<Rightarrow> Inl x | Inr _ \<Rightarrow> Inl (EOutput e), st)
         | (Inr _, st) \<Rightarrow> (res, st)))"

definition preflightOutputPublication :: "client_env \<Rightarrow> path \<Rightarrow> client_state \<Rightarrow> (cerror + unit) \<times> client_state" where
  "preflightOutputPublication W dir st =
     (let name = ''.opaquedrop-publish-probe-'' @ ceTempName W (csTick st) @ ''.part'';
          probe = dir @ [name]; link = dir @ [name @ ''.link'']
      in and_then (output_err (on_disk W (\<lambda>E d. os_create_temp E d probe) st)) (\<lambda>_ st.
         remove_probe W probe (remove_probe W link (
           and_then (output_err (on_disk W (\<lambda>E d. os_append E d probe (''OpaqueDrop output publication probe'' @ [newline])) st)) (\<lambda>_ st.
           and_then (output_err (on_disk W (\<lambda>E d. os_sync E d probe) st)) (\<lambda>_ st.
           and_then (output_err (on_disk W (\<lambda>E d. os_sync E d probe) st)) (\<lambda>_ st.
           and_then (output_err (on_disk W (\<lambda>E d. os_link E d probe link) st)) (\<lambda>_ st.
           and_then (output_err (on_disk W (\<lambda>E d. (os_stat E d probe, d)) st)) (\<lambda>_ st.
           and_then (output_err (on_disk W (\<lambda>E d. (os_stat E d link, d)) st)) (\<lambda>_ st.
             if ceSameFile W (csTick st) then (Inr (), st) else (Inl EProbe, st)))))))))))"

definition prepareOutputDir :: "client_env \<Rightarrow> path \<Rightarrow> client_state \<Rightarrow> (cerror + unit) \<times> client_state" where
  "prepareOutputDir W dir st =
     and_then (output_err (on_disk W (\<lambda>E d. os_mkdir_all E d dir) st)) (\<lambda>_ st.
     and_then (output_err (on_disk W (\<lambda>E d. (os_lstat E d dir, d)) st)) (\<lambda>n st.
       if n \<noteq> Dir then (Inl ENotADirectory, st) else preflightOutputPublication W dir st))"

section \<open>Publishing\<close>

definition maxNameCollisions :: nat where
  "maxNameCollisions = 10000"

definition candidate_name :: "string \<Rightarrow> nat \<Rightarrow> string" where
  "candidate_name name attempt =
     (let ext = filepath_ext name; base = trim_suffix ext name in
      if attempt > 1 then base @ ''-'' @ nat_str attempt @ ext else name)"

text \<open>The first argument is the number of attempts left.\<close>

fun publish_loop :: "nat \<Rightarrow> nat \<Rightarrow> client_env \<Rightarrow> path \<Rightarrow> path \<Rightarrow> string \<Rightarrow> client_state \<Rightarrow> (cerror + path) \<times> client_state" where
  "publish_loop 0 attempt W temp dir name st = (Inl ECollisions, st)"
| "publish_loop (Suc n) attempt W temp dir name st =
     (let candidate = dir @ [candidate_name name attempt] in
      case on_disk W (\<lambda>E d. os_link E d temp candidate) st of
        (Inr _, st) \<Rightarrow> (Inr candidate, remove_quietly W temp st)
      | (Inl Exist, st) \<Rightarrow> publish_loop n (Suc attempt) W temp dir name st
      | (Inl e, st) \<Rightarrow> (Inl (EOutput e), st))"

definition publishOutput :: "client_env \<Rightarrow> path \<Rightarrow> path \<Rightarrow> string \<Rightarrow> client_state \<Rightarrow> (cerror + path) \<times> client_state" where
  "publishOutput W temp dir name st = publish_loop maxNameCollisions 1 W temp dir name st"

section \<open>Manifest and metadata\<close>

definition wrap_opener :: "(string + 'a) \<Rightarrow> client_state \<Rightarrow> (cerror + 'a) \<times> client_state" where
  "wrap_opener r st = (case r of Inl e \<Rightarrow> (Inl (ECheck e), st) | Inr x \<Rightarrow> (Inr x, st))"

definition manifestMetadata :: "Client \<Rightarrow> client_env \<Rightarrow> ctx \<Rightarrow> Receipt \<Rightarrow> client_state
    \<Rightarrow> (cerror + Manifest \<times> string \<times> FileMetadata \<times> Opener) \<times> client_state" where
  "manifestMetadata c W ctx receipt st =
     (if rcRequestID receipt \<noteq> kfRequestID (clKey c) \<or> \<not> ValidID (rcUploadID receipt)
      then (Inl (ECheck ''receipt does not match key file''), st)
      else and_then (bytesRequest c W ctx (collect_url c [''uploads'', rcUploadID receipt, ''manifest'']) (64 * 1024) st) (\<lambda>raw st.
        case ceManifest W raw of
          None \<Rightarrow> (Inl (ECheck ''server returned an invalid manifest''), st)
        | Some m \<Rightarrow>
            if mfRequestID m \<noteq> kfRequestID (clKey c) \<or> mfUploadID m \<noteq> rcUploadID receipt
              \<or> mfChunkCount m \<noteq> rcChunkCount receipt \<or> mfPlainSize m \<noteq> rcPlainSize receipt
            then (Inl (ECheck ''manifest and receipt disagree''), st)
            else and_then (wrap_opener (NewOpener (cePrimitives W) (clKey c) m) st) (\<lambda>opener st.
              and_then (wrap_opener (Metadata (cePrimitives W) opener (mfEncryptedMetadata m)) st) (\<lambda>metadata st.
                (Inr (m, raw, metadata, opener), st)))))"

section \<open>Collecting one upload\<close>

text \<open>The loop over the chunks, with the digests and the plaintext so far.\<close>

fun collect_chunks :: "int list \<Rightarrow> Client \<Rightarrow> client_env \<Rightarrow> ctx \<Rightarrow> Receipt \<Rightarrow> Manifest \<Rightarrow> Opener \<Rightarrow> path \<Rightarrow> string list \<times> string
    \<Rightarrow> client_state \<Rightarrow> (cerror + string list \<times> string) \<times> client_state" where
  "collect_chunks [] c W ctx receipt m opener temp acc st = (Inr acc, st)"
| "collect_chunks (i # is) c W ctx receipt m opener temp acc st =
     and_then (bytesRequest c W ctx (collect_url c [''uploads'', rcUploadID receipt, ''chunks'', int_str i])
       (wrap64 (mfChunkSize m + 17)) st) (\<lambda>ciphertext st.
     and_then (check_ctx ctx W st) (\<lambda>_ st.
     and_then (wrap_opener (Chunk (cePrimitives W) opener i ciphertext) st) (\<lambda>plain st.
       if int (length plain) > mfPlainSize m - int (length (snd acc))
         \<or> i < mfChunkCount m - 1 \<and> int (length plain) \<noteq> mfChunkSize m
       then (Inl (ECheck ''decrypted chunk size does not match manifest''), st)
       else and_then (output_err (on_disk W (\<lambda>E d. os_append E d temp plain) st)) (\<lambda>_.
         collect_chunks is c W ctx receipt m opener temp (fst acc @ [sha256 ciphertext], snd acc @ plain)))))"

definition path_string :: "path \<Rightarrow> string" where
  "path_string p = join_with slash p"

text \<open>From the first chunk to the published file; the temporary file is removed by the caller.\<close>

definition save_upload :: "Client \<Rightarrow> client_env \<Rightarrow> ctx \<Rightarrow> Receipt \<Rightarrow> path \<Rightarrow> Manifest \<Rightarrow> string \<Rightarrow> FileMetadata \<Rightarrow> Opener
    \<Rightarrow> path \<Rightarrow> client_state \<Rightarrow> (cerror + CollectResult) \<times> client_state" where
  "save_upload c W ctx receipt dir m raw metadata opener temp st =
     (if mfChunkCount m < 0 then (Inl EPanic, st)
      else and_then (collect_chunks (map int [0..<nat (mfChunkCount m)]) c W ctx receipt m opener temp ([], []) st)
        (\<lambda>(digests, plain) st.
          if int (length plain) \<noteq> mfPlainSize m
          then (Inl (ECheck ''decrypted file size does not match manifest''), st)
          else let computed = ReceiptRoot raw digests in
            if \<not> equal_fold computed (rcReceiptSHA256 receipt)
            then (Inl (ECheck ''receipt hash does not match stored ciphertext''), st)
            else and_then (check_ctx ctx W st) (\<lambda>_ st.
              and_then (output_err (on_disk W (\<lambda>E d. os_sync E d temp) st)) (\<lambda>_ st.
              and_then (output_err (on_disk W (\<lambda>E d. os_sync E d temp) st)) (\<lambda>_ st.
              and_then (check_ctx ctx W st) (\<lambda>_ st.
                case SafeFilename (fmName metadata) of
                  None \<Rightarrow> (Inl EPanic, st)
                | Some name \<Rightarrow>
                    and_then (publishOutput W temp dir name st) (\<lambda>destination st.
                      (Inr \<lparr>crUploadID = rcUploadID receipt, crPath = path_string destination,
                         crPlainBytes = int (length plain), crPlainSHA256 = sha256_hex plain,
                         crReceiptSHA256 = computed\<rparr>, st))))))))"

text \<open>
  \<open>CollectOne\<close> gives a result and an error: both are present when the file was saved and the
  acknowledgement failed.
\<close>

definition CollectOne :: "Client \<Rightarrow> client_env \<Rightarrow> ctx \<Rightarrow> Receipt \<Rightarrow> path \<Rightarrow> bool \<Rightarrow> client_state
    \<Rightarrow> (CollectResult option \<times> cerror option) \<times> client_state" where
  "CollectOne c W ctx receipt dir acknowledge_it st =
     (case manifestMetadata c W ctx receipt st of
        (Inl e, st) \<Rightarrow> ((None, Some e), st)
      | (Inr (m, raw, metadata, opener), st) \<Rightarrow>
          (case prepareOutputDir W dir st of
             (Inl e, st) \<Rightarrow> ((None, Some e), st)
           | (Inr _, st) \<Rightarrow>
               let temp = dir @ [''.opaquedrop-'' @ ceTempName W (csTick st) @ ''.part''] in
               (case output_err (on_disk W (\<lambda>E d. os_create_temp E d temp) st) of
                  (Inl e, st) \<Rightarrow> ((None, Some e), st)
                | (Inr _, st) \<Rightarrow>
                    (case save_upload c W ctx receipt dir m raw metadata opener temp st of
                       (Inl e, st) \<Rightarrow> ((None, Some e), remove_quietly W temp st)
                     | (Inr result, st) \<Rightarrow>
                         if \<not> acknowledge_it then ((Some result, None), remove_quietly W temp st)
                         else (case jsonRequest c W (collect_url c [''uploads'', rcUploadID receipt, ''ack'']) False st of
                           (Inl e, st) \<Rightarrow> ((Some result, Some (EAck e)), remove_quietly W temp st)
                         | (Inr _, st) \<Rightarrow> ((Some result, None), remove_quietly W temp st))))))"

section \<open>Choosing receipts\<close>

text \<open>
  The map \<open>byID\<close> keeps the last receipt of an identifier. An error names the identifier it is about.
\<close>

definition last_receipt :: "Receipt list \<Rightarrow> string \<Rightarrow> Receipt option" where
  "last_receipt receipts u = map_of (rev (map (\<lambda>r. (rcUploadID r, r)) receipts)) u"

fun select_ids :: "Receipt list \<Rightarrow> string list \<Rightarrow> string list \<Rightarrow> Receipt list \<times> cerror list" where
  "select_ids receipts seen [] = ([], [])"
| "select_ids receipts seen (u # us) =
     (if u \<in> set seen then select_ids receipts seen us
      else case select_ids receipts (u # seen) us of (selected, failures) \<Rightarrow>
        if \<not> ValidID u then (selected, EUpload u (ECheck ''invalid upload ID'') # failures)
        else case last_receipt receipts u of
          None \<Rightarrow> (selected, EUpload u (ECheck ''not a completed submission'') # failures)
        | Some r \<Rightarrow> (r # selected, failures))"

definition selectReceipts :: "Receipt list \<Rightarrow> string list \<Rightarrow> Receipt list \<times> cerror list" where
  "selectReceipts receipts uploadIDs =
     (if uploadIDs = [] then (filter (\<lambda>r. \<not> rcAcknowledged r) receipts, [])
      else select_ids receipts [] uploadIDs)"

section \<open>Collecting all\<close>

record CollectOptions =
  coAcknowledge :: bool
  coUploadIDs :: "string list"
  coFailFast :: bool
  coWaitTimeout :: duration
  coPollInterval :: duration

text \<open>\<open>errors.As(err, &outputErr)\<close>. A panic ends the program, so nothing follows it.\<close>

fun is_output_error :: "cerror \<Rightarrow> bool" where
  "is_output_error (EOutput _) = True"
| "is_output_error ENotADirectory = True"
| "is_output_error EProbe = True"
| "is_output_error ECollisions = True"
| "is_output_error _ = False"

fun collect_each :: "Client \<Rightarrow> client_env \<Rightarrow> ctx \<Rightarrow> path \<Rightarrow> CollectOptions \<Rightarrow> Receipt list
    \<Rightarrow> CollectResult list \<times> cerror list \<Rightarrow> client_state \<Rightarrow> (CollectResult list \<times> cerror list) \<times> client_state" where
  "collect_each c W ctx dir opts [] acc st = (acc, st)"
| "collect_each c W ctx dir opts (r # rs) acc st =
     (case CollectOne c W ctx r dir (coAcknowledge opts) st of ((result, err), st) \<Rightarrow>
        let results = fst acc @ (case result of None \<Rightarrow> [] | Some x \<Rightarrow> [x]) in
        case err of
          None \<Rightarrow> collect_each c W ctx dir opts rs (results, snd acc) st
        | Some e \<Rightarrow>
            let acc = (results, snd acc @ [EUpload (rcUploadID r) e]) in
            if coFailFast opts \<or> is_output_error e \<or> e = EPanic then (acc, st)
            else (case ctx_err ctx W st of
              (Some _, st) \<Rightarrow> (acc, st)
            | (None, st) \<Rightarrow> collect_each c W ctx dir opts rs acc st))"

text \<open>The results and the joined errors, or the error of waiting.\<close>

definition Collect :: "Client \<Rightarrow> client_env \<Rightarrow> ctx \<Rightarrow> ctx \<Rightarrow> path \<Rightarrow> CollectOptions \<Rightarrow> client_state
    \<Rightarrow> ((CollectResult list \<times> cerror list) \<times> client_state) option" where
  "Collect c W ctx wait dir opts st =
     (case WaitForReceipts c W ctx wait \<lparr>woUploadIDs = coUploadIDs opts, woIncludeAcknowledged = False,
          woTimeout = coWaitTimeout opts, woPollInterval = coPollInterval opts\<rparr> st of
        None \<Rightarrow> None
      | Some (Inl e, st) \<Rightarrow> Some (([], [e]), st)
      | Some (Inr receipts, st) \<Rightarrow>
          (case selectReceipts receipts (coUploadIDs opts) of (selected, failures) \<Rightarrow>
             Some (if coFailFast opts \<and> failures \<noteq> [] then (([], failures), st)
               else collect_each c W ctx dir opts selected ([], failures) st)))"

definition CollectAll :: "Client \<Rightarrow> client_env \<Rightarrow> ctx \<Rightarrow> ctx \<Rightarrow> path \<Rightarrow> bool \<Rightarrow> client_state
    \<Rightarrow> ((CollectResult list \<times> cerror list) \<times> client_state) option" where
  "CollectAll c W ctx wait dir acknowledge_it st = Collect c W ctx wait dir
     \<lparr>coAcknowledge = acknowledge_it, coUploadIDs = [], coFailFast = False, coWaitTimeout = 0, coPollInterval = 0\<rparr> st"

section \<open>Inspection\<close>

record InspectOptions =
  ioUploadIDs :: "string list"
  ioIncludeAcknowledged :: bool
  ioFailFast :: bool
  ioWaitTimeout :: duration
  ioPollInterval :: duration

record Inspection =
  isUploadID :: string
  isName :: string
  isPlainBytes :: int64
  isCompletedAt :: time
  isAcknowledged :: bool
  isMetadataVerified :: bool

definition selectInspectionReceipts :: "Receipt list \<Rightarrow> InspectOptions \<Rightarrow> Receipt list \<times> cerror list" where
  "selectInspectionReceipts receipts opts =
     (if ioUploadIDs opts \<noteq> [] then selectReceipts receipts (ioUploadIDs opts)
      else if ioIncludeAcknowledged opts then (receipts, [])
      else (filter (\<lambda>r. \<not> rcAcknowledged r) receipts, []))"

fun inspect_each :: "Client \<Rightarrow> client_env \<Rightarrow> ctx \<Rightarrow> InspectOptions \<Rightarrow> Receipt list \<Rightarrow> Inspection list \<times> cerror list
    \<Rightarrow> client_state \<Rightarrow> (Inspection list \<times> cerror list) \<times> client_state" where
  "inspect_each c W ctx opts [] acc st = (acc, st)"
| "inspect_each c W ctx opts (r # rs) acc st =
     (if rcRequestID r \<noteq> kfRequestID (clKey c) \<or> \<not> ValidID (rcUploadID r)
      then let acc = (fst acc, snd acc @ [ECheck ''inspect receipt does not match key file'']) in
        if ioFailFast opts then (acc, st) else inspect_each c W ctx opts rs acc st
      else let result = \<lparr>isUploadID = rcUploadID r, isName = ''<unreadable>'', isPlainBytes = rcPlainSize r,
             isCompletedAt = rcCompletedAt r, isAcknowledged = rcAcknowledged r, isMetadataVerified = False\<rparr> in
        case manifestMetadata c W ctx r st of
          (Inl e, st) \<Rightarrow>
            (case ctx_err ctx W st of
               (Some x, st) \<Rightarrow> ((fst acc, snd acc @ [ECtx x]), st)
             | (None, st) \<Rightarrow>
                 let acc = (fst acc @ [result], snd acc @ [EUpload (rcUploadID r) e]) in
                 if ioFailFast opts then (acc, st) else inspect_each c W ctx opts rs acc st)
        | (Inr (m, raw, metadata, opener), st) \<Rightarrow>
            (case SafeFilename (fmName metadata) of
               None \<Rightarrow> ((fst acc, snd acc @ [EPanic]), st)
             | Some name \<Rightarrow>
                 inspect_each c W ctx opts rs (fst acc @ [result\<lparr>isName := name, isMetadataVerified := True\<rparr>], snd acc) st))"

definition Inspect :: "Client \<Rightarrow> client_env \<Rightarrow> ctx \<Rightarrow> ctx \<Rightarrow> InspectOptions \<Rightarrow> client_state
    \<Rightarrow> ((Inspection list \<times> cerror list) \<times> client_state) option" where
  "Inspect c W ctx wait opts st =
     (case WaitForReceipts c W ctx wait \<lparr>woUploadIDs = ioUploadIDs opts, woIncludeAcknowledged = ioIncludeAcknowledged opts,
          woTimeout = ioWaitTimeout opts, woPollInterval = ioPollInterval opts\<rparr> st of
        None \<Rightarrow> None
      | Some (Inl e, st) \<Rightarrow> Some (([], [e]), st)
      | Some (Inr receipts, st) \<Rightarrow>
          (case selectInspectionReceipts receipts opts of (selected, failures) \<Rightarrow>
             Some (if ioFailFast opts \<and> failures \<noteq> [] then (([], failures), st)
               else inspect_each c W ctx opts selected ([], failures) st)))"

end
