(* ===== verification/CollectorRuns.thy ===== *)
theory CollectorRuns
  imports ClientRuns Collector
begin

text \<open>
  What collecting does to the recipient's file system: nothing that was there is changed or removed, the
  temporary file holds what was decrypted so far, and no \<open>POST\<close> is sent before the file is published.
\<close>

section \<open>Sparing what was there\<close>

text \<open>
  \<open>spares X d0 d\<close>: every entry of \<open>d0\<close> is in \<open>d\<close>, but for the places in \<open>X\<close>.
\<close>

definition spares :: "path set \<Rightarrow> disk \<Rightarrow> disk \<Rightarrow> bool" where
  "spares X d0 d \<longleftrightarrow> (\<forall>q n. q \<notin> X \<longrightarrow> get d0 q = Some n \<longrightarrow> get d q = Some n)"

definition free :: "path set \<Rightarrow> disk \<Rightarrow> path \<Rightarrow> bool" where
  "free X d0 p \<longleftrightarrow> p \<in> X \<or> get d0 p = None"

definition gets_only :: "client_state \<Rightarrow> client_state \<Rightarrow> bool" where
  "gets_only st st' \<longleftrightarrow> (\<exists>gets. csSent st' = csSent st @ gets \<and> list_all is_get_call gets)"

definition good :: "path set \<Rightarrow> disk \<Rightarrow> client_state \<Rightarrow> client_state \<Rightarrow> bool" where
  "good X d0 st st' \<longleftrightarrow> spares X d0 (csDisk st') \<and> gets_only st st'"

lemma spares_refl [simp]: "spares X d d"
  by (simp add: spares_def)

lemma free_absent: "spares X d0 d \<Longrightarrow> get d p = None \<Longrightarrow> free X d0 p"
  unfolding spares_def free_def by (metis not_None_eq)

lemma spares_put: "spares X d0 d \<Longrightarrow> free X d0 p \<Longrightarrow> spares X d0 (put d p n)"
  by (auto simp: spares_def free_def)

lemma spares_del: "spares X d0 d \<Longrightarrow> free X d0 p \<Longrightarrow> spares X d0 (del d (\<lambda>q. q = p))"
  by (auto simp: spares_def free_def)

lemma spares_mkdir_all: "spares X d0 d \<Longrightarrow> spares X d0 (snd (os_mkdir_all E d p))"
  unfolding spares_def by (metis get_mkdir_all option.distinct(1))

lemma spares_create_temp: "spares X d0 d \<Longrightarrow> spares X d0 (snd (os_create_temp E d p))"
  by (auto simp: os_create_temp_def intro: spares_put free_absent)

lemma spares_append: "spares X d0 d \<Longrightarrow> free X d0 p \<Longrightarrow> spares X d0 (snd (os_append E d p b))"
  by (auto simp: os_append_def intro: spares_put split: option.split node.split content.split)

lemma spares_sync: "spares X d0 d \<Longrightarrow> spares X d0 (snd (os_sync E d p))"
  by (simp add: os_sync_def)

lemma spares_link: "spares X d0 d \<Longrightarrow> spares X d0 (snd (os_link E d p q))"
  by (auto simp: os_link_def intro: spares_put free_absent split: option.split)

lemma spares_remove: "spares X d0 d \<Longrightarrow> free X d0 p \<Longrightarrow> spares X d0 (snd (os_remove E d p))"
  by (auto simp: os_remove_def intro: spares_del)

lemmas spares_intros = spares_mkdir_all spares_create_temp spares_append spares_sync spares_link spares_remove

lemma gets_only_refl [simp]: "gets_only st st"
  by (simp add: gets_only_def)

lemma gets_only_trans: "gets_only st st1 \<Longrightarrow> gets_only st1 st2 \<Longrightarrow> gets_only st st2"
  unfolding gets_only_def by (fastforce simp: list_all_append)

lemma good_trans: "good X d0 st st1 \<Longrightarrow> good X d0 st1 st2 \<Longrightarrow> good X d0 st st2"
  unfolding good_def using gets_only_trans by blast

lemma good_refl: "spares X d0 (csDisk st) \<Longrightarrow> good X d0 st st"
  by (simp add: good_def)

lemma quiet_good: "quiet st st' \<Longrightarrow> spares X d0 (csDisk st) \<Longrightarrow> good X d0 st st'"
  by (auto simp: quiet_def good_def gets_only_def)

lemma good_and_then:
  assumes "good X d0 st (snd r)"
    and "\<And>x st1. r = (Inr x, st1) \<Longrightarrow> spares X d0 (csDisk st1) \<Longrightarrow> good X d0 st1 (snd (f x st1))"
  shows "good X d0 st (snd (and_then r f))"
proof (cases r)
  case (Pair a st1)
  show ?thesis
  proof (cases a)
    case (Inr x)
    have "spares X d0 (csDisk st1)" using assms(1) Pair by (simp add: good_def)
    then show ?thesis using assms Pair Inr good_trans by fastforce
  qed (use assms(1) Pair in simp)
qed

lemma snd_output_err [simp]: "snd (output_err r) = snd r"
  by (auto simp: output_err_def split: prod.split sum.split)

lemma on_disk_state:
  "csDisk (snd (on_disk W f st)) = snd (f (ceOS W (csTick st)) (csDisk st))"
  "csSent (snd (on_disk W f st)) = csSent st"
  by (auto simp: on_disk_def split: prod.split)

lemma good_on_disk:
  "(\<And>E. spares X d0 (snd (f E (csDisk st)))) \<Longrightarrow> good X d0 st (snd (on_disk W f st))"
  by (simp add: good_def on_disk_state gets_only_def)

lemma on_disk_Inr:
  "output_err (on_disk W f st) = (Inr x, st') \<longleftrightarrow>
     (\<exists>d. f (ceOS W (csTick st)) (csDisk st) = (Inr x, d) \<and> st' = (advance W st)\<lparr>csDisk := d\<rparr>)"
  by (auto simp: output_err_def on_disk_def split: prod.split sum.split)

lemma check_ctx_good: "spares X d0 (csDisk st) \<Longrightarrow> good X d0 st (snd (check_ctx ctx W st))"
  by (simp add: quiet_good)

lemma wrap_opener_good: "spares X d0 (csDisk st) \<Longrightarrow> good X d0 st (snd (wrap_opener r st))"
  by (simp add: wrap_opener_def good_refl split: sum.split)

lemma bytesRequest_good: "spares X d0 (csDisk st) \<Longrightarrow> good X d0 st (snd (bytesRequest c W ctx url limit st))"
  by (simp add: quiet_good)

lemma remove_quietly_good:
  "spares X d0 (csDisk st) \<Longrightarrow> free X d0 p \<Longrightarrow> good X d0 st (remove_quietly W p st)"
  unfolding remove_quietly_def by (rule good_on_disk) (rule spares_remove)

lemma remove_probe_good:
  assumes "good X d0 st (snd r)" and "free X d0 p"
  shows "good X d0 st (snd (remove_probe W p r))"
proof -
  obtain res st1 where r: "r = (res, st1)" by fastforce
  have "good X d0 st1 (snd (on_disk W (\<lambda>E d. os_remove E d p) st1))"
    using assms r by (intro good_on_disk spares_remove) (simp_all add: good_def)
  moreover have "snd (remove_probe W p r) = snd (on_disk W (\<lambda>E d. os_remove E d p) st1)"
    by (auto simp: remove_probe_def r split: prod.split sum.split)
  ultimately show ?thesis using assms(1) r good_trans by auto
qed

section \<open>Preparing the directory\<close>

text \<open>
  The place where the probe of \<open>preflightOutputPublication\<close> is linked. The deferred removal takes it away
  even when the link failed because something was there already.
\<close>

definition probe_links :: "path \<Rightarrow> path set" where
  "probe_links dir = {dir @ [''.opaquedrop-publish-probe-'' @ x @ ''.part.link''] |x. True}"

lemma create_temp_free:
  "output_err (on_disk W (\<lambda>E d. os_create_temp E d p) st) = (Inr x, st1) \<Longrightarrow> spares X d0 (csDisk st) \<Longrightarrow> free X d0 p"
  by (auto simp: on_disk_Inr os_create_temp_def split: if_splits intro: free_absent)

lemma on_disk_good:
  "(\<And>E. spares X d0 (snd (f E (csDisk st)))) \<Longrightarrow> good X d0 st (snd (output_err (on_disk W f st)))"
  by (simp add: good_on_disk)

lemma preflight_good:
  assumes "spares X d0 (csDisk st)" and "probe_links dir \<subseteq> X"
  shows "good X d0 st (snd (preflightOutputPublication W dir st))"
proof -
  define name where "name = ''.opaquedrop-publish-probe-'' @ ceTempName W (csTick st) @ ''.part''"
  have "dir @ [name @ ''.link''] \<in> probe_links dir" by (auto simp: probe_links_def name_def)
  then have l: "free X d0 (dir @ [name @ ''.link''])" using assms(2) by (auto simp: free_def)
  show ?thesis
    unfolding preflightOutputPublication_def Let_def name_def [symmetric]
  proof (rule good_and_then, rule on_disk_good, rule spares_create_temp, rule assms(1), goal_cases)
    case (1 x st1)
    have p: "free X d0 (dir @ [name])" by (rule create_temp_free [OF 1(1) assms(1)])
    show ?case
      by (intro remove_probe_good good_and_then on_disk_good) (simp_all add: 1(2) p l spares_intros good_refl)
  qed
qed

lemma prepare_good:
  assumes "spares X d0 (csDisk st)" and "probe_links dir \<subseteq> X"
  shows "good X d0 st (snd (prepareOutputDir W dir st))"
  unfolding prepareOutputDir_def
  by (intro good_and_then on_disk_good) (auto simp: assms spares_mkdir_all good_refl preflight_good)

section \<open>Decrypting into the temporary file\<close>

lemma collect_chunks_good:
  assumes "spares X d0 (csDisk st)" and "free X d0 temp"
  shows "good X d0 st (snd (collect_chunks is c W ctx receipt m opener temp acc st))"
  using assms(1)
proof (induction "is" arbitrary: acc st)
  case Nil
  then show ?case by (simp add: good_refl)
next
  case (Cons i "is")
  show ?case
    unfolding collect_chunks.simps
    by (intro good_and_then bytesRequest_good check_ctx_good wrap_opener_good Cons.prems)
      (auto intro!: good_refl good_and_then on_disk_good spares_append assms(2) Cons.IH)
qed

text \<open>The contents of the temporary file survive what does not touch it.\<close>

lemma quiet_disk: "quiet st st' \<Longrightarrow> csDisk st' = csDisk st"
  by (simp add: quiet_def)

lemma bytesRequest_disk: "bytesRequest c W ctx url limit st = (r, st') \<Longrightarrow> csDisk st' = csDisk st"
  using quiet_disk [OF bytesRequest_quiet [of st c W ctx url limit]] by simp

lemma check_ctx_disk: "check_ctx ctx W st = (r, st') \<Longrightarrow> csDisk st' = csDisk st"
  using snd_check_ctx [of ctx W st] by simp

definition opens_to :: "client_env \<Rightarrow> Opener \<Rightarrow> int \<Rightarrow> string \<times> string \<Rightarrow> bool" where
  "opens_to W opener i x \<longleftrightarrow> Chunk (cePrimitives W) opener i (fst x) = Inr (snd x)"

lemma collect_chunks_ok:
  assumes "collect_chunks is c W ctx receipt m opener temp acc st = (Inr (digests, plain), st')"
    and "get (csDisk st) temp = Some (File (Raw (snd acc)))"
  shows "\<exists>xs. list_all2 (opens_to W opener) is xs \<and> digests = fst acc @ map (\<lambda>x. sha256 (fst x)) xs
    \<and> plain = snd acc @ concat (map snd xs) \<and> get (csDisk st') temp = Some (File (Raw plain))"
  using assms
proof (induction "is" arbitrary: acc st)
  case Nil
  then show ?case by (cases acc) (auto intro: exI [of _ "[]"])
next
  case (Cons i "is")
  obtain ct st1 where b: "bytesRequest c W ctx (collect_url c [''uploads'', rcUploadID receipt, ''chunks'', int_str i])
      (wrap64 (mfChunkSize m + 17)) st = (Inr ct, st1)"
    and k1: "and_then (check_ctx ctx W st1) (\<lambda>_ st. and_then (wrap_opener (Chunk (cePrimitives W) opener i ct) st) (\<lambda>plain st.
       if int (length plain) > mfPlainSize m - int (length (snd acc))
         \<or> i < mfChunkCount m - 1 \<and> int (length plain) \<noteq> mfChunkSize m
       then (Inl (ECheck ''decrypted chunk size does not match manifest''), st)
       else and_then (output_err (on_disk W (\<lambda>E d. os_append E d temp plain) st)) (\<lambda>_.
         collect_chunks is c W ctx receipt m opener temp (fst acc @ [sha256 ct], snd acc @ plain)))) = (Inr (digests, plain), st')"
    using Cons.prems(1) by (auto simp: and_then_ok)
  obtain st2 where c: "check_ctx ctx W st1 = (Inr (), st2)"
    and k2: "and_then (wrap_opener (Chunk (cePrimitives W) opener i ct) st2) (\<lambda>plain st.
       if int (length plain) > mfPlainSize m - int (length (snd acc))
         \<or> i < mfChunkCount m - 1 \<and> int (length plain) \<noteq> mfChunkSize m
       then (Inl (ECheck ''decrypted chunk size does not match manifest''), st)
       else and_then (output_err (on_disk W (\<lambda>E d. os_append E d temp plain) st)) (\<lambda>_.
         collect_chunks is c W ctx receipt m opener temp (fst acc @ [sha256 ct], snd acc @ plain))) = (Inr (digests, plain), st')"
    using k1 by (auto simp: and_then_ok)
  obtain pt where o: "Chunk (cePrimitives W) opener i ct = Inr pt"
    and k3: "and_then (output_err (on_disk W (\<lambda>E d. os_append E d temp pt) st2)) (\<lambda>_.
         collect_chunks is c W ctx receipt m opener temp (fst acc @ [sha256 ct], snd acc @ pt)) = (Inr (digests, plain), st')"
    using k2 by (auto simp: and_then_ok wrap_opener_def split: sum.splits if_splits)
  obtain d where a: "os_append (ceOS W (csTick st2)) (csDisk st2) temp pt = (Inr (), d)"
    and k4: "collect_chunks is c W ctx receipt m opener temp (fst acc @ [sha256 ct], snd acc @ pt) ((advance W st2)\<lparr>csDisk := d\<rparr>)
        = (Inr (digests, plain), st')"
    using k3 by (auto simp: and_then_ok on_disk_Inr)
  have "get (csDisk st2) temp = Some (File (Raw (snd acc)))"
    using Cons.prems(2) bytesRequest_disk [OF b] check_ctx_disk [OF c] by simp
  with a have "get d temp = Some (File (Raw (snd acc @ pt)))"
    by (auto simp: os_append_def split: if_splits)
  with Cons.IH [OF k4] obtain xs where "list_all2 (opens_to W opener) is xs" "digests = (fst acc @ [sha256 ct]) @ map (\<lambda>x. sha256 (fst x)) xs"
    "plain = (snd acc @ pt) @ concat (map snd xs)" "get (csDisk st') temp = Some (File (Raw plain))" by auto
  moreover have "opens_to W opener i (ct, pt)" using o by (simp add: opens_to_def)
  ultimately show ?case by (intro exI [of _ "(ct, pt) # xs"]) simp
qed

section \<open>Publishing\<close>

lemma link_disk: "on_disk W (\<lambda>E d. os_link E d p q) st = (Inl e, st') \<Longrightarrow> csDisk st' = csDisk st"
  by (auto simp: on_disk_def os_link_def split: prod.splits if_splits option.splits)

lemma publish_loop_good:
  assumes "spares X d0 (csDisk st)" and "free X d0 temp"
  shows "good X d0 st (snd (publish_loop n attempt W temp dir name st))"
  using assms(1)
proof (induction n arbitrary: attempt st)
  case 0
  then show ?case by (simp add: good_refl)
next
  case (Suc n)
  let ?cand = "dir @ [candidate_name name attempt]"
  obtain r st1 where l: "on_disk W (\<lambda>E d. os_link E d temp ?cand) st = (r, st1)" by fastforce
  have g: "good X d0 st st1"
    using good_on_disk [of X d0 "\<lambda>E d. os_link E d temp ?cand" st W] spares_link [OF Suc.prems] l by simp
  then have s: "spares X d0 (csDisk st1)" by (simp add: good_def)
  have "good X d0 st1 (snd (publish_loop n (Suc attempt) W temp dir name st1))" by (rule Suc.IH [OF s])
  then show ?case
    using l g good_trans [OF g] remove_quietly_good [OF s assms(2)]
    by (auto simp: Let_def split: sum.split os_error.split)
qed

lemma publish_loop_ok:
  assumes "publish_loop n attempt W temp dir name st = (Inr dest, st')" and "get (csDisk st) temp = Some b"
  shows "\<exists>k \<ge> attempt. dest = dir @ [candidate_name name k] \<and> get (csDisk st) dest = None \<and> get (csDisk st') dest = Some b
    \<and> dest \<noteq> temp"
  using assms
proof (induction n arbitrary: attempt st)
  case 0
  then show ?case by simp
next
  case (Suc n)
  let ?cand = "dir @ [candidate_name name attempt]"
  obtain r st1 where l: "on_disk W (\<lambda>E d. os_link E d temp ?cand) st = (r, st1)" by fastforce
  show ?case
  proof (cases r)
    case (Inl e)
    with Suc.prems(1) l have "e = Exist" by (cases e) (auto simp: Let_def)
    then have "publish_loop n (Suc attempt) W temp dir name st1 = (Inr dest, st')" using Suc.prems(1) l Inl by (simp add: Let_def)
    from Suc.IH [OF this] show ?thesis using link_disk [OF l [unfolded Inl]] Suc.prems(2) by (metis Suc_leD)
  next
    case (Inr u)
    then have st1: "csDisk st1 = put (csDisk st) ?cand b" and none: "get (csDisk st) ?cand = None"
      using l Suc.prems(2) by (auto simp: on_disk_def os_link_def split: prod.splits if_splits option.splits)
    have d: "dest = ?cand" "st' = remove_quietly W temp st1" using Suc.prems(1) l Inr by (auto simp: Let_def)
    have "temp \<noteq> ?cand" using none Suc.prems(2) by auto
    then have "get (csDisk st') ?cand = Some b"
      using st1 by (auto simp: d remove_quietly_def on_disk_state os_remove_def)
    then show ?thesis using none d \<open>temp \<noteq> ?cand\<close> by blast
  qed
qed

lemma candidate_safe:
  assumes "safe_component name"
  shows "candidate_name name k \<noteq> []" and "hd (candidate_name name k) \<noteq> CHR ''.''" and "slash \<notin> set (candidate_name name k)"
proof -
  have name: "name \<noteq> []" "hd name \<noteq> CHR ''.''" "slash \<notin> set name"
    using assms by (auto simp: safe_component_def space_or_dot_def list_all_iff reserved_char_def)
  obtain base where b: "name = base @ filepath_ext name" using filepath_ext_suffix [of name] by (auto simp: suffix_def)
  then have base: "trim_suffix (filepath_ext name) name = base"
    by (metis trim_suffix_append)
  have ne: "base \<noteq> []" using filepath_ext_shape [of name] b name(1,2) by auto
  have dig: "slash \<notin> set (nat_str k)" by (rule nat_str_no) (simp add: is_digit_def)
  have hd: "hd base = hd name" using b ne by (metis hd_append2)
  have sets: "set base \<subseteq> set name" "set (filepath_ext name) \<subseteq> set name"
    using b by (metis set_append sup_ge1, metis set_append sup_ge2)
  show "candidate_name name k \<noteq> []" "hd (candidate_name name k) \<noteq> CHR ''.''" "slash \<notin> set (candidate_name name k)"
    using name ne hd dig sets by (auto simp: candidate_name_def Let_def base)
qed

section \<open>One upload\<close>

lemma manifestMetadata_good:
  assumes "spares X d0 (csDisk st)"
  shows "good X d0 st (snd (manifestMetadata c W ctx receipt st))"
  unfolding manifestMetadata_def
  by (auto intro!: good_and_then bytesRequest_good wrap_opener_good good_refl assms split: option.split)

lemma wrap_opener_Inr: "wrap_opener r st = (Inr x, st') \<longleftrightarrow> r = Inr x \<and> st' = st"
  by (auto simp: wrap_opener_def split: sum.split)

lemma manifestMetadata_ok:
  assumes "manifestMetadata c W ctx receipt st = (Inr (m, raw, md, opener), st')"
  shows "ceManifest W raw = Some m" and "NewOpener (cePrimitives W) (clKey c) m = Inr opener"
    and "Metadata (cePrimitives W) opener (mfEncryptedMetadata m) = Inr md"
    and "mfRequestID m = kfRequestID (clKey c)" and "mfUploadID m = rcUploadID receipt"
    and "mfChunkCount m = rcChunkCount receipt" and "mfPlainSize m = rcPlainSize receipt"
    and "csDisk st' = csDisk st"
proof -
  let ?url = "collect_url c [''uploads'', rcUploadID receipt, ''manifest'']"
  let ?disagree = "\<lambda>m. mfRequestID m \<noteq> kfRequestID (clKey c) \<or> mfUploadID m \<noteq> rcUploadID receipt
              \<or> mfChunkCount m \<noteq> rcChunkCount receipt \<or> mfPlainSize m \<noteq> rcPlainSize receipt"
  have "\<not> (rcRequestID receipt \<noteq> kfRequestID (clKey c) \<or> \<not> ValidID (rcUploadID receipt))"
  proof
    assume "rcRequestID receipt \<noteq> kfRequestID (clKey c) \<or> \<not> ValidID (rcUploadID receipt)"
    then show False using assms unfolding manifestMetadata_def by (simp only: if_True prod.inject sum.distinct simp_thms)
  qed
  then obtain raw1 st1 where b: "bytesRequest c W ctx ?url (64 * 1024) st = (Inr raw1, st1)"
    and k: "(case ceManifest W raw1 of
          None \<Rightarrow> (Inl (ECheck ''server returned an invalid manifest''), st1)
        | Some m \<Rightarrow>
            if ?disagree m then (Inl (ECheck ''manifest and receipt disagree''), st1)
            else and_then (wrap_opener (NewOpener (cePrimitives W) (clKey c) m) st1) (\<lambda>opener st.
              and_then (wrap_opener (Metadata (cePrimitives W) opener (mfEncryptedMetadata m)) st) (\<lambda>metadata st.
                (Inr (m, raw1, metadata, opener), st)))) = (Inr (m, raw, md, opener), st')"
    using assms unfolding manifestMetadata_def by (simp only: if_False and_then_ok) blast
  show "ceManifest W raw = Some m" "NewOpener (cePrimitives W) (clKey c) m = Inr opener"
    "Metadata (cePrimitives W) opener (mfEncryptedMetadata m) = Inr md"
    "mfRequestID m = kfRequestID (clKey c)" "mfUploadID m = rcUploadID receipt"
    "mfChunkCount m = rcChunkCount receipt" "mfPlainSize m = rcPlainSize receipt" "csDisk st' = csDisk st"
    using k bytesRequest_disk [OF b]
    by (auto simp: and_then_ok wrap_opener_Inr split: option.splits if_split_asm)
qed

lemma save_upload_good:
  assumes "spares X d0 (csDisk st)" and "free X d0 temp"
  shows "good X d0 st (snd (save_upload c W ctx receipt dir m raw md opener temp st))"
  unfolding save_upload_def
  by (auto intro!: good_and_then good_refl collect_chunks_good check_ctx_good on_disk_good spares_sync assms
      publish_loop_good simp: Let_def publishOutput_def split: option.split prod.split)

text \<open>
  A manifest and pairs of ciphertext and plaintext that are the upload of a receipt, under a file name:
  everything opens with the key file, in its place, and the root of the receipt covers all of it.
\<close>

definition authentic :: "client_env \<Rightarrow> KeyFile \<Rightarrow> Receipt \<Rightarrow> string \<Rightarrow> (string \<times> string) list \<Rightarrow> string \<Rightarrow> bool" where
  "authentic W key receipt raw xs name \<longleftrightarrow>
     (\<exists>m opener md. ceManifest W raw = Some m \<and> NewOpener (cePrimitives W) key m = Inr opener
        \<and> Metadata (cePrimitives W) opener (mfEncryptedMetadata m) = Inr md \<and> SafeFilename (fmName md) = Some name
        \<and> mfUploadID m = rcUploadID receipt \<and> mfChunkCount m = rcChunkCount receipt
        \<and> list_all2 (opens_to W opener) (map int [0..<nat (mfChunkCount m)]) xs
        \<and> int (length (concat (map snd xs))) = rcPlainSize receipt
        \<and> equal_fold (ReceiptRoot raw (map (\<lambda>x. sha256 (fst x)) xs)) (rcReceiptSHA256 receipt))"

lemma save_upload_ok:
  assumes "save_upload c W ctx receipt dir m raw md opener temp st = (Inr result, st')"
    and "get (csDisk st) temp = Some (File (Raw []))" and s: "spares X d0 (csDisk st)" and f: "free X d0 temp"
  shows "\<exists>xs name k. list_all2 (opens_to W opener) (map int [0..<nat (mfChunkCount m)]) xs
    \<and> int (length (concat (map snd xs))) = mfPlainSize m \<and> SafeFilename (fmName md) = Some name
    \<and> equal_fold (ReceiptRoot raw (map (\<lambda>x. sha256 (fst x)) xs)) (rcReceiptSHA256 receipt)
    \<and> get (csDisk st') (dir @ [candidate_name name k]) = Some (File (Raw (concat (map snd xs))))
    \<and> free X d0 (dir @ [candidate_name name k]) \<and> dir @ [candidate_name name k] \<noteq> temp
    \<and> result = \<lparr>crUploadID = rcUploadID receipt, crPath = path_string (dir @ [candidate_name name k]),
        crPlainBytes = mfPlainSize m, crPlainSHA256 = sha256_hex (concat (map snd xs)),
        crReceiptSHA256 = ReceiptRoot raw (map (\<lambda>x. sha256 (fst x)) xs)\<rparr>"
proof -
  obtain digests plain st1 where cc: "collect_chunks (map int [0..<nat (mfChunkCount m)]) c W ctx receipt m opener temp ([], []) st
      = (Inr (digests, plain), st1)"
    and sz: "int (length plain) = mfPlainSize m" and eq: "equal_fold (ReceiptRoot raw digests) (rcReceiptSHA256 receipt)"
    and rest: "and_then (check_ctx ctx W st1) (\<lambda>_ st.
              and_then (output_err (on_disk W (\<lambda>E d. os_sync E d temp) st)) (\<lambda>_ st.
              and_then (output_err (on_disk W (\<lambda>E d. os_sync E d temp) st)) (\<lambda>_ st.
              and_then (check_ctx ctx W st) (\<lambda>_ st.
                case SafeFilename (fmName md) of
                  None \<Rightarrow> (Inl EPanic, st)
                | Some name \<Rightarrow>
                    and_then (publishOutput W temp dir name st) (\<lambda>destination st.
                      (Inr \<lparr>crUploadID = rcUploadID receipt, crPath = path_string destination,
                         crPlainBytes = int (length plain), crPlainSHA256 = sha256_hex plain,
                         crReceiptSHA256 = ReceiptRoot raw digests\<rparr>, st)))))) = (Inr result, st')"
    using assms(1) by (auto simp: save_upload_def and_then_ok Let_def split: if_splits)
  obtain xs where xs: "list_all2 (opens_to W opener) (map int [0..<nat (mfChunkCount m)]) xs"
    "digests = map (\<lambda>x. sha256 (fst x)) xs" "plain = concat (map snd xs)" "get (csDisk st1) temp = Some (File (Raw plain))"
    using collect_chunks_ok [OF cc] assms(2) by auto
  obtain st2 name dest where d2: "csDisk st2 = csDisk st1" and nm: "SafeFilename (fmName md) = Some name"
    and p: "publishOutput W temp dir name st2 = (Inr dest, st')"
    and res: "result = \<lparr>crUploadID = rcUploadID receipt, crPath = path_string dest,
       crPlainBytes = int (length plain), crPlainSHA256 = sha256_hex plain, crReceiptSHA256 = ReceiptRoot raw digests\<rparr>"
    using rest by (auto simp: and_then_ok on_disk_Inr os_sync_def split: option.splits if_splits dest!: check_ctx_disk)
  have "get (csDisk st2) temp = Some (File (Raw plain))" using d2 xs(4) by simp
  from publish_loop_ok [OF p [unfolded publishOutput_def] this] obtain k where
    k: "dest = dir @ [candidate_name name k]" "get (csDisk st') dest = Some (File (Raw plain))" "get (csDisk st2) dest = None"
      "dest \<noteq> temp" by auto
  have "spares X d0 (csDisk st1)"
    using collect_chunks_good [OF s f, of "map int [0..<nat (mfChunkCount m)]" c W ctx receipt m opener "([], [])"] cc
    by (simp add: good_def)
  then have "free X d0 dest" using k(3) d2 by (simp add: free_absent)
  then show ?thesis using xs nm sz eq res k by (intro exI [of _ xs] exI [of _ name] exI [of _ k]) simp
qed

lemma create_temp_file:
  "output_err (on_disk W (\<lambda>E d. os_create_temp E d p) st) = (Inr x, st1) \<Longrightarrow> get (csDisk st1) p = Some (File (Raw []))"
  by (auto simp: on_disk_Inr os_create_temp_def split: if_splits)

text \<open>The part of \<open>CollectOne\<close> before the acknowledgement.\<close>

definition saved :: "Client \<Rightarrow> client_env \<Rightarrow> ctx \<Rightarrow> Receipt \<Rightarrow> path \<Rightarrow> client_state \<Rightarrow> CollectResult \<Rightarrow> path \<Rightarrow> client_state \<Rightarrow> bool" where
  "saved c W ctx receipt dir st result temp st' \<longleftrightarrow>
     (\<exists>m raw md opener st1 st2 st3. manifestMetadata c W ctx receipt st = (Inr (m, raw, md, opener), st1)
        \<and> prepareOutputDir W dir st1 = (Inr (), st2)
        \<and> output_err (on_disk W (\<lambda>E d. os_create_temp E d temp) st2) = (Inr (), st3)
        \<and> save_upload c W ctx receipt dir m raw md opener temp st3 = (Inr result, st'))"

abbreviation ack_url :: "Client \<Rightarrow> Receipt \<Rightarrow> string" where
  "ack_url c receipt \<equiv> collect_url c [''uploads'', rcUploadID receipt, ''ack'']"

text \<open>Either nothing was saved and only \<open>GET\<close> requests were sent, or the file is saved and then acknowledged.\<close>

definition acknowledged_after :: "Client \<Rightarrow> client_env \<Rightarrow> Receipt \<Rightarrow> bool \<Rightarrow> path \<Rightarrow> client_state \<Rightarrow> cerror option \<Rightarrow> client_state \<Rightarrow> bool" where
  "acknowledged_after c W receipt acknowledge_it temp st err st' \<longleftrightarrow>
     (if acknowledge_it
      then \<exists>r st1. jsonRequest c W (ack_url c receipt) False st = (r, st1)
        \<and> err = (case r of Inl e \<Rightarrow> Some (EAck e) | Inr _ \<Rightarrow> None) \<and> st' = remove_quietly W temp st1
      else err = None \<and> st' = remove_quietly W temp st)"

lemma CollectOne_cases:
  assumes "CollectOne c W ctx receipt dir acknowledge_it st = ((res, err), st')"
    and s: "spares X d0 (csDisk st)" and x: "probe_links dir \<subseteq> X"
  shows "(res = None \<and> err \<noteq> None \<and> good X d0 st st')
    \<or> (\<exists>result temp st1. res = Some result \<and> saved c W ctx receipt dir st result temp st1 \<and> good X d0 st st1
        \<and> free X d0 temp \<and> acknowledged_after c W receipt acknowledge_it temp st1 err st')"
proof -
  obtain mm st1 where mm: "manifestMetadata c W ctx receipt st = (mm, st1)" by fastforce
  have g1: "good X d0 st st1" using manifestMetadata_good [OF s, of c W ctx receipt] mm by simp
  then have s1: "spares X d0 (csDisk st1)" by (simp add: good_def)
  show ?thesis
  proof (cases mm)
    case (Inl e)
    then show ?thesis using assms(1) mm g1 by (auto simp: CollectOne_def)
  next
    case (Inr q)
    obtain m raw md opener where q: "q = (m, raw, md, opener)" by (cases q) auto
    obtain pr st2 where pr: "prepareOutputDir W dir st1 = (pr, st2)" by fastforce
    have g2: "good X d0 st st2" using good_trans [OF g1 prepare_good [OF s1 x, of W]] pr by simp
    then have s2: "spares X d0 (csDisk st2)" by (simp add: good_def)
    show ?thesis
    proof (cases pr)
      case (Inl e)
      then show ?thesis using assms(1) mm Inr q pr g2 by (auto simp: CollectOne_def)
    next
      case pr2: (Inr u)
      define temp where "temp = dir @ [''.opaquedrop-'' @ ceTempName W (csTick st2) @ ''.part'']"
      obtain tr st3 where tr: "output_err (on_disk W (\<lambda>E d. os_create_temp E d temp) st2) = (tr, st3)" by fastforce
      have "good X d0 st2 st3"
        using on_disk_good [of X d0 "\<lambda>E d. os_create_temp E d temp" st2 W] spares_create_temp [OF s2] tr by simp
      with g2 have g3: "good X d0 st st3" by (rule good_trans)
      then have s3: "spares X d0 (csDisk st3)" by (simp add: good_def)
      show ?thesis
      proof (cases tr)
        case (Inl e)
        then show ?thesis using assms(1) mm Inr q pr pr2 tr g3 by (auto simp: CollectOne_def Let_def temp_def)
      next
        case tr2: (Inr v)
        have f: "free X d0 temp" by (rule create_temp_free [OF tr [unfolded tr2] s2])
        obtain sv st4 where sv: "save_upload c W ctx receipt dir m raw md opener temp st3 = (sv, st4)" by fastforce
        have g4: "good X d0 st st4" using good_trans [OF g3 save_upload_good [OF s3 f]] sv by (metis snd_conv)
        then have s4: "spares X d0 (csDisk st4)" by (simp add: good_def)
        note run = mm Inr q pr pr2 tr tr2 sv
        show ?thesis
        proof (cases sv)
          case (Inl e)
          then show ?thesis using assms(1) run good_trans [OF g4 remove_quietly_good [OF s4 f, of W]]
            by (auto simp: CollectOne_def Let_def temp_def)
        next
          case sv2: (Inr result)
          have "saved c W ctx receipt dir st result temp st4" using run sv2 by (simp add: saved_def)
          moreover have "res = Some result \<and> acknowledged_after c W receipt acknowledge_it temp st4 err st'"
            using assms(1) run sv2
            by (cases acknowledge_it) (auto simp: CollectOne_def Let_def temp_def acknowledged_after_def split: prod.splits sum.splits)
          ultimately show ?thesis using g4 f by blast
        qed
      qed
    qed
  qed
qed

text \<open>What was saved is authentic and lies under a name that was free.\<close>

definition file_saved :: "Receipt \<Rightarrow> string \<Rightarrow> (string \<times> string) list \<Rightarrow> path \<Rightarrow> CollectResult \<Rightarrow> disk \<Rightarrow> bool" where
  "file_saved receipt raw xs dest result d \<longleftrightarrow>
     get d dest = Some (File (Raw (concat (map snd xs))))
     \<and> result = \<lparr>crUploadID = rcUploadID receipt, crPath = path_string dest, crPlainBytes = rcPlainSize receipt,
         crPlainSHA256 = sha256_hex (concat (map snd xs)), crReceiptSHA256 = ReceiptRoot raw (map (\<lambda>x. sha256 (fst x)) xs)\<rparr>"

lemma saved_ok:
  assumes "saved c W ctx receipt dir st result temp st'" and s: "spares X d0 (csDisk st)" and x: "probe_links dir \<subseteq> X"
  obtains raw xs name k where "authentic W (clKey c) receipt raw xs name"
    and "file_saved receipt raw xs (dir @ [candidate_name name k]) result (csDisk st')"
    and "free X d0 (dir @ [candidate_name name k])" and "dir @ [candidate_name name k] \<noteq> temp"
proof -
  obtain m raw md opener st1 st2 st3 where run: "manifestMetadata c W ctx receipt st = (Inr (m, raw, md, opener), st1)"
      "prepareOutputDir W dir st1 = (Inr (), st2)"
      "output_err (on_disk W (\<lambda>E d. os_create_temp E d temp) st2) = (Inr (), st3)"
      "save_upload c W ctx receipt dir m raw md opener temp st3 = (Inr result, st')"
    using assms(1) unfolding saved_def by blast
  have s1: "spares X d0 (csDisk st1)" using manifestMetadata_good [OF s, of c W ctx receipt] run(1) by (simp add: good_def)
  have s2: "spares X d0 (csDisk st2)" using prepare_good [OF s1 x, of W] run(2) by (simp add: good_def)
  have s3: "spares X d0 (csDisk st3)"
    using on_disk_good [of X d0 "\<lambda>E d. os_create_temp E d temp" st2 W] spares_create_temp [OF s2] run(3) by (simp add: good_def)
  note ok = manifestMetadata_ok [OF run(1)]
  from save_upload_ok [OF run(4) create_temp_file [OF run(3)] s3 create_temp_free [OF run(3) s2]] obtain xs name k where
    xs: "list_all2 (opens_to W opener) (map int [0..<nat (mfChunkCount m)]) xs" "int (length (concat (map snd xs))) = mfPlainSize m"
      "SafeFilename (fmName md) = Some name"
      "equal_fold (ReceiptRoot raw (map (\<lambda>x. sha256 (fst x)) xs)) (rcReceiptSHA256 receipt)"
    and dest: "get (csDisk st') (dir @ [candidate_name name k]) = Some (File (Raw (concat (map snd xs))))"
      "free X d0 (dir @ [candidate_name name k])" "dir @ [candidate_name name k] \<noteq> temp"
    and res: "result = \<lparr>crUploadID = rcUploadID receipt, crPath = path_string (dir @ [candidate_name name k]),
        crPlainBytes = mfPlainSize m, crPlainSHA256 = sha256_hex (concat (map snd xs)),
        crReceiptSHA256 = ReceiptRoot raw (map (\<lambda>x. sha256 (fst x)) xs)\<rparr>"
    by blast
  show ?thesis
  proof (rule that)
    show "authentic W (clKey c) receipt raw xs name" unfolding authentic_def
      by (rule exI [of _ m], rule exI [of _ opener], rule exI [of _ md]) (use ok xs in simp)
    show "file_saved receipt raw xs (dir @ [candidate_name name k]) result (csDisk st')"
      using dest(1) res ok(7) by (simp add: file_saved_def)
  qed (rule dest)+
qed

section \<open>The acknowledgement\<close>

lemma jsonRequest_state:
  "csDisk (snd (jsonRequest c W url target st)) = csDisk st"
  "csSent (snd (jsonRequest c W url target st)) = csSent st
   \<or> csSent (snd (jsonRequest c W url target st)) = csSent st @ [Post_call url (kfCollectToken (clKey c))]"
  by (auto simp: jsonRequest_def send_def exchange_def split: option.split)

lemma jsonRequest_sent:
  "jsonRequest c W url target st = (Inr x, st') \<Longrightarrow> csSent st' = csSent st @ [Post_call url (kfCollectToken (clKey c))]"
  by (auto simp: jsonRequest_def send_def exchange_def split: option.splits if_splits)

lemma remove_quietly_state:
  "csSent (remove_quietly W p st) = csSent st" "q \<noteq> p \<Longrightarrow> get (csDisk (remove_quietly W p st)) q = get (csDisk st) q"
  by (auto simp: remove_quietly_def on_disk_state os_remove_def)

lemma acknowledged_state:
  assumes "acknowledged_after c W receipt acknowledge_it temp st err st'"
  obtains posts where "csSent st' = csSent st @ posts"
    and "posts = [] \<or> acknowledge_it \<and> posts = [Post_call (ack_url c receipt) (kfCollectToken (clKey c))]"
    and "acknowledge_it \<and> err = None \<longrightarrow> posts \<noteq> []" and "\<forall>q. q \<noteq> temp \<longrightarrow> get (csDisk st') q = get (csDisk st) q"
proof (cases acknowledge_it)
  case False
  then show ?thesis using assms that [of "[]"] by (simp add: acknowledged_after_def remove_quietly_state)
next
  case True
  then obtain r st1 where r: "jsonRequest c W (ack_url c receipt) False st = (r, st1)"
      "err = (case r of Inl e \<Rightarrow> Some (EAck e) | Inr _ \<Rightarrow> None)" "st' = remove_quietly W temp st1"
    using assms by (auto simp: acknowledged_after_def)
  let ?post = "Post_call (ack_url c receipt) (kfCollectToken (clKey c))"
  have d: "csDisk st1 = csDisk st" and s: "csSent st1 = csSent st \<or> csSent st1 = csSent st @ [?post]"
    using jsonRequest_state [of c W "ack_url c receipt" False st] r(1) by auto
  have "err = None \<Longrightarrow> csSent st1 = csSent st @ [?post]" using r by (cases r) (auto dest: jsonRequest_sent)
  with s d r(3) True show ?thesis
    by (elim disjE) (rule that [of "[]"], auto simp: remove_quietly_state, rule that [of "[?post]"], auto simp: remove_quietly_state)
qed

text \<open>All of it in one place.\<close>

lemma CollectOne_good:
  assumes "spares (probe_links dir) d0 (csDisk st)"
  shows "spares (probe_links dir) d0 (csDisk (snd (CollectOne c W ctx receipt dir acknowledge_it st)))"
proof -
  obtain res err st' where run: "CollectOne c W ctx receipt dir acknowledge_it st = ((res, err), st')"
    by (metis surj_pair)
  from CollectOne_cases [OF run assms subset_refl] show ?thesis
  proof (elim disjE exE conjE)
    assume "good (probe_links dir) d0 st st'"
    then show ?thesis by (simp add: run good_def)
  next
    fix temp st1
    assume g: "good (probe_links dir) d0 st st1" and f: "free (probe_links dir) d0 temp"
      and a: "acknowledged_after c W receipt acknowledge_it temp st1 err st'"
    have q: "get (csDisk st') q = get (csDisk st1) q" if "q \<noteq> temp" for q
      by (rule acknowledged_state [OF a]) (use that in blast)
    have "get (csDisk st') q = Some n" if "q \<notin> probe_links dir" "get d0 q = Some n" for q n
    proof -
      have "q \<noteq> temp" using that f by (auto simp: free_def)
      then show ?thesis using q [of q] g that by (simp add: good_def spares_def)
    qed
    then show ?thesis by (simp add: run spares_def)
  qed
qed

section \<open>Collecting and inspecting all\<close>

lemma snd_wrap_opener [simp]: "snd (wrap_opener r st) = st"
  by (simp add: wrap_opener_def split: sum.split)

context client_steps
begin

lemma metadata: "R st (snd (manifestMetadata c W ctx receipt st))"
  unfolding manifestMetadata_def
  by (auto intro!: and_then reads urls refl split: option.split)

lemma inspects_each: "R st (snd (inspect_each c W ctx opts rs acc st))"
proof (induction rs arbitrary: acc st)
  case (Cons r rs)
  obtain x st1 where m: "manifestMetadata c W ctx r st = (x, st1)" by fastforce
  have q: "R st st1" using metadata [of st ctx r] m by simp
  note steps = trans [OF q Cons.IH] trans [OF q trans [OF advances Cons.IH]] trans [OF q advances]
  show ?case
    by (cases x) (auto simp: m ctx_err_def Let_def Cons.IH q steps refl split: option.split)
qed (simp add: refl)

lemma inspects:
  assumes "Inspect c W ctx wait opts st = Some (out, st')"
  shows "R st st'"
  using assms waits trans [OF waits inspects_each]
  by (auto simp: Inspect_def split: option.splits sum.splits prod.splits if_splits) (metis snd_conv)+

end

text \<open>A relation that holds for the collection of one upload as well.\<close>

locale collecting = client_steps +
  fixes dir :: path and ack :: bool
  assumes one: "R st (snd (CollectOne c W ctx receipt dir ack st))"
begin

lemma each: "coAcknowledge opts = ack \<Longrightarrow> R st (snd (collect_each c W ctx dir opts rs acc st))"
proof (induction rs arbitrary: acc st)
  case (Cons r rs)
  obtain res err st1 where run: "CollectOne c W ctx r dir ack st = ((res, err), st1)"
    by (metis surj_pair)
  have q: "R st st1" using one [of st ctx r] run by simp
  note steps = trans [OF q Cons.IH] trans [OF q trans [OF advances Cons.IH]] trans [OF q advances]
  show ?case
    by (auto simp: run Cons.prems Let_def ctx_err_def q steps split: option.split)
qed (simp add: refl)

lemma collects:
  assumes "Collect c W ctx wait dir opts st = Some (out, st')" and "coAcknowledge opts = ack"
  shows "R st st'"
  using assms waits trans [OF waits each]
  by (auto simp: Collect_def split: option.splits sum.splits prod.splits if_splits) (metis snd_conv)+

end

interpretation sparing: collecting "\<lambda>st st'. spares (probe_links dir) (csDisk st) (csDisk st')" c W "\<lambda>_. True" dir ack
proof
  show "spares (probe_links dir) (csDisk st) (csDisk (snd (CollectOne c W ctx receipt dir ack st)))" for st ctx receipt
    by (rule CollectOne_good) simp
qed (auto simp: spares_def send_get_logs sleepContext_def check_ctx_def ctx_err_def Let_def split: option.splits)

text \<open>\<open>Inspect\<close> and \<open>Collect\<close> return.\<close>

lemma Inspect_quiet: "\<exists>out st'. Inspect c W ctx wait opts st = Some (out, st') \<and> quiet st st'"
proof -
  obtain r st1 where "WaitForReceipts c W ctx wait \<lparr>woUploadIDs = ioUploadIDs opts, woIncludeAcknowledged = ioIncludeAcknowledged opts,
      woTimeout = ioWaitTimeout opts, woPollInterval = ioPollInterval opts\<rparr> st = Some (r, st1)"
    using WaitForReceipts_returns [of c W ctx wait _ st] by blast
  then have "\<exists>x. Inspect c W ctx wait opts st = Some x" by (cases r) (simp_all add: Inspect_def split_def)
  then obtain out st' where "Inspect c W ctx wait opts st = Some (out, st')" by fastforce
  then show ?thesis using quiet.inspects by blast
qed

lemma Collect_returns: "\<exists>out st'. Collect c W ctx wait dir opts st = Some (out, st')"
proof -
  obtain r st1 where "WaitForReceipts c W ctx wait \<lparr>woUploadIDs = coUploadIDs opts, woIncludeAcknowledged = False,
      woTimeout = coWaitTimeout opts, woPollInterval = coPollInterval opts\<rparr> st = Some (r, st1)"
    using WaitForReceipts_returns [of c W ctx wait _ st] by blast
  then show ?thesis
    by (cases r) (simp_all add: Collect_def split_def)
qed

lemma Collect_spares:
  assumes "Collect c W ctx wait dir opts st = Some (out, st')"
  shows "spares (probe_links dir) (csDisk st) (csDisk st')"
  by (rule sparing.collects [OF assms refl])

end
