(* ===== verification/CollectorLive.thy ===== *)
theory CollectorLive
  imports CollectorRuns
begin

text \<open>
  Collecting succeeds: when the server answers with an authentic upload, the directory is usable and
  nothing fails, the file is saved and acknowledged.
\<close>

section \<open>A server that answers, a disk that works\<close>

definition calm :: "client_env \<Rightarrow> ctx \<Rightarrow> bool" where
  "calm W ctx \<longleftrightarrow> (\<forall>t. ctx t = None) \<and> (\<forall>t p q. \<not> envFault (ceOS W t) p q) \<and> (\<forall>t. ceSameFile W t)"

definition reply_with :: "string \<Rightarrow> reply" where
  "reply_with payload = \<lparr>ryStatus = 200, ryRetryAfter = [], ryLocation = [], ryContentLength = int (length payload),
     ryBytes = payload, ryBreaks = False\<rparr>"

definition answers :: "Client \<Rightarrow> client_env \<Rightarrow> string list \<Rightarrow> string \<Rightarrow> bool" where
  "answers c W parts payload \<longleftrightarrow> ceValidURL W (collect_url c parts)
     \<and> (\<forall>t. ceDo W t (Get_call (collect_url c parts) (kfCollectToken (clKey c))) = Some (reply_with payload))"

definition same_table :: "disk \<Rightarrow> disk \<Rightarrow> bool" where
  "same_table d d' \<longleftrightarrow> (\<forall>q. get d' q = get d q)"

text \<open>No name that the collector makes up for a temporary file is taken.\<close>

definition temp_free :: "path \<Rightarrow> disk \<Rightarrow> bool" where
  "temp_free dir d \<longleftrightarrow> (\<forall>q. prefix q dir \<longrightarrow> get d q = Some Dir) \<and> (\<forall>x. get d (dir @ [''.opaquedrop-'' @ x]) = None)"

lemma same_disk [simp]: "csDisk st = d \<Longrightarrow> st\<lparr>csDisk := d\<rparr> = st"
  by auto

lemma calm_simps:
  assumes "calm W ctx"
  shows "ctx t = None" "\<not> envFault (ceOS W t) p q" "ceSameFile W t"
  using assms by (simp_all add: calm_def)

lemma send_get_answer:
  assumes "ceDo W (csTick st) (Get_call url token) = Some r" and "\<not> redirect_status (ryStatus r)"
  obtains st' where "send_get W url token st = (Some r, st')" and "csDisk st' = csDisk st"
proof -
  obtain n where n: "max_redirects = Suc n" by (simp add: max_redirects_def)
  have "fst (send_get W url token st) = Some r" unfolding send_get_def n using assms by (simp add: exchange_def)
  then show thesis using that [of "snd (send_get W url token st)"] send_get_logs(3) [of W url token st]
    by (metis prod.collapse)
qed

lemma bytesRequest_answers:
  assumes "answers c W parts payload" and "int (length payload) \<le> limit" and "limit < 2 ^ 63 - 1"
  shows "\<exists>st'. bytesRequest c W ctx (collect_url c parts) limit st = (Inr payload, st') \<and> csDisk st' = csDisk st"
proof -
  have w: "wrap64 (limit + 1) = limit + 1" using assms(2,3) by (simp add: wrap64_id in_int64_def)
  obtain n where n: "read_attempts c = Suc n" by (simp add: read_attempts_def)
  have "\<not> redirect_status (ryStatus (reply_with payload))" by (simp add: redirect_status_def reply_with_def)
  then obtain st' where "send_get W (collect_url c parts) (kfCollectToken (clKey c)) st = (Some (reply_with payload), st')"
      "csDisk st' = csDisk st"
    using send_get_answer assms(1) unfolding answers_def by metis
  then have "bytesRequestOnce c W ctx (collect_url c parts) limit st = (Inr payload, st')" "csDisk st' = csDisk st"
    using assms w by (simp_all add: bytesRequestOnce_def answers_def reply_with_def read_limited_def)
  then show ?thesis by (simp add: bytesRequest_def n)
qed

lemma check_ctx_calm: "calm W ctx \<Longrightarrow> check_ctx ctx W st = (Inr (), advance W st)"
  by (simp add: check_ctx_def ctx_err_def calm_simps)

lemma mkdir_each_there: "(\<forall>q \<in> set qs. get d q = Some Dir) \<Longrightarrow> mkdir_each E d qs = (Inr (), d)"
  by (induction qs) auto

lemma prepare_calm:
  assumes "calm W ctx" and "temp_free dir (csDisk st)"
  shows "\<exists>st'. prepareOutputDir W dir st = (Inr (), st') \<and> same_table (csDisk st) (csDisk st')"
proof -
  have dirs: "get (csDisk st) dir = Some Dir" "\<forall>q \<in> set (prefixes dir). get (csDisk st) q = Some Dir"
    using assms(2) by (simp_all add: temp_free_def)
  have f: "\<not> envFault (ceOS W t) p q" "ceSameFile W t" for t p q using assms(1) by (simp_all add: calm_simps)
  let ?st = "advance W (advance W st)"
  have p: "prepareOutputDir W dir st = preflightOutputPublication W dir ?st"
    using dirs f by (simp add: prepareOutputDir_def on_disk_def output_err_def os_mkdir_all_def mkdir_each_there os_lstat_def)
  define name where "name = ''.opaquedrop-publish-probe-'' @ ceTempName W (csTick ?st) @ ''.part''"
  have none: "get (csDisk st) (dir @ [name]) = None" "get (csDisk st) (dir @ [name @ ''.link'']) = None"
    using assms(2) unfolding name_def temp_free_def by (metis append.assoc append_Cons append_Nil)+
  have "\<exists>st'. preflightOutputPublication W dir ?st = (Inr (), st') \<and> same_table (csDisk st) (csDisk st')"
    unfolding preflightOutputPublication_def Let_def name_def [symmetric]
    using dirs f none
    by (simp add: on_disk_def output_err_def remove_probe_def os_create_temp_def os_append_def os_sync_def os_link_def
        os_stat_def os_remove_def same_table_def)
  with p show ?thesis by simp
qed

section \<open>Chunks\<close>

definition chunk_served :: "Client \<Rightarrow> client_env \<Rightarrow> Receipt \<Rightarrow> Manifest \<Rightarrow> Opener \<Rightarrow> int \<Rightarrow> string \<times> string \<Rightarrow> bool" where
  "chunk_served c W receipt m opener i x \<longleftrightarrow> opens_to W opener i x
     \<and> answers c W [''uploads'', rcUploadID receipt, ''chunks'', int_str i] (fst x)
     \<and> int (length (fst x)) \<le> mfChunkSize m + 17
     \<and> (i < mfChunkCount m - 1 \<longrightarrow> int (length (snd x)) = mfChunkSize m)"

lemma collect_chunks_calm:
  assumes "calm W ctx" and "mfChunkSize m < 2 ^ 62"
    and "list_all2 (chunk_served c W receipt m opener) is xs"
    and "int (length (snd acc @ concat (map snd xs))) \<le> mfPlainSize m"
    and "get (csDisk st) temp = Some (File (Raw (snd acc)))"
  shows "\<exists>st'. collect_chunks is c W ctx receipt m opener temp acc st
      = (Inr (fst acc @ map (\<lambda>x. sha256 (fst x)) xs, snd acc @ concat (map snd xs)), st')
    \<and> (\<forall>q. get (csDisk st') q = (if q = temp then Some (File (Raw (snd acc @ concat (map snd xs)))) else get (csDisk st) q))"
  using assms(3-)
proof (induction "is" xs arbitrary: acc st rule: list_all2_induct)
  case Nil
  then show ?case by auto
next
  case (Cons i "is" x xs)
  let ?url = "collect_url c [''uploads'', rcUploadID receipt, ''chunks'', int_str i]"
  have x: "Chunk (cePrimitives W) opener i (fst x) = Inr (snd x)"
    "answers c W [''uploads'', rcUploadID receipt, ''chunks'', int_str i] (fst x)"
    "int (length (fst x)) \<le> mfChunkSize m + 17" "\<not> (i < mfChunkCount m - 1 \<and> int (length (snd x)) \<noteq> mfChunkSize m)"
    using Cons.hyps(1) by (auto simp: chunk_served_def opens_to_def)
  have w: "wrap64 (mfChunkSize m + 17) = mfChunkSize m + 17" using x(3) assms(2) by (simp add: wrap64_id in_int64_def)
  obtain st1 where b: "bytesRequest c W ctx ?url (mfChunkSize m + 17) st = (Inr (fst x), st1)" "csDisk st1 = csDisk st"
    using bytesRequest_answers [OF x(2,3), of ctx st] assms(2) by auto
  let ?acc = "(fst acc @ [sha256 (fst x)], snd acc @ snd x)"
  let ?d = "put (csDisk st) temp (File (Raw (snd acc @ snd x)))"
  let ?st = "(advance W (advance W st1))\<lparr>csDisk := ?d\<rparr>"
  have "output_err (on_disk W (\<lambda>E d. os_append E d temp (snd x)) (advance W st1)) = (Inr (), ?st)"
    using Cons.prems(2) b(2) assms(1) by (simp add: on_disk_Inr os_append_def calm_simps)
  then have run: "collect_chunks (i # is) c W ctx receipt m opener temp acc st
      = collect_chunks is c W ctx receipt m opener temp ?acc ?st"
    using b(1) w x(1,4) check_ctx_calm [OF assms(1), of st1] Cons.prems(1)
    by (auto simp: wrap_opener_def)
  have "int (length (snd ?acc @ concat (map snd xs))) \<le> mfPlainSize m" using Cons.prems(1) by simp
  from Cons.IH [OF this, of ?st] obtain st' where
    "collect_chunks is c W ctx receipt m opener temp ?acc ?st
      = (Inr (fst ?acc @ map (\<lambda>x. sha256 (fst x)) xs, snd ?acc @ concat (map snd xs)), st')"
    "\<forall>q. get (csDisk st') q = (if q = temp then Some (File (Raw (snd ?acc @ concat (map snd xs)))) else get ?d q)"
    by auto
  with run show ?case by (intro exI [of _ st']) auto
qed

section \<open>Publishing\<close>

lemma publish_calm:
  assumes "calm W ctx" and "get (csDisk st) temp = Some (File b)" and "get (csDisk st) dir = Some Dir"
    and "attempt \<le> k" and "k < attempt + n" and "get (csDisk st) (dir @ [candidate_name name k]) = None"
  shows "\<exists>dest st'. publish_loop n attempt W temp dir name st = (Inr dest, st')"
  using assms(2-)
proof (induction n arbitrary: attempt st)
  case 0
  then show ?case by simp
next
  case (Suc n)
  let ?cand = "dir @ [candidate_name name attempt]"
  show ?case
  proof (cases "get (csDisk st) ?cand")
    case None
    then show ?thesis using Suc.prems assms(1)
      by (auto simp: Let_def on_disk_def os_link_def calm_simps)
  next
    case (Some node)
    then have "attempt \<noteq> k" using Suc.prems by auto
    then have "\<exists>dest st'. publish_loop n (Suc attempt) W temp dir name (advance W st) = (Inr dest, st')"
      using Suc.prems by (intro Suc.IH) simp_all
    then show ?thesis using Some assms(1) by (simp add: Let_def on_disk_def os_link_def calm_simps)
  qed
qed

section \<open>One upload\<close>

text \<open>
  What the recipient needs for one receipt: the manifest and the chunks, as decrypted by the opener,
  with the sizes of the manifest and the root of the receipt; a free name; an acknowledgement that is taken.
\<close>

definition deliverable :: "Client \<Rightarrow> client_env \<Rightarrow> Receipt \<Rightarrow> path \<Rightarrow> disk \<Rightarrow> string \<Rightarrow> (string \<times> string) list \<Rightarrow> string \<Rightarrow> bool" where
  "deliverable c W receipt dir d raw xs name \<longleftrightarrow>
     (\<exists>m opener md k. rcRequestID receipt = kfRequestID (clKey c) \<and> ValidID (rcUploadID receipt)
        \<and> answers c W [''uploads'', rcUploadID receipt, ''manifest''] raw \<and> length raw \<le> 64 * 1024
        \<and> ceManifest W raw = Some m \<and> mfRequestID m = kfRequestID (clKey c) \<and> mfUploadID m = rcUploadID receipt
        \<and> mfChunkCount m = rcChunkCount receipt \<and> mfPlainSize m = rcPlainSize receipt
        \<and> 0 \<le> mfChunkCount m \<and> mfChunkSize m < 2 ^ 62
        \<and> NewOpener (cePrimitives W) (clKey c) m = Inr opener
        \<and> Metadata (cePrimitives W) opener (mfEncryptedMetadata m) = Inr md
        \<and> valid_utf8 (fmName md) \<and> SafeFilename (fmName md) = Some name
        \<and> list_all2 (chunk_served c W receipt m opener) (map int [0..<nat (mfChunkCount m)]) xs
        \<and> int (length (concat (map snd xs))) = mfPlainSize m
        \<and> equal_fold (ReceiptRoot raw (map (\<lambda>x. sha256 (fst x)) xs)) (rcReceiptSHA256 receipt)
        \<and> temp_free dir d \<and> 1 \<le> k \<and> k \<le> maxNameCollisions \<and> get d (dir @ [candidate_name name k]) = None)"

lemma manifestMetadata_answers:
  assumes "rcRequestID receipt = kfRequestID (clKey c)" and "ValidID (rcUploadID receipt)"
    and "answers c W [''uploads'', rcUploadID receipt, ''manifest''] raw" and "length raw \<le> 64 * 1024"
    and "ceManifest W raw = Some m" and "mfRequestID m = kfRequestID (clKey c)" and "mfUploadID m = rcUploadID receipt"
    and "mfChunkCount m = rcChunkCount receipt" and "mfPlainSize m = rcPlainSize receipt"
    and "NewOpener (cePrimitives W) (clKey c) m = Inr opener"
    and "Metadata (cePrimitives W) opener (mfEncryptedMetadata m) = Inr md"
  shows "\<exists>st'. manifestMetadata c W ctx receipt st = (Inr (m, raw, md, opener), st') \<and> csDisk st' = csDisk st"
proof -
  obtain st1 where "bytesRequest c W ctx (collect_url c [''uploads'', rcUploadID receipt, ''manifest'']) (64 * 1024) st = (Inr raw, st1)"
    "csDisk st1 = csDisk st"
    using bytesRequest_answers [OF assms(3), of "64 * 1024" ctx st] assms(4) by auto
  then show ?thesis using assms by (simp add: manifestMetadata_def wrap_opener_def)
qed

lemma save_upload_calm:
  assumes "calm W ctx" and "0 \<le> mfChunkCount m" and "mfChunkSize m < 2 ^ 62"
    and "list_all2 (chunk_served c W receipt m opener) (map int [0..<nat (mfChunkCount m)]) xs"
    and "int (length (concat (map snd xs))) = mfPlainSize m"
    and "equal_fold (ReceiptRoot raw (map (\<lambda>x. sha256 (fst x)) xs)) (rcReceiptSHA256 receipt)"
    and "SafeFilename (fmName md) = Some name" and "get (csDisk st) temp = Some (File (Raw []))"
    and "get (csDisk st) dir = Some Dir" and "1 \<le> k" and "k \<le> maxNameCollisions"
    and "get (csDisk st) (dir @ [candidate_name name k]) = None"
  shows "\<exists>j st'. save_upload c W ctx receipt dir m raw md opener temp st
      = (Inr \<lparr>crUploadID = rcUploadID receipt, crPath = path_string (dir @ [candidate_name name j]), crPlainBytes = mfPlainSize m,
          crPlainSHA256 = sha256_hex (concat (map snd xs)), crReceiptSHA256 = ReceiptRoot raw (map (\<lambda>x. sha256 (fst x)) xs)\<rparr>, st')
    \<and> get (csDisk st') (dir @ [candidate_name name j]) = Some (File (Raw (concat (map snd xs)))) \<and> dir @ [candidate_name name j] \<noteq> temp"
proof -
  obtain st1 where cc: "collect_chunks (map int [0..<nat (mfChunkCount m)]) c W ctx receipt m opener temp ([], []) st
      = (Inr (map (\<lambda>x. sha256 (fst x)) xs, concat (map snd xs)), st1)"
    and d1: "\<forall>q. get (csDisk st1) q = (if q = temp then Some (File (Raw (concat (map snd xs)))) else get (csDisk st) q)"
    using collect_chunks_calm [OF assms(1,3,4), of "([], [])" st temp] assms(5,8) by auto
  have ne: "temp \<noteq> dir @ [candidate_name name k]" "temp \<noteq> dir" using assms(8,9,12) by auto
  let ?st = "advance W (advance W (advance W (advance W st1)))"
  have "\<exists>dest st'. publish_loop maxNameCollisions 1 W temp dir name ?st = (Inr dest, st')"
    by (rule publish_calm [OF assms(1), where k = k]) (use d1 assms(9-12) ne in auto)
  then obtain dest st' where p: "publish_loop maxNameCollisions 1 W temp dir name ?st = (Inr dest, st')" by blast
  have "get (csDisk ?st) temp = Some (File (Raw (concat (map snd xs))))" using d1 by simp
  from publish_loop_ok [OF p this] obtain j where j: "dest = dir @ [candidate_name name j]"
      "get (csDisk st') dest = Some (File (Raw (concat (map snd xs))))" "dest \<noteq> temp" by auto
  have "save_upload c W ctx receipt dir m raw md opener temp st
      = (Inr \<lparr>crUploadID = rcUploadID receipt, crPath = path_string dest, crPlainBytes = mfPlainSize m,
          crPlainSHA256 = sha256_hex (concat (map snd xs)), crReceiptSHA256 = ReceiptRoot raw (map (\<lambda>x. sha256 (fst x)) xs)\<rparr>, st')"
    using cc p assms(2,5-7) check_ctx_calm [OF assms(1)] assms(1)
    by (simp add: save_upload_def Let_def on_disk_def output_err_def os_sync_def calm_simps publishOutput_def)
  then show ?thesis using j by blast
qed

lemma CollectOne_calm:
  assumes calm: "calm W ctx" and del: "deliverable c W receipt dir (csDisk st) raw xs name"
    and ack: "ceValidURL W (ack_url c receipt)"
      "\<forall>t. \<exists>r. ceDo W t (Post_call (ack_url c receipt) (kfCollectToken (clKey c))) = Some r \<and> 200 \<le> ryStatus r \<and> ryStatus r < 300"
  shows "\<exists>result st' j. CollectOne c W ctx receipt dir True st = ((Some result, None), st')
    \<and> file_saved receipt raw xs (dir @ [candidate_name name j]) result (csDisk st')"
proof -
  obtain m opener md k where m: "rcRequestID receipt = kfRequestID (clKey c)" "ValidID (rcUploadID receipt)"
      "answers c W [''uploads'', rcUploadID receipt, ''manifest''] raw" "length raw \<le> 64 * 1024"
      "ceManifest W raw = Some m" "mfRequestID m = kfRequestID (clKey c)" "mfUploadID m = rcUploadID receipt"
      "mfChunkCount m = rcChunkCount receipt" "mfPlainSize m = rcPlainSize receipt"
      "NewOpener (cePrimitives W) (clKey c) m = Inr opener" "Metadata (cePrimitives W) opener (mfEncryptedMetadata m) = Inr md"
    and ch: "0 \<le> mfChunkCount m" "mfChunkSize m < 2 ^ 62"
      "list_all2 (chunk_served c W receipt m opener) (map int [0..<nat (mfChunkCount m)]) xs"
      "int (length (concat (map snd xs))) = mfPlainSize m"
      "equal_fold (ReceiptRoot raw (map (\<lambda>x. sha256 (fst x)) xs)) (rcReceiptSHA256 receipt)" "SafeFilename (fmName md) = Some name"
    and u: "valid_utf8 (fmName md)"
    and dir: "temp_free dir (csDisk st)"
    and k: "1 \<le> k" "k \<le> maxNameCollisions" "get (csDisk st) (dir @ [candidate_name name k]) = None"
    using del unfolding deliverable_def by blast
  obtain st1 where s1: "manifestMetadata c W ctx receipt st = (Inr (m, raw, md, opener), st1)" "csDisk st1 = csDisk st"
    using manifestMetadata_answers [OF m, of ctx st] by blast
  obtain st2 where s2: "prepareOutputDir W dir st1 = (Inr (), st2)" "same_table (csDisk st1) (csDisk st2)"
    using prepare_calm [OF calm, of dir st1] dir s1(2) by auto
  define temp where "temp = dir @ [''.opaquedrop-'' @ ceTempName W (csTick st2) @ ''.part'']"
  have t2: "get (csDisk st2) temp = None" "get (csDisk st2) dir = Some Dir"
    using s2(2) s1(2) dir by (simp_all add: same_table_def temp_free_def temp_def)
  let ?st3 = "(advance W st2)\<lparr>csDisk := put (csDisk st2) temp (File (Raw []))\<rparr>"
  have s3: "output_err (on_disk W (\<lambda>E d. os_create_temp E d temp) st2) = (Inr (), ?st3)"
    using t2 calm by (simp add: on_disk_Inr os_create_temp_def calm_simps temp_def)
  have "safe_component name" using SafeFilename_safe [OF u] ch(6) by auto
  then have ne: "dir @ [candidate_name name k] \<noteq> temp" using candidate_safe(2) [of name k] by (auto simp: temp_def)
  have "get (csDisk ?st3) (dir @ [candidate_name name k]) = None" using k(3) ne s1(2) s2(2) by (simp add: same_table_def)
  moreover have "get (csDisk ?st3) dir = Some Dir" "get (csDisk ?st3) temp = Some (File (Raw []))"
    using t2 by (auto simp: temp_def)
  ultimately obtain j st4 where s4: "save_upload c W ctx receipt dir m raw md opener temp ?st3
      = (Inr \<lparr>crUploadID = rcUploadID receipt, crPath = path_string (dir @ [candidate_name name j]), crPlainBytes = mfPlainSize m,
          crPlainSHA256 = sha256_hex (concat (map snd xs)), crReceiptSHA256 = ReceiptRoot raw (map (\<lambda>x. sha256 (fst x)) xs)\<rparr>, st4)"
    and f4: "get (csDisk st4) (dir @ [candidate_name name j]) = Some (File (Raw (concat (map snd xs))))" "dir @ [candidate_name name j] \<noteq> temp"
    using save_upload_calm [OF calm ch, of ?st3 temp dir k] k by blast
  obtain r where r: "ceDo W (csTick st4) (Post_call (ack_url c receipt) (kfCollectToken (clKey c))) = Some r" "200 \<le> ryStatus r"
    "ryStatus r < 300" using ack(2) by blast
  obtain st5 where s5: "jsonRequest c W (ack_url c receipt) False st4 = (Inr None, st5)" "csDisk st5 = csDisk st4"
    using r ack(1) by (simp add: jsonRequest_def send_def exchange_def)
  have "get (csDisk (remove_quietly W temp st5)) (dir @ [candidate_name name j]) = Some (File (Raw (concat (map snd xs))))"
    using f4 s5(2) by (simp add: remove_quietly_state)
  moreover have "CollectOne c W ctx receipt dir True st
      = ((Some \<lparr>crUploadID = rcUploadID receipt, crPath = path_string (dir @ [candidate_name name j]), crPlainBytes = mfPlainSize m,
          crPlainSHA256 = sha256_hex (concat (map snd xs)), crReceiptSHA256 = ReceiptRoot raw (map (\<lambda>x. sha256 (fst x)) xs)\<rparr>, None),
         remove_quietly W temp st5)"
    using s1(1) s2(1) s3 s4 s5(1) by (simp add: CollectOne_def Let_def temp_def)
  ultimately show ?thesis using m(9) by (auto simp: file_saved_def)
qed

end
