(* ===== verification/CollectorClaims.thy ===== *)
theory CollectorClaims
  imports CollectorLive StoreUploads CoreClaims
begin

text \<open>
  The properties of the recipient's client: what is saved is authentic and replaces nothing, it is what
  the server's receipt covers, acknowledgements follow the file, and reading and waiting end.
\<close>

section \<open>A concrete collection\<close>

definition demo_opening :: primitives where
  "demo_opening = demo_primitives\<lparr>prMetadata := (\<lambda>_. Some \<lparr>fmName = ''a.txt'', fmType = [], fmLastModified = 0\<rparr>)\<rparr>"

definition demo_client :: Client where
  "demo_client = New demo_key"

text \<open>A transport that answers with the demo upload, to a recipient whose directory is empty.\<close>

definition demo_web :: client_env where
  "demo_web = \<lparr>ceDo = (\<lambda>_ call. case call of
       Get_call u _ \<Rightarrow> Some (reply_with (if last u = CHR ''t'' then ''{}'' else demo_chunk))
     | Post_call _ _ \<Rightarrow> Some (reply_with [])),
     ceLag = (\<lambda>_. 0), ceOS = (\<lambda>_. demo_env), ceTempName = (\<lambda>_. ''1''), ceSameFile = (\<lambda>_. True),
     ceValidURL = (\<lambda>_. True), ceLocate = (\<lambda>_ _. None), ceHost = (\<lambda>_. ''h''), ceHostname = (\<lambda>_. ''h''), ceParseTime = (\<lambda>_. None), cePrimitives = demo_opening, ceManifest = demo_dec,
     ceReceipts = (\<lambda>_. Some [demo_receipt]), ceClosure = (\<lambda>_. None)\<rparr>"

definition demo_home :: client_state where
  "demo_home = \<lparr>csTick = 0, csClock = Time 20, csSent = [], csWire = [], csSlept = [],
     csDisk = [([], Dir), ([''out''], Dir), ([''out'', ''b.txt''], File (Raw ''old''))]\<rparr>"

abbreviation demo_ctx :: ctx where
  "demo_ctx \<equiv> (\<lambda>_. None)"

lemma demo_web_simps [simp]:
  "cePrimitives demo_web = demo_opening" "ceManifest demo_web = demo_dec" "ceValidURL demo_web u" "clKey demo_client = demo_key"
  "ceDo demo_web t (Post_call u k) = Some (reply_with [])"
  "ceDo demo_web t (Get_call u k) = Some (reply_with (if last u = CHR ''t'' then ''{}'' else demo_chunk))"
  by (simp_all add: demo_web_def demo_client_def New_def)

lemma demo_calm: "calm demo_web demo_ctx"
  by (simp add: calm_def demo_web_def)

lemma demo_answers:
  "answers demo_client demo_web [''uploads'', demo_up, ''manifest''] ''{}''"
  "answers demo_client demo_web [''uploads'', demo_up, ''chunks'', int_str 0] demo_chunk"
proof -
  have z: "int_str 0 = ''0''" by code_simp
  show "answers demo_client demo_web [''uploads'', demo_up, ''manifest''] ''{}''"
    "answers demo_client demo_web [''uploads'', demo_up, ''chunks'', int_str 0] demo_chunk"
    by (simp_all add: answers_def collect_url_def endpoint_def z)
qed

lemma demo_opener: "\<exists>op. NewOpener demo_opening demo_key demo_manifest = Inr op
    \<and> Chunk demo_opening op 0 demo_chunk = Inr ''xxx''
    \<and> Metadata demo_opening op (mfEncryptedMetadata demo_manifest) = Inr \<lparr>fmName = ''a.txt'', fmType = [], fmLastModified = 0\<rparr>"
proof -
  have "kfRequestID demo_key = rbID demo_bundle" by (simp add: demo_key_def)
  from manifest_opens [OF demo_manifest_ok this demo_private, of demo_opening] obtain op where
    "NewOpener demo_opening demo_key demo_manifest = Inr op" by (auto simp: demo_opening_def demo_primitives_def)
  moreover have "Chunk demo_opening op 0 demo_chunk = Inr ''xxx''"
  proof -
    have "take 3 demo_chunk = ''xxx''" "length demo_chunk = 19" by (simp_all add: demo_chunk_def numeral_eq_Suc)
    then show ?thesis
      by (simp add: Chunk_def metadataNonceIndex_def demo_opening_def demo_primitives_def ChunkAAD_def)
  qed
  moreover obtain b where "b64_decode (mfEncryptedMetadata demo_manifest) = Some b"
    using demo_manifest_ok unfolding validateManifest_ok by (auto simp: b64_field_def split: option.splits)
  ultimately show ?thesis
    by (simp add: Metadata_def demo_opening_def demo_primitives_def MetadataAAD_def)
qed

lemma demo_receipt_fields [simp]:
  "rcRequestID demo_receipt = demo_id" "rcUploadID demo_receipt = demo_up" "rcChunkCount demo_receipt = 1"
  "rcPlainSize demo_receipt = 3" "rcReceiptSHA256 demo_receipt = ReceiptRoot ''{}'' [sha256 demo_chunk]"
  by (simp_all add: demo_receipt_def complete_receipt_def)

lemma demo_name: "valid_utf8 ''a.txt''" "SafeFilename ''a.txt'' = Some ''a.txt''"
  by code_simp+

lemma demo_deliverable: "deliverable demo_client demo_web demo_receipt [''out''] (csDisk demo_home) ''{}'' [(demo_chunk, ''xxx'')] ''a.txt''"
proof -
  obtain op where op: "NewOpener demo_opening demo_key demo_manifest = Inr op" "Chunk demo_opening op 0 demo_chunk = Inr ''xxx''"
    "Metadata demo_opening op (mfEncryptedMetadata demo_manifest) = Inr \<lparr>fmName = ''a.txt'', fmType = [], fmLastModified = 0\<rparr>"
    using demo_opener by blast
  have key: "kfRequestID demo_key = demo_id" by (simp add: demo_key_def)
  have "chunk_served demo_client demo_web demo_receipt demo_manifest op 0 (demo_chunk, ''xxx'')"
    using op(2) demo_answers(2) by (simp add: chunk_served_def opens_to_def) (simp add: demo_chunk_def)
  moreover have "temp_free [''out''] (csDisk demo_home)"
    by (auto simp: temp_free_def demo_home_def get_def prefix_Cons)
  moreover have "get (csDisk demo_home) ([''out''] @ [candidate_name ''a.txt'' 1]) = None"
    by (simp add: demo_home_def get_def candidate_name_def Let_def)
  ultimately show ?thesis
    unfolding deliverable_def using op(1,3) demo_answers(1) demo_name key
    by (intro exI [of _ demo_manifest] exI [of _ op] exI [of _ "\<lparr>fmName = ''a.txt'', fmType = [], fmLastModified = 0\<rparr>"]
        exI [of _ "1 :: nat"]) (simp add: maxNameCollisions_def)
qed

lemma demo_collected:
  "\<exists>result st'. CollectOne demo_client demo_web demo_ctx demo_receipt [''out''] True demo_home = ((Some result, None), st')"
  using CollectOne_calm [OF demo_calm demo_deliverable] by (simp add: reply_with_def) blast

section \<open>What is saved\<close>

lemma probe_links_dot: "dest \<in> probe_links dir \<Longrightarrow> \<exists>x. dest = dir @ [CHR ''.'' # x]"
  by (auto simp: probe_links_def)

text \<open>A result of \<open>CollectOne\<close>: the parts of the upload and the place of the file.\<close>

lemma CollectOne_saved:
  assumes "CollectOne c W ctx receipt dir acknowledge_it st = ((Some result, err), st')"
  obtains raw xs name k where "authentic W (clKey c) receipt raw xs name"
    and "file_saved receipt raw xs (dir @ [candidate_name name k]) result (csDisk st')"
    and "free (probe_links dir) (csDisk st) (dir @ [candidate_name name k])"
proof -
  obtain temp st1 where t: "saved c W ctx receipt dir st result temp st1"
      "acknowledged_after c W receipt acknowledge_it temp st1 err st'"
    using CollectOne_cases [OF assms spares_refl subset_refl] by auto
  obtain raw xs name k where f: "authentic W (clKey c) receipt raw xs name"
      "file_saved receipt raw xs (dir @ [candidate_name name k]) result (csDisk st1)"
      "free (probe_links dir) (csDisk st) (dir @ [candidate_name name k])" "dir @ [candidate_name name k] \<noteq> temp"
    by (rule saved_ok [OF t(1) spares_refl subset_refl])
  have "get (csDisk st') (dir @ [candidate_name name k]) = get (csDisk st1) (dir @ [candidate_name name k])"
    by (rule acknowledged_state [OF t(2)]) (use f(4) in blast)
  then have "file_saved receipt raw xs (dir @ [candidate_name name k]) result (csDisk st')"
    using f(2) by (simp add: file_saved_def)
  from f(1) this f(3) show ?thesis by (rule that)
qed

text \<open>The JSON decoder of the metadata gives valid UTF-8, as \<open>encoding/json\<close> documents.\<close>

definition names_are_utf8 :: "primitives \<Rightarrow> bool" where
  "names_are_utf8 pr \<longleftrightarrow> (\<forall>b md. prMetadata pr b = Some md \<longrightarrow> valid_utf8 (fmName md))"

lemma saved_name:
  assumes "authentic W key receipt raw xs name" and "names_are_utf8 (cePrimitives W)"
  shows "safe_component name"
proof -
  obtain op ct md where md: "Metadata (cePrimitives W) op ct = Inr md" "SafeFilename (fmName md) = Some name"
    using assms(1) by (auto simp: authentic_def)
  then have "valid_utf8 (fmName md)" using assms(2) by (auto simp: Metadata_def names_are_utf8_def split: option.splits)
  with md(2) show ?thesis using SafeFilename_safe by fastforce
qed

text \<open>C4: What \<open>CollectOne\<close> saves is authentic, complete and new: when it gives a result, the whole upload
  opened under the key file, chunk by chunk in place and of the announced size, its receipt root is that
  of the receipt, and the plaintext is now a file directly inside the output directory under a name that
  starts with no dot, holds no separator and was not taken before. The result describes that file.\<close>

theorem collected_file_authentic:
  assumes "CollectOne c W ctx receipt dir acknowledge_it st = ((Some result, err), st')"
    and "names_are_utf8 (cePrimitives W)"
  shows "\<exists>raw xs name file. authentic W (clKey c) receipt raw xs name
    \<and> file_saved receipt raw xs (dir @ [file]) result (csDisk st') \<and> get (csDisk st) (dir @ [file]) = None
    \<and> file \<noteq> [] \<and> hd file \<noteq> CHR ''.'' \<and> slash \<notin> set file"
proof -
  obtain raw xs name k where f: "authentic W (clKey c) receipt raw xs name"
      "file_saved receipt raw xs (dir @ [candidate_name name k]) result (csDisk st')"
      "free (probe_links dir) (csDisk st) (dir @ [candidate_name name k])"
    by (rule CollectOne_saved [OF assms(1)])
  have "safe_component name" by (rule saved_name [OF f(1) assms(2)])
  note n = candidate_safe [OF this, of k]
  have "dir @ [candidate_name name k] \<notin> probe_links dir"
    using n(2) probe_links_dot [of "dir @ [candidate_name name k]" dir] by auto
  then have "get (csDisk st) (dir @ [candidate_name name k]) = None" using f(3) by (simp add: free_def)
  then show ?thesis using f(1,2) n by blast
qed

lemma demo_utf8: "names_are_utf8 (cePrimitives demo_web)"
  using demo_name(1) by (auto simp: names_are_utf8_def demo_opening_def)

theorem collected_file_authentic_witness:
  "\<exists>result st' raw xs name file. CollectOne demo_client demo_web demo_ctx demo_receipt [''out''] True demo_home = ((Some result, None), st')
     \<and> authentic demo_web demo_key demo_receipt raw xs name
     \<and> file_saved demo_receipt raw xs [''out'', file] result (csDisk st')"
proof -
  obtain result st' where run: "CollectOne demo_client demo_web demo_ctx demo_receipt [''out''] True demo_home = ((Some result, None), st')"
    using demo_collected by blast
  from collected_file_authentic [OF run demo_utf8] run show ?thesis by auto
qed

text \<open>C8: The recipient sends an acknowledgement only after the file is in place: a run of \<open>CollectOne\<close>
  makes \<open>GET\<close> requests (calls of \<open>http.Client.Do\<close>) and then at most one \<open>POST\<close>, to the acknowledgement of this receipt, and only when it
  was asked to; before that \<open>POST\<close> the authentic file was already published in the output directory. A run
  that reports success has sent it exactly when asked.\<close>

theorem ack_after_save:
  assumes "CollectOne c W ctx receipt dir acknowledge_it st = ((res, err), st')"
  shows "\<exists>gets posts. csSent st' = csSent st @ gets @ posts \<and> list_all is_get_call gets
    \<and> (err = None \<longrightarrow> (posts \<noteq> [] \<longleftrightarrow> acknowledge_it))
    \<and> (posts \<noteq> [] \<longrightarrow> acknowledge_it \<and> posts = [Post_call (ack_url c receipt) (kfCollectToken (clKey c))]
        \<and> (\<exists>result temp st1 raw xs name file. res = Some result \<and> saved c W ctx receipt dir st result temp st1
            \<and> csSent st1 = csSent st @ gets \<and> authentic W (clKey c) receipt raw xs name
            \<and> file_saved receipt raw xs (dir @ [file]) result (csDisk st1)))"
  using CollectOne_cases [OF assms spares_refl subset_refl]
proof (elim disjE exE conjE)
  assume "good (probe_links dir) (csDisk st) st st'" "err \<noteq> None"
  then obtain gets where "csSent st' = csSent st @ gets" "list_all is_get_call gets" by (auto simp: good_def gets_only_def)
  then show ?thesis using \<open>err \<noteq> None\<close> by - (rule exI [of _ gets], rule exI [of _ "[]"], auto)
next
  fix result temp st1
  assume r: "res = Some result" and t: "saved c W ctx receipt dir st result temp st1"
    and g: "good (probe_links dir) (csDisk st) st st1" and a: "acknowledged_after c W receipt acknowledge_it temp st1 err st'"
  obtain gets where gets: "csSent st1 = csSent st @ gets" "list_all is_get_call gets"
    using g by (auto simp: good_def gets_only_def)
  obtain posts where posts: "csSent st' = csSent st1 @ posts"
    "posts = [] \<or> acknowledge_it \<and> posts = [Post_call (ack_url c receipt) (kfCollectToken (clKey c))]"
    "acknowledge_it \<and> err = None \<longrightarrow> posts \<noteq> []"
    by (rule acknowledged_state [OF a]) blast
  obtain raw xs name k where f: "authentic W (clKey c) receipt raw xs name"
      "file_saved receipt raw xs (dir @ [candidate_name name k]) result (csDisk st1)"
    by (rule saved_ok [OF t spares_refl subset_refl])
  have place: "\<exists>result temp st1 raw xs name file. res = Some result \<and> saved c W ctx receipt dir st result temp st1
      \<and> csSent st1 = csSent st @ gets \<and> authentic W (clKey c) receipt raw xs name
      \<and> file_saved receipt raw xs (dir @ [file]) result (csDisk st1)"
    using r t gets(1) f by blast
  show ?thesis
  proof (rule exI [of _ gets], rule exI [of _ posts], intro conjI impI)
    show "csSent st' = csSent st @ gets @ posts" using posts(1) gets(1) by simp
    show "posts \<noteq> [] \<longleftrightarrow> acknowledge_it" if "err = None" using posts(2,3) that by blast
  qed (use gets(2) posts(2) place in blast)+
qed

theorem ack_after_save_witness:
  "\<exists>st' gets. csSent st' = gets @ [Post_call (ack_url demo_client demo_receipt) ''collect''] \<and> list_all is_get_call gets
     \<and> snd (CollectOne demo_client demo_web demo_ctx demo_receipt [''out''] True demo_home) = st'"
proof -
  obtain result st' where run: "CollectOne demo_client demo_web demo_ctx demo_receipt [''out''] True demo_home = ((Some result, None), st')"
    using demo_collected by blast
  have tok: "kfCollectToken demo_key = ''collect''" "csSent demo_home = []" by (simp_all add: demo_key_def demo_home_def)
  show ?thesis using ack_after_save [OF run] tok run by auto
qed

section \<open>The recipient's directory\<close>

text \<open>Collecting always returns and never overwrites or removes what the recipient had: after \<open>Collect\<close>,
  whatever it gave and whatever failed on the way, every file and directory that was there before is there
  with the same content. The one exception is a name of the form \<open>.opaquedrop-publish-probe-*.part.link\<close>
  directly inside the output directory, which the probe of hard links takes away.\<close>

lemma collect_spares_existing:
  assumes "get (csDisk st) q = Some n" and "q \<notin> probe_links dir"
  shows "\<exists>out st'. Collect c W ctx wait dir opts st = Some (out, st') \<and> get (csDisk st') q = Some n"
proof -
  obtain out st' where run: "Collect c W ctx wait dir opts st = Some (out, st')" using Collect_returns by blast
  with Collect_spares [OF run] assms show ?thesis by (auto simp: spares_def)
qed


text \<open>C40: Inspection changes nothing: \<open>Inspect\<close> always returns, sends only \<open>GET\<close> requests, also where it follows
  redirects, so nothing is acknowledged or closed, and leaves the recipient's file system as it was.\<close>

theorem inspect_changes_nothing:
  "\<exists>out st' gets. Inspect c W ctx wait opts st = Some (out, st') \<and> csDisk st' = csDisk st
     \<and> csSent st' = csSent st @ gets \<and> list_all is_get_call gets
     \<and> (\<exists>hops. csWire st' = csWire st @ hops \<and> list_all is_get_call hops)"
  using Inspect_quiet [of c W ctx wait opts st] by (auto simp: quiet_def)

section \<open>Reading and waiting\<close>

text \<open>C25: Reads are bounded: one \<open>bytesRequest\<close> makes the same \<open>GET\<close> at most eleven times, each of which is at most
  ten requests on the wire with the redirects it follows, sleeps at most ten times, each time between zero and the
  maximal delay (30 seconds unless configured), whatever \<open>Retry-After\<close> the server asks for, sends nothing else
  and touches no file.\<close>

theorem reads_bounded:
  "\<exists>k ds hops. csSent (snd (bytesRequest c W ctx url limit st)) = csSent st @ replicate k (Get_call url (kfCollectToken (clKey c)))
     \<and> k \<le> 11 \<and> csSlept (snd (bytesRequest c W ctx url limit st)) = csSlept st @ ds \<and> length ds \<le> 10
     \<and> list_all (\<lambda>d. 0 \<le> d \<and> d \<le> max_retry_delay c) ds \<and> csDisk (snd (bytesRequest c W ctx url limit st)) = csDisk st
     \<and> csWire (snd (bytesRequest c W ctx url limit st)) = csWire st @ hops \<and> length hops \<le> 10 * k"
proof -
  have n: "read_attempts c \<le> 11" by (simp add: read_attempts_def MaxReadRetries_def)
  obtain k ds hops where "csSent (snd (bytesRequest c W ctx url limit st)) = csSent st @ replicate k (Get_call url (kfCollectToken (clKey c)))"
      "k \<le> read_attempts c" "csSlept (snd (bytesRequest c W ctx url limit st)) = csSlept st @ ds" "length ds \<le> read_attempts c - 1"
      "\<forall>d \<in> set ds. 0 \<le> d \<and> d \<le> max_retry_delay c"
      "csWire (snd (bytesRequest c W ctx url limit st)) = csWire st @ hops" "length hops \<le> 10 * k"
    using read_loop_bounded [of c url "read_attempts c" st 1 W ctx limit] unfolding bounded_read_def bytesRequest_def by blast
  then show ?thesis using n quiet_disk [OF bytesRequest_quiet [of st c W ctx url limit]]
    by (intro exI [of _ k] exI [of _ ds] exI [of _ hops]) (simp add: list_all_iff)
qed

text \<open>C19: Waiting ends: \<open>WaitForReceipts\<close> returns for every server, clock and context, because every turn that
  goes on has slept towards the deadline; when it returns receipts after waiting, they satisfy what was
  waited for: all the named uploads, or one that is not yet acknowledged.\<close>

theorem wait_returns:
  "\<exists>r st'. WaitForReceipts c W parent wait opts st = Some (r, st') \<and> quiet st st'
     \<and> (case r of Inr rs \<Rightarrow> woTimeout opts \<noteq> 0 \<longrightarrow> receiptListReady rs opts | Inl e \<Rightarrow> True)"
  using WaitForReceipts_returns [of c W parent wait opts st] by (force split: sum.split)

theorem wait_returns_witness:
  "\<exists>r st'. WaitForReceipts demo_client demo_web demo_ctx demo_ctx
      \<lparr>woUploadIDs = [demo_up], woIncludeAcknowledged = False, woTimeout = 60 * nanos_per_second, woPollInterval = nanos_per_second\<rparr>
      demo_home = Some (r, st') \<and> (case r of Inr rs \<Rightarrow> demo_up \<in> rcUploadID ` set rs | Inl e \<Rightarrow> True)"
proof -
  let ?o = "\<lparr>woUploadIDs = [demo_up], woIncludeAcknowledged = False, woTimeout = 60 * nanos_per_second, woPollInterval = nanos_per_second\<rparr>"
  obtain r st' where "WaitForReceipts demo_client demo_web demo_ctx demo_ctx ?o demo_home = Some (r, st')"
    "case r of Inr rs \<Rightarrow> woTimeout ?o \<noteq> 0 \<longrightarrow> receiptListReady rs ?o | Inl e \<Rightarrow> True"
    using wait_returns [of demo_client demo_web demo_ctx demo_ctx ?o demo_home] by blast
  then show ?thesis
    by (intro exI [of _ r] exI [of _ st']) (auto simp: receiptListReady_def nanos_per_second_def split: sum.splits if_splits)
qed

section \<open>From the server's disk to the recipient's\<close>

definition collision :: "string \<Rightarrow> string \<Rightarrow> bool" where
  "collision x y \<longleftrightarrow> x \<noteq> y \<and> sha256 x = sha256 y"

lemma same_digests:
  "map sha256 xs = map sha256 ys \<Longrightarrow> xs = ys \<or> list_ex (\<lambda>(x, y). collision x y) (zip xs ys)"
proof (induction xs arbitrary: ys)
  case (Cons x xs)
  then obtain y ys' where "ys = y # ys'" "sha256 x = sha256 y" "map sha256 xs = map sha256 ys'" by (cases ys) auto
  with Cons.IH [of ys'] show ?case by (auto simp: collision_def)
qed simp

lemma same_receipt:
  assumes "equal_fold (ReceiptRoot raw' (map sha256 cs')) (ReceiptRoot raw (map sha256 cs))"
  shows "raw' = raw \<and> cs' = cs \<or> collision raw' raw \<or> list_ex (\<lambda>(x, y). collision x y) (zip cs' cs)
    \<or> collision (receipt_preimage raw' (map sha256 cs')) (receipt_preimage raw (map sha256 cs))"
proof (cases "receipt_preimage raw' (map sha256 cs') = receipt_preimage raw (map sha256 cs)")
  case True
  then have "sha256 raw' = sha256 raw \<and> map sha256 cs' = map sha256 cs" by (rule receipt_preimage_inj) simp_all
  then show ?thesis using same_digests [of cs' cs] by (auto simp: collision_def)
next
  case False
  have "hex_decode (ReceiptRoot raw' (map sha256 cs')) = Some (sha256 (receipt_preimage raw (map sha256 cs)))"
    using assms unfolding ReceiptRoot_def sha256_hex_def by (rule hex_decode_fold)
  then show ?thesis using False by (simp add: ReceiptRoot_def collision_def)
qed

text \<open>C5: From the server's disk to the recipient's: the server completes an upload and the recipient collects with
  the receipt that this gave. Whatever the network and the server send in between, a saved file is decrypted
  from exactly the manifest and the chunks that were on the server's disk at completion, in order, or a
  SHA-256 collision among the named values is at hand.\<close>

theorem collected_is_stored:
  assumes "Complete E d r u = (Inr rc, d')" and "entries_ok dec d" and "envManifest E = dec" and "get d (completePath r u) = None"
    and "CollectOne c W ctx rc dir acknowledge_it st = ((Some result, err), st')"
  shows "\<exists>raw m raw' xs name file. get d (manifestPath r u) = Some (File (Raw raw)) \<and> dec raw = Some m
    \<and> authentic W (clKey c) rc raw' xs name \<and> file_saved rc raw' xs (dir @ [file]) result (csDisk st')
    \<and> (let stored = map (\<lambda>i. the (chunk_bytes E d r u i)) (chunk_indices m); got = map fst xs in
        raw' = raw \<and> got = stored \<or> collision raw' raw \<or> list_ex (\<lambda>(x, y). collision x y) (zip got stored)
        \<or> collision (receipt_preimage raw' (map sha256 got)) (receipt_preimage raw (map sha256 stored)))"
proof -
  obtain m raw where c: "readManifest E d r u = Inr (m, raw)" "rc = receipt_for E d r u m raw"
    by (rule Complete_new [OF assms(1-4)])
  have raw: "dec raw = Some m" "get d (manifestPath r u) = Some (File (Raw raw))"
    using readManifest_Inr [OF c(1)] readManifest_accepted(4) [OF c(1) assms(2,3)] assms(3) by metis+
  define stored where "stored = map (\<lambda>i. the (chunk_bytes E d r u i)) (chunk_indices m)"
  have root: "rcReceiptSHA256 rc = ReceiptRoot raw (map sha256 stored)"
    by (simp add: c(2) receipt_for_def complete_receipt_def chunk_digests_def stored_def comp_def)
  obtain raw' xs name k where f: "authentic W (clKey c) rc raw' xs name"
      "file_saved rc raw' xs (dir @ [candidate_name name k]) result (csDisk st')"
    by (rule CollectOne_saved [OF assms(5)])
  have "equal_fold (ReceiptRoot raw' (map sha256 (map fst xs))) (ReceiptRoot raw (map sha256 stored))"
    using f(1) root by (auto simp: authentic_def comp_def)
  from same_receipt [OF this] raw f show ?thesis unfolding Let_def stored_def by blast
qed

theorem collected_is_stored_witness:
  "\<exists>raw raw' xs name. get demo_filled (manifestPath demo_id demo_up) = Some (File (Raw raw)) \<and> authentic demo_web demo_key demo_receipt raw' xs name"
proof -
  obtain result st' where run: "CollectOne demo_client demo_web demo_ctx demo_receipt [''out''] True demo_home = ((Some result, None), st')"
    using demo_collected by blast
  have "get demo_filled (completePath demo_id demo_up) = None" by (rule demo_no_receipt)
  from collected_is_stored [OF demo_complete demo_entries(3) _ this run] show ?thesis by auto
qed

end
