(* ===== verification/EndToEnd.thy ===== *)
theory EndToEnd
  imports ServerClaims CollectorClaims
begin

text \<open>
  The client of the recipient against the server: when the network carries its requests to the server and
  the answers back, a completed upload is collected.
\<close>

section \<open>The network\<close>

text \<open>
  What \<open>bytesRequestOnce\<close> and \<open>jsonRequestLimit\<close> put into a request: the method, the collect path of the
  request with further segments, the collect token. The address is the one the server sees.
\<close>

definition recipient_request :: "string \<Rightarrow> Client \<Rightarrow> string \<Rightarrow> string list \<Rightarrow> http_request" where
  "recipient_request addr c m parts =
     \<lparr>hdRemoteAddr = addr, hdHeaders = [(''Authorization'', ''OpaqueDrop '' @ kfCollectToken (clKey c))],
      rqMethod = m, rqSegments = [''api'', ''v1'', ''collect'', kfRequestID (clKey c)] @ parts, rqHost = [],
      rqBody = \<lparr>bodyBytes = [], bodyFails = False\<rparr>, rqContentLength = 0\<rparr>"

text \<open>An answer arrives with its status, and a body of bytes completely.\<close>

definition carried :: "response \<Rightarrow> reply option \<Rightarrow> bool" where
  "carried p r \<longleftrightarrow> (\<exists>x. r = Some x \<and> ryStatus x = int (rpStatus p)
     \<and> (\<forall>b. rpStatus p = 200 \<and> rpBody p = BytesBody b \<longrightarrow> x = reply_with b))"

text \<open>Path segments that are in a URL what they are in the client.\<close>

definition plain_parts :: "string list \<Rightarrow> bool" where
  "plain_parts parts \<longleftrightarrow> parts \<noteq> [] \<and> list_all (\<lambda>p. p \<noteq> [] \<and> list_all id_char p) parts"

text \<open>
  The transport of the client reaches the server on the data directory \<open>d\<close>: at each tick the server has
  some table of failures in which the address is not blocked, and its calls on the disk do not fail.
\<close>

definition connected :: "client_env \<Rightarrow> Client \<Rightarrow> server_config \<Rightarrow> (nat \<Rightarrow> nat \<Rightarrow> env) \<Rightarrow> (nat \<Rightarrow> windows) \<Rightarrow> string \<Rightarrow> disk \<Rightarrow> bool" where
  "connected W c cfg At l addr d \<longleftrightarrow>
     (\<forall>t n. no_faults (At t n) \<and> envManifest (At t n) = ceManifest W)
     \<and> (\<forall>t m parts. \<not> fst (blocked (l t) (client cfg (recipient_request addr c m parts)) (envNow (At t 0))))
     \<and> (\<forall>parts. ceValidURL W (collect_url c parts))
     \<and> (\<forall>t parts. plain_parts parts \<longrightarrow> carried (fst (serve cfg (At t) \<lparr>svDisk = d, svLimiter = l t\<rparr> (recipient_request addr c ''GET'' parts)))
          (ceDo W t (Get_call (collect_url c parts) (kfCollectToken (clKey c)))))
     \<and> (\<forall>t parts. plain_parts parts \<longrightarrow> carried (fst (serve cfg (At t) \<lparr>svDisk = d, svLimiter = l t\<rparr> (recipient_request addr c ''POST'' parts)))
          (ceDo W t (Post_call (collect_url c parts) (kfCollectToken (clKey c)))))"

lemma plain_uploads:
  "ValidID u \<Longrightarrow> plain_parts [''uploads'', u, ''manifest'']" "ValidID u \<Longrightarrow> plain_parts [''uploads'', u, ''ack'']"
  "ValidID u \<Longrightarrow> x \<noteq> [] \<Longrightarrow> list_all is_digit x \<Longrightarrow> plain_parts [''uploads'', u, ''chunks'', x]"
proof -
  have w: "list_all id_char ''uploads''" "list_all id_char ''manifest''" "list_all id_char ''ack''" "list_all id_char ''chunks''" by code_simp+
  have "is_digit c \<Longrightarrow> id_char c" for c by (auto simp: id_char_def is_digit_def)
  then have "list_all is_digit x \<Longrightarrow> list_all id_char x" by (simp add: list_all_iff)
  with w show "ValidID u \<Longrightarrow> plain_parts [''uploads'', u, ''manifest'']" "ValidID u \<Longrightarrow> plain_parts [''uploads'', u, ''ack'']"
    "ValidID u \<Longrightarrow> x \<noteq> [] \<Longrightarrow> list_all is_digit x \<Longrightarrow> plain_parts [''uploads'', u, ''chunks'', x]"
    by (auto simp: plain_parts_def ValidID_def)
qed

section \<open>What the server answers\<close>

lemma recipient_bearer [simp]: "bearer (recipient_request addr c m parts) = kfCollectToken (clKey c)"
  by (simp add: bearer_def recipient_request_def header_get_def header_values_def trim_prefix_def)

lemma recipient_same_origin [simp]: "\<not> cross_origin cfg (recipient_request addr c m parts)"
proof -
  have "\<not> equal_fold [] ''cross-site''" by code_simp
  then show ?thesis by (simp add: cross_origin_def recipient_request_def header_get_def header_values_def)
qed

lemma recipient_routes:
  assumes "ValidID (kfRequestID (clKey c))" and "ValidID u"
  shows "mux ''GET'' (rqSegments (recipient_request addr c m [''uploads'', u, ''manifest''])) = Some (Manifest_of (kfRequestID (clKey c)) u)"
    and "x \<noteq> [] \<Longrightarrow> mux ''GET'' (rqSegments (recipient_request addr c m [''uploads'', u, ''chunks'', x])) = Some (Chunk_of (kfRequestID (clKey c)) u x)"
    and "mux ''POST'' (rqSegments (recipient_request addr c m [''uploads'', u, ''ack''])) = Some (Ack_of (kfRequestID (clKey c)) u)"
proof -
  have "kfRequestID (clKey c) \<noteq> []" "u \<noteq> []" using assms by (auto simp: ValidID_def)
  then show "mux ''GET'' (rqSegments (recipient_request addr c m [''uploads'', u, ''manifest''])) = Some (Manifest_of (kfRequestID (clKey c)) u)"
    "x \<noteq> [] \<Longrightarrow> mux ''GET'' (rqSegments (recipient_request addr c m [''uploads'', u, ''chunks'', x])) = Some (Chunk_of (kfRequestID (clKey c)) u x)"
    "mux ''POST'' (rqSegments (recipient_request addr c m [''uploads'', u, ''ack''])) = Some (Ack_of (kfRequestID (clKey c)) u)"
    by (simp_all add: recipient_request_def mux_def api_route_def is_get_def)
qed

lemma recipient_method [simp]: "rqMethod (recipient_request addr c m parts) = m"
  by (simp add: recipient_request_def)

text \<open>A recipient with the right token gets the answer of the handler.\<close>

lemma recipient_served:
  assumes "connected W c cfg At l addr d"
    and "\<And>E. no_faults E \<Longrightarrow> Authenticate E d (kfRequestID (clKey c)) (kfCollectToken (clKey c)) ''collect'' = Some b"
    and "mux m (rqSegments (recipient_request addr c m parts)) = Some t" and "route_auth t = Some (''collect'', kfRequestID (clKey c))"
  obtains s' where "svDisk s' = d"
    and "authorize cfg (At n) \<lparr>svDisk = d, svLimiter = l n\<rparr> (recipient_request addr c m parts) (kfRequestID (clKey c)) ''collect'' = (Inr b, s')"
    and "rpStatus (fst (serve cfg (At n) \<lparr>svDisk = d, svLimiter = l n\<rparr> (recipient_request addr c m parts)))
      = rpStatus (fst (dispatch cfg (At n) \<lparr>svDisk = d, svLimiter = l n\<rparr> (recipient_request addr c m parts) t))"
    and "rpBody (fst (serve cfg (At n) \<lparr>svDisk = d, svLimiter = l n\<rparr> (recipient_request addr c m parts)))
      = rpBody (fst (dispatch cfg (At n) \<lparr>svDisk = d, svLimiter = l n\<rparr> (recipient_request addr c m parts) t))"
proof -
  let ?s = "\<lparr>svDisk = d, svLimiter = l n\<rparr>" and ?r = "recipient_request addr c m parts"
  have nf: "no_faults (At n 1)" and nb: "\<not> fst (blocked (l n) (client cfg ?r) (envNow (At n 0)))"
    using assms(1) by (simp_all add: connected_def)
  have tok: "Authenticate (At n 1) (svDisk ?s) (kfRequestID (clKey c)) (bearer ?r) ''collect'' = Some b" using assms(2) [OF nf] by simp
  have "authorize cfg (At n) ?s ?r (kfRequestID (clKey c)) ''collect'' = (Inr b, checked cfg (At n) ?s ?r)"
    by (cases rule: authorize_cases [of cfg "At n" ?s ?r "kfRequestID (clKey c)" "''collect''"]) (use nb tok in simp_all)
  moreover have "svDisk (checked cfg (At n) ?s ?r) = d" by (simp add: checked_def)
  ultimately show thesis using assms(3) by (intro that) (simp_all add: serve_simps originBoundary_def)
qed

section \<open>Answers for a completed upload\<close>

text \<open>The upload \<open>u\<close> of a request as it lies on the server's disk: manifest, chunks and receipt.\<close>

definition upload_on :: "(string \<Rightarrow> Manifest option) \<Rightarrow> disk \<Rightarrow> string \<Rightarrow> string \<Rightarrow> string \<Rightarrow> Manifest \<Rightarrow> (int \<Rightarrow> string) \<Rightarrow> Receipt \<Rightarrow> bool" where
  "upload_on dec d i u raw m ct rc \<longleftrightarrow> ValidID i \<and> ValidID u
     \<and> get d (manifestPath i u) = Some (File (Raw raw)) \<and> dec raw = Some m \<and> chunk_shape m
     \<and> get d (completePath i u) = Some (File (JReceipt rc))
     \<and> (\<forall>k. 0 \<le> k \<and> k < mfChunkCount m \<longrightarrow> get d (chunkPath i u k) = Some (File (Raw (ct k))))"

lemma upload_reads:
  assumes "upload_on dec d i u raw m ct rc" and "no_faults E" and "envManifest E = dec"
  shows "readManifest E d i u = Inr (m, raw)" and "ReadManifest E d i u = Inr raw" and "readReceipt E d i u = Inr rc"
    and "\<And>k. 0 \<le> k \<Longrightarrow> k < mfChunkCount m \<Longrightarrow> OpenChunk E d i u k = Inr (File (Raw (ct k)), int (length (ct k)))"
proof -
  show m: "readManifest E d i u = Inr (m, raw)"
    using assms by (simp add: upload_on_def readManifest_def os_read_file_def no_faults_def)
  then show "ReadManifest E d i u = Inr raw" by (simp add: ReadManifest_def)
  show r: "readReceipt E d i u = Inr rc"
    using assms by (simp add: upload_on_def readReceipt_def os_read_file_def no_faults_def)
  fix k assume "0 \<le> k" "k < mfChunkCount m"
  then show "OpenChunk E d i u k = Inr (File (Raw (ct k)), int (length (ct k)))"
    using assms m r by (simp add: upload_on_def OpenChunk_def os_open_def no_faults_def node_size_def)
qed

lemma Acknowledge_succeeds:
  assumes "no_faults E" and "validateBundle b = Inr ()" and "ValidID u" and "readReceipt E d (rbID b) u = Inr rc"
    and "get d (uploadDir (rbID b) u) = Some Dir"
  shows "\<exists>d'. Acknowledge E d b u = (Inr (), d')"
proof -
  have r: "\<exists>d''. os_err (os_remove_all E d' p) = (Inr (), d'')" for d' p
    using assms(1)
    by (auto simp: os_err_def os_remove_all_def Let_def stuck_def no_faults_def list_ex_iff del_def)
  obtain x d1 where w: "writeNew E d (ackPath (rbID b) u) (JAck (envNow E)) = (x, d1)" "x = Inl Exist \<or> x = Inr ()"
  proof (cases "get d (ackPath (rbID b) u)")
    case None
    then show ?thesis using writeNew_no_faults [OF assms(1) None, of "JAck (envNow E)"] assms(5) that by (simp add: ackPath_def)
  next
    case (Some n)
    then show ?thesis using assms(1) that by (simp add: writeNew_def os_stat_def no_faults_def)
  qed
  obtain d2 where "os_err (os_remove_all E d1 (uploadDir (rbID b) u)) = (Inr (), d2)" using r by blast
  then show ?thesis using assms(2-4) w by (cases "rbDeleteAfterCollect b") (auto simp: Acknowledge_def)
qed

lemma carried_bytes: "carried p r \<Longrightarrow> rpStatus p = 200 \<Longrightarrow> rpBody p = BytesBody b \<Longrightarrow> r = Some (reply_with b)"
  by (auto simp: carried_def)

text \<open>Manifest and chunks are answered with what is on the disk, the acknowledgement with 204.\<close>

lemma upload_answers:
  assumes c: "connected W c cfg At l addr d"
    and a: "\<And>E. no_faults E \<Longrightarrow> Authenticate E d (kfRequestID (clKey c)) (kfCollectToken (clKey c)) ''collect'' = Some b"
    and u: "upload_on (ceManifest W) d (kfRequestID (clKey c)) u raw m ct rc"
  shows "answers c W [''uploads'', u, ''manifest''] raw"
    and "0 \<le> k \<Longrightarrow> k < mfChunkCount m \<Longrightarrow> answers c W [''uploads'', u, ''chunks'', int_str k] (ct k)"
proof -
  let ?i = "kfRequestID (clKey c)" and ?s = "\<lambda>t. \<lparr>svDisk = d, svLimiter = l t\<rparr>"
  have ids: "ValidID ?i" "ValidID u" using u by (simp_all add: upload_on_def)
  have env: "no_faults (At t n)" "envManifest (At t n) = ceManifest W" "\<not> envFault (At t n) x y" for t n x y
    using c by (simp_all add: connected_def no_faults_def)
  have url: "ceValidURL W (collect_url c parts)" for parts using c by (simp add: connected_def)
  have get: "carried (fst (serve cfg (At t) (?s t) (recipient_request addr c ''GET'' parts)))
      (ceDo W t (Get_call (collect_url c parts) (kfCollectToken (clKey c))))" if "plain_parts parts" for t parts
    using c that by (simp add: connected_def)
  have "ceDo W t (Get_call (collect_url c [''uploads'', u, ''manifest'']) (kfCollectToken (clKey c))) = Some (reply_with raw)" for t
  proof -
    let ?r = "recipient_request addr c ''GET'' [''uploads'', u, ''manifest'']"
    obtain s' where s: "svDisk s' = d" "authorize cfg (At t) (?s t) ?r ?i ''collect'' = (Inr b, s')"
        "rpStatus (fst (serve cfg (At t) (?s t) ?r)) = rpStatus (fst (dispatch cfg (At t) (?s t) ?r (Manifest_of ?i u)))"
        "rpBody (fst (serve cfg (At t) (?s t) ?r)) = rpBody (fst (dispatch cfg (At t) (?s t) ?r (Manifest_of ?i u)))"
      by (rule recipient_served [OF c a recipient_routes(1) [OF ids], of t]) simp_all
    show ?thesis
      by (rule carried_bytes [OF get [OF plain_uploads(1) [OF ids(2)]]])
        (use s upload_reads(2) [OF u env(1,2)] in \<open>simp_all add: collectManifest_def with_auth_def stored_def writeBytes_def\<close>)
  qed
  then show "answers c W [''uploads'', u, ''manifest''] raw" using url by (simp add: answers_def)
  assume k: "0 \<le> k" "k < mfChunkCount m"
  then have n: "int_str k = nat_str (nat k)" "nat k < 10 ^ 10"
    using u by (auto simp: int_str_def upload_on_def chunk_shape_def)
  have x: "ParseChunkIndex (int_str k) = Inr k" "int_str k \<noteq> []" "list_all is_digit (int_str k)"
    using ParseChunkIndex_nat_str [OF n(2)] nat_str_digits [of "nat k"] k(1) by (simp_all add: n(1))
  have "ceDo W t (Get_call (collect_url c [''uploads'', u, ''chunks'', int_str k]) (kfCollectToken (clKey c))) = Some (reply_with (ct k))" for t
  proof -
    let ?r = "recipient_request addr c ''GET'' [''uploads'', u, ''chunks'', int_str k]"
    obtain s' where s: "svDisk s' = d" "authorize cfg (At t) (?s t) ?r ?i ''collect'' = (Inr b, s')"
        "rpStatus (fst (serve cfg (At t) (?s t) ?r)) = rpStatus (fst (dispatch cfg (At t) (?s t) ?r (Chunk_of ?i u (int_str k))))"
        "rpBody (fst (serve cfg (At t) (?s t) ?r)) = rpBody (fst (dispatch cfg (At t) (?s t) ?r (Chunk_of ?i u (int_str k))))"
      by (rule recipient_served [OF c a recipient_routes(2) [OF ids x(2)], of t]) simp_all
    show ?thesis
      by (rule carried_bytes [OF get [OF plain_uploads(3) [OF ids(2) x(2,3)]]])
        (use s x(1) env upload_reads(4) [OF u env(1,2) k] in
          \<open>simp_all add: collectChunk_def with_auth_def with_index_def stored_def writeBytes_def copied_def\<close>)
  qed
  then show "answers c W [''uploads'', u, ''chunks'', int_str k] (ct k)" using url by (simp add: answers_def)
qed

lemma ack_answered:
  assumes c: "connected W c cfg At l addr d"
    and a: "\<And>E. no_faults E \<Longrightarrow> Authenticate E d (kfRequestID (clKey c)) (kfCollectToken (clKey c)) ''collect'' = Some b"
    and u: "upload_on (ceManifest W) d (kfRequestID (clKey c)) u raw m ct rc"
    and b: "validateBundle b = Inr ()" "rbID b = kfRequestID (clKey c)" "get d (uploadDir (kfRequestID (clKey c)) u) = Some Dir"
  shows "\<exists>r. ceDo W t (Post_call (collect_url c [''uploads'', u, ''ack'']) (kfCollectToken (clKey c))) = Some r \<and> ryStatus r = 204"
proof -
  let ?i = "kfRequestID (clKey c)" and ?s = "\<lparr>svDisk = d, svLimiter = l t\<rparr>"
  let ?r = "recipient_request addr c ''POST'' [''uploads'', u, ''ack'']"
  have ids: "ValidID ?i" "ValidID u" using u by (simp_all add: upload_on_def)
  have env: "no_faults (At t n)" "envManifest (At t n) = ceManifest W" for n using c by (simp_all add: connected_def)
  have post: "carried (fst (serve cfg (At t) ?s ?r)) (ceDo W t (Post_call (collect_url c [''uploads'', u, ''ack'']) (kfCollectToken (clKey c))))"
    using c plain_uploads(2) [OF ids(2)] by (simp add: connected_def)
  obtain s' where s: "svDisk s' = d" "authorize cfg (At t) ?s ?r ?i ''collect'' = (Inr b, s')"
      "rpStatus (fst (serve cfg (At t) ?s ?r)) = rpStatus (fst (dispatch cfg (At t) ?s ?r (Ack_of ?i u)))"
    by (rule recipient_served [OF c a recipient_routes(3) [OF ids], of t]) simp_all
  obtain d' where "Acknowledge (At t 3) d b u = (Inr (), d')"
    using Acknowledge_succeeds [OF env(1) b(1) ids(2), of "3" d rc] upload_reads(3) [OF u env] b(2,3) by auto
  then have "rpStatus (fst (serve cfg (At t) ?s ?r)) = 204"
    using s by (simp add: acknowledge_def with_auth_def stored_def writeStatus_def)
  then show ?thesis using post by (auto simp: carried_def)
qed

section \<open>From completion to the recipient's file\<close>

text \<open>The files of a completed upload, on any later disk that has left them alone.\<close>

lemma completed_upload:
  assumes "Complete E d0 i u = (Inr rc, d1)" and "entries_ok dec d0" and "envManifest E = dec" and "get d0 (completePath i u) = None"
    and same: "\<forall>q. prefix (uploadDir i u) q \<longrightarrow> get d q = get d1 q"
    and f: "get d0 (manifestPath i u) = Some (File (Raw raw))" "dec raw = Some m"
      "\<forall>k. 0 \<le> k \<and> k < mfChunkCount m \<longrightarrow> get d0 (chunkPath i u k) = Some (File (Raw (ct k)))"
  shows "upload_on dec d i u raw m ct rc" and "accepted i u m"
    and "rc = receipt_for E d0 i u m raw"
    and "\<forall>k. 0 \<le> k \<and> k < mfChunkCount m \<longrightarrow> int (length (ct k)) = expectedCipherChunkSize m k"
proof -
  obtain m' raw' where c: "readManifest E d0 i u = Inr (m', raw')" "list_all (chunk_present E d0 i u m') (chunk_indices m')"
      "rc = receipt_for E d0 i u m' raw'" "d1 = put d0 (completePath i u) (File (JReceipt rc))"
    by (rule Complete_new [OF assms(1-4)])
  have a: "ValidID i" "ValidID u" "accepted i u m'" "get d0 (manifestPath i u) = Some (File (Raw raw'))"
    by (rule readManifest_accepted [OF c(1) assms(2,3)])+
  have "raw' = raw" using a(4) f(1) by simp
  moreover have "envManifest E raw' = Some m'" by (rule readManifest_Inr [OF c(1)])
  ultimately have eq: "raw' = raw" "m' = m" using f(2) assms(3) by simp_all
  show "accepted i u m" "rc = receipt_for E d0 i u m raw" using a(3) c(3) eq by simp_all
  have sz: "int (length (ct k)) = expectedCipherChunkSize m k" if "0 \<le> k" "k < mfChunkCount m" for k
  proof -
    have "k \<in> set (chunk_indices m)" using that by (auto simp: chunk_indices_def intro: image_eqI [of _ _ "nat k"])
    then have "chunk_present E d0 i u m k" using c(2) eq by (simp add: list_all_iff)
    then show ?thesis using f(3) that by (simp add: chunk_present_def chunk_bytes_def)
  qed
  then show "\<forall>k. 0 \<le> k \<and> k < mfChunkCount m \<longrightarrow> int (length (ct k)) = expectedCipherChunkSize m k" by blast
  have p: "prefix (uploadDir i u) (manifestPath i u)" "prefix (uploadDir i u) (completePath i u)" "prefix (uploadDir i u) (chunkPath i u k)"
    "manifestPath i u \<noteq> completePath i u" "chunkPath i u k \<noteq> completePath i u" for k
    by (simp_all add: upload_file_defs)
  show "upload_on dec d i u raw m ct rc"
    using a(1,2) f p same accepted_shape [OF a(3)] eq c(4) by (simp add: upload_on_def)
qed

text \<open>
  The recipient can open the upload: the opener of the key file decrypts the metadata and every chunk, to a
  plaintext that is shorter by the tag of 16 bytes, as AES-GCM documents.
\<close>

definition opens_upload :: "client_env \<Rightarrow> Client \<Rightarrow> Manifest \<Rightarrow> (int \<Rightarrow> string) \<Rightarrow> (int \<Rightarrow> string) \<Rightarrow> string \<Rightarrow> bool" where
  "opens_upload W c m ct pt name \<longleftrightarrow> (\<exists>op md. NewOpener (cePrimitives W) (clKey c) m = Inr op
     \<and> Metadata (cePrimitives W) op (mfEncryptedMetadata m) = Inr md \<and> valid_utf8 (fmName md) \<and> SafeFilename (fmName md) = Some name
     \<and> (\<forall>k. 0 \<le> k \<and> k < mfChunkCount m \<longrightarrow> Chunk (cePrimitives W) op k (ct k) = Inr (pt k) \<and> length (pt k) + 16 = length (ct k)))"

lemma int_length_concat: "int (length (concat xss)) = sum_list (map (\<lambda>xs. int (length xs)) xss)"
  by (induction xss) simp_all

lemma served_deliverable:
  assumes c: "connected W c cfg At l addr d"
    and a: "\<And>E. no_faults E \<Longrightarrow> Authenticate E d (kfRequestID (clKey c)) (kfCollectToken (clKey c)) ''collect'' = Some b"
    and u: "upload_on (ceManifest W) d (kfRequestID (clKey c)) u raw m ct rc" and acc: "accepted (kfRequestID (clKey c)) u m"
    and sz: "\<forall>k. 0 \<le> k \<and> k < mfChunkCount m \<longrightarrow> int (length (ct k)) = expectedCipherChunkSize m k"
    and rc: "rcRequestID rc = kfRequestID (clKey c)" "rcUploadID rc = u" "rcChunkCount rc = mfChunkCount m" "rcPlainSize rc = mfPlainSize m"
      "rcReceiptSHA256 rc = ReceiptRoot raw (map (\<lambda>k. sha256 (ct k)) (chunk_indices m))"
    and op: "opens_upload W c m ct pt name" and raw: "length raw \<le> 64 * 1024"
    and dir: "temp_free dir disk" "1 \<le> j" "j \<le> maxNameCollisions" "get disk (dir @ [candidate_name name j]) = None"
  shows "deliverable c W rc dir disk raw (map (\<lambda>k. (ct k, pt k)) (chunk_indices m)) name"
proof -
  obtain opener md where o: "NewOpener (cePrimitives W) (clKey c) m = Inr opener" "Metadata (cePrimitives W) opener (mfEncryptedMetadata m) = Inr md"
      "valid_utf8 (fmName md)" "SafeFilename (fmName md) = Some name"
    and ch: "\<And>k. 0 \<le> k \<Longrightarrow> k < mfChunkCount m \<Longrightarrow> Chunk (cePrimitives W) opener k (ct k) = Inr (pt k) \<and> length (pt k) + 16 = length (ct k)"
    using op unfolding opens_upload_def by blast
  have sh: "chunk_shape m" using u by (simp add: upload_on_def)
  then have cs: "0 \<le> mfChunkCount m" "mfChunkSize m < 2 ^ 62" by (simp_all add: chunk_shape_def MaxChunkSize_def)
  have ids: "ValidID u" "ceManifest W raw = Some m" "mfRequestID m = kfRequestID (clKey c)" "mfUploadID m = u"
    using u acc by (auto simp: upload_on_def accepted_def validateManifest_ok)
  have len: "int (length (pt k)) = plain_chunk_size m k" if "0 \<le> k" "k < mfChunkCount m" for k
  proof -
    have "int (length (pt k)) + 16 = int (length (ct k))" using ch [OF that] by (metis of_nat_add of_nat_numeral)
    moreover have "int (length (ct k)) = expectedCipherChunkSize m k" using sz that by blast
    ultimately show ?thesis using expected_size_exact(1) [OF sh that] by linarith
  qed
  have served: "chunk_served c W rc m opener k (ct k, pt k)" if k: "0 \<le> k" "k < mfChunkCount m" for k
    using ch [OF k] upload_answers(2) [OF c a u k] rc(2) len [OF k] sz k expected_size_exact [OF sh k]
    by (simp add: chunk_served_def opens_to_def) (simp add: plain_chunk_size_def)
  have ix: "0 \<le> k" "k < mfChunkCount m" if "k \<in> set (chunk_indices m)" for k using that by (auto simp: chunk_indices_def)
  have "list_all2 (chunk_served c W rc m opener) (chunk_indices m) (map (\<lambda>k. (ct k, pt k)) (chunk_indices m))"
    using served ix by (simp add: list_all2_map2 list.rel_refl_strong)
  moreover have "int (length (concat (map pt (chunk_indices m)))) = mfPlainSize m"
  proof -
    have "map (\<lambda>k. int (length (pt k))) (chunk_indices m) = map (plain_chunk_size m) (chunk_indices m)"
      using len ix by simp
    then have "int (length (concat (map pt (chunk_indices m)))) = sum_list (map (plain_chunk_size m) (chunk_indices m))"
      by (simp only: int_length_concat map_map comp_def)
    then show ?thesis using sum_plain_chunks [OF sh] by (simp only: chunk_indices_def)
  qed
  ultimately show ?thesis
    unfolding deliverable_def using rc ids o cs upload_answers(1) [OF c a u] raw dir
    by (intro exI [of _ m] exI [of _ opener] exI [of _ md] exI [of _ j]) (simp add: chunk_indices_def comp_def)
qed

lemma Authenticate_bundle:
  assumes "Authenticate E d i token kind = Some b" and "entries_ok dec d"
  shows "validateBundle b = Inr ()" and "rbID b = i"
proof -
  have v: "ValidID i" "get d (requestPath i) = Some (File (JBundle b)) \<or> get d (closedRequestPath i) = Some (File (JBundle b))"
    using RequestIncludingClosed_Inr [OF Authenticate_Some(1) [OF assms(1)]] by auto
  then have "bundle_entry i (File (JBundle b))" using bundle_files [OF assms(2) v(1)] by blast
  then show "validateBundle b = Inr ()" "rbID b = i" by (auto simp: bundle_entry_def)
qed

text \<open>C24: A completed upload reaches the recipient: once the server has completed an upload, on any later state of
  its data directory that has left the files of this upload alone, a client whose network reaches the server,
  whose token authenticates and whose key opens the upload collects it: \<open>CollectOne\<close> gives a result without an
  error, is acknowledged, and the concatenated plaintexts of the stored chunks are now a file in the output directory.\<close>

theorem completed_upload_collected:
  assumes "Complete E d0 (kfRequestID (clKey c)) u = (Inr rc, d1)" and "entries_ok (ceManifest W) d0" and "envManifest E = ceManifest W"
    and "get d0 (completePath (kfRequestID (clKey c)) u) = None"
    and "get d0 (manifestPath (kfRequestID (clKey c)) u) = Some (File (Raw raw))" and "ceManifest W raw = Some m" and "length raw \<le> 64 * 1024"
    and "\<forall>k. 0 \<le> k \<and> k < mfChunkCount m \<longrightarrow> get d0 (chunkPath (kfRequestID (clKey c)) u k) = Some (File (Raw (ct k)))"
    and "store_inv (ceManifest W) \<lparr>sysDisk = d, sysHeld = {}\<rparr>"
    and "\<forall>q. prefix (uploadDir (kfRequestID (clKey c)) u) q \<longrightarrow> get d q = get d1 q"
    and "\<forall>E. no_faults E \<longrightarrow> Authenticate E d (kfRequestID (clKey c)) (kfCollectToken (clKey c)) ''collect'' = Some b"
    and "connected W c cfg At l addr d" and "opens_upload W c m ct pt name" and "calm W ctx"
    and "temp_free dir (csDisk st)" and "1 \<le> j" and "j \<le> maxNameCollisions" and "get (csDisk st) (dir @ [candidate_name name j]) = None"
  shows "\<exists>result st' n. CollectOne c W ctx rc dir True st = ((Some result, None), st')
    \<and> get (csDisk st') (dir @ [candidate_name name n]) = Some (File (Raw (concat (map pt (chunk_indices m)))))
    \<and> crPath result = path_string (dir @ [candidate_name name n])"
proof -
  let ?i = "kfRequestID (clKey c)"
  have a: "Authenticate E d ?i (kfCollectToken (clKey c)) ''collect'' = Some b" if "no_faults E" for E
    using assms(11) that by blast
  note cu = completed_upload [OF assms(1-4,10,5,6,8)]
  have rc: "rcRequestID rc = ?i" "rcUploadID rc = u" "rcChunkCount rc = mfChunkCount m" "rcPlainSize rc = mfPlainSize m"
    by (simp_all add: cu(3) receipt_for_def complete_receipt_def)
  have "map (\<lambda>k. the (chunk_bytes E d0 ?i u k)) (chunk_indices m) = map ct (chunk_indices m)"
    using assms(8) by (auto simp: chunk_indices_def chunk_bytes_def)
  then have root: "rcReceiptSHA256 rc = ReceiptRoot raw (map (\<lambda>k. sha256 (ct k)) (chunk_indices m))"
    using assms(8) by (auto simp: cu(3) receipt_for_def complete_receipt_def chunk_digests_def chunk_indices_def chunk_bytes_def
        intro!: arg_cong2 [where f = ReceiptRoot])
  have del: "deliverable c W rc dir (csDisk st) raw (map (\<lambda>k. (ct k, pt k)) (chunk_indices m)) name"
    by (rule served_deliverable [OF assms(12) a cu(1,2,4) rc root assms(13,7,15-18)])
  have inv: "entries_ok (ceManifest W) d" "files.tree d" using assms(9) by (simp_all add: store_inv_def)
  obtain E' where "no_faults E'" using assms(12) by (auto simp: connected_def)
  note b = Authenticate_bundle [OF a [OF this] inv(1)]
  have "get d (manifestPath ?i u) \<noteq> None" using cu(1) by (simp add: upload_on_def)
  then have up: "get d (uploadDir ?i u) = Some Dir" using inv(2) by (auto simp: files.tree_def manifestPath_def)
  have "\<forall>t. \<exists>r. ceDo W t (Post_call (ack_url c rc) (kfCollectToken (clKey c))) = Some r \<and> 200 \<le> ryStatus r \<and> ryStatus r < 300"
    using ack_answered [OF assms(12) a cu(1) b up] rc(2) by fastforce
  moreover have "ceValidURL W (ack_url c rc)" using assms(12) by (simp add: connected_def)
  ultimately obtain result st' n where "CollectOne c W ctx rc dir True st = ((Some result, None), st')"
      "file_saved rc raw (map (\<lambda>k. (ct k, pt k)) (chunk_indices m)) (dir @ [candidate_name name n]) result (csDisk st')"
    using CollectOne_calm [OF assms(14) del] by blast
  then show ?thesis by (intro exI [of _ result] exI [of _ st'] exI [of _ n]) (simp add: file_saved_def comp_def)
qed

section \<open>A network\<close>

text \<open>Every request is served on the completed data directory; the path of its URL is split into segments.\<close>

definition url_parts :: "Client \<Rightarrow> string \<Rightarrow> string list" where
  "url_parts c url = split_on slash (drop (Suc (length (collect_url c []))) url)"

definition answer :: "response \<Rightarrow> reply" where
  "answer p = (reply_with (case rpBody p of BytesBody b \<Rightarrow> b | _ \<Rightarrow> []))\<lparr>ryStatus := int (rpStatus p)\<rparr>"

definition demo_net :: client_env where
  "demo_net = demo_web\<lparr>ceDo := (\<lambda>_ call.
     let (m, url) = (case call of Get_call url _ \<Rightarrow> (''GET'', url) | Post_call url _ \<Rightarrow> (''POST'', url)) in
     Some (answer (fst (serve demo_cfg demo_at \<lparr>svDisk = demo_completed, svLimiter = []\<rparr>
       (recipient_request ''192.0.2.7:1000'' demo_client m (url_parts demo_client url))))))\<rparr>"

lemma split_parts: "plain_parts parts \<Longrightarrow> split_on slash (drop 1 (concat (map (\<lambda>p. slash # p) parts))) = parts"
proof (induction parts)
  case (Cons p ps)
  have "\<not> id_char slash" by code_simp
  then have p: "slash \<notin> set p" using Cons.prems by (auto simp: plain_parts_def list_all_iff)
  show ?case
  proof (cases ps)
    case Nil
    then show ?thesis using p by (simp add: split_on_none)
  next
    case (Cons q qs)
    then have "plain_parts ps" using Cons.prems by (simp add: plain_parts_def)
    then have "split_on slash (drop 1 (concat (map (\<lambda>p. slash # p) ps))) = ps" by (rule Cons.IH)
    then show ?thesis using p by (simp add: local.Cons split_on_append split_on_none)
  qed
qed (simp add: plain_parts_def)

lemma url_parts: "plain_parts parts \<Longrightarrow> url_parts c (collect_url c parts) = parts"
proof -
  assume p: "plain_parts parts"
  have "collect_url c parts = collect_url c [] @ concat (map (\<lambda>p. slash # p) parts)" by (simp add: collect_url_def endpoint_def)
  then have "drop (Suc (length (collect_url c []))) (collect_url c parts) = drop 1 (concat (map (\<lambda>p. slash # p) parts))" by simp
  then show ?thesis using split_parts [OF p] by (simp only: url_parts_def)
qed

lemma carried_answer: "carried p (Some (answer p))"
  by (auto simp: carried_def answer_def reply_with_def)

lemma demo_net_simps [simp]:
  "ceManifest demo_net = demo_dec" "cePrimitives demo_net = demo_opening" "ceValidURL demo_net u"
  by (simp_all add: demo_net_def demo_web_def)

lemma demo_connected: "connected demo_net demo_client demo_cfg (\<lambda>_. demo_at) (\<lambda>_. []) ''192.0.2.7:1000'' demo_completed"
  unfolding connected_def
  by (simp add: carried_answer demo_net_def url_parts demo_web_def)

lemma demo_opens_upload:
  "opens_upload demo_net demo_client demo_manifest (\<lambda>_. demo_chunk) (\<lambda>_. ''xxx'') ''a.txt''"
proof -
  obtain op where op: "NewOpener demo_opening demo_key demo_manifest = Inr op" "Chunk demo_opening op 0 demo_chunk = Inr ''xxx''"
    "Metadata demo_opening op (mfEncryptedMetadata demo_manifest) = Inr \<lparr>fmName = ''a.txt'', fmType = [], fmLastModified = 0\<rparr>"
    using demo_opener by blast
  have "0 \<le> k \<and> k < 1 \<longleftrightarrow> k = 0" for k :: int by auto
  moreover have "length demo_chunk = 19" by (simp add: demo_chunk_def)
  ultimately show ?thesis unfolding opens_upload_def using op demo_name
    by (intro exI [of _ op] exI [of _ "\<lparr>fmName = ''a.txt'', fmType = [], fmLastModified = 0\<rparr>"]) simp
qed

theorem completed_upload_collected_witness:
  "\<exists>result st' n. CollectOne demo_client demo_net demo_ctx demo_receipt [''out''] True demo_home = ((Some result, None), st')
    \<and> get (csDisk st') [''out'', candidate_name ''a.txt'' n] = Some (File (Raw ''xxx''))"
proof -
  have key: "kfRequestID (clKey demo_client) = demo_id" "kfCollectToken (clKey demo_client) = ''collect''"
    by (simp_all add: demo_key_def)
  have inv: "store_inv demo_dec \<lparr>sysDisk = demo_completed, sysHeld = {}\<rparr>"
    using store.run_inv [OF run_sane [OF rtranclp_trans [OF demo_run_ready demo_run_done]] store_inv_empty]
    by (simp add: store_inv_def demo_done_def)
  have auth: "\<forall>E. no_faults E \<longrightarrow> Authenticate E demo_completed demo_id ''collect'' ''collect'' = Some demo_bundle"
    by (simp add: Authenticate_def RequestIncludingClosed_def Request_def readRequestPath_def os_read_file_def no_faults_def
        demo_paths get_def demo_disks HashToken_def hex_decode_sha256)
  have files: "get demo_filled (manifestPath demo_id demo_up) = Some (File (Raw ''{}''))"
    "\<forall>k. 0 \<le> k \<and> k < mfChunkCount demo_manifest \<longrightarrow> get demo_filled (chunkPath demo_id demo_up k) = Some (File (Raw demo_chunk))"
    using demo_chunkPath by (auto simp: demo_paths get_def demo_disks order_le_less)
  have dir: "temp_free [''out''] (csDisk demo_home)" "get (csDisk demo_home) ([''out''] @ [candidate_name ''a.txt'' 1]) = None"
    by (auto simp: temp_free_def demo_home_def get_def prefix_Cons candidate_name_def Let_def)
  have calm: "calm demo_net demo_ctx" using demo_calm by (simp add: demo_net_def calm_def)
  have pt: "concat (map (\<lambda>_. ''xxx'') (chunk_indices demo_manifest)) = ''xxx''" by (simp add: chunk_indices_def)
  show ?thesis
    using completed_upload_collected [where c = demo_client and W = demo_net and d = demo_completed and ct = "\<lambda>_. demo_chunk"
        and pt = "\<lambda>_. ''xxx''" and raw = "''{}''" and m = demo_manifest and j = 1 and dir = "[''out'']" and st = demo_home
        and E = demo_env and u = demo_up and rc = demo_receipt and d0 = demo_filled and ?d1.0 = demo_completed and b = demo_bundle,
        OF _ _ _ _ _ _ _ _ _ _ _ demo_connected demo_opens_upload calm dir(1)]
      demo_complete demo_entries(3) demo_no_receipt files inv auth key dir(2) pt
    by (simp add: maxNameCollisions_def) blast
qed

end
