(* ===== verification/Flags.thy ===== *)
theory Flags
  imports Core
begin

text \<open>
  Package \<open>flag\<close> as the command line uses it: a \<open>FlagSet\<close> that goes on after an error (it returns it), with
  string, boolean, integer, duration and repeated flags. \<open>strconv.ParseInt\<close> and \<open>time.ParseDuration\<close> are
  the fields of a record.
\<close>

section \<open>Values\<close>

datatype flag_value = StringV string | BoolV bool | IntV int64 | DurationV duration | ListV "string list"

text \<open>The flags of a set by name with their current values; the kind of a flag is that of its default.\<close>

type_synonym flags = "(string \<times> flag_value) list"

record parsers =
  paInt :: "string \<Rightarrow> int64 option"
  paDuration :: "string \<Rightarrow> duration option"

datatype flag_error = ErrHelp | BadSyntax string | NotDefined string | NeedsArgument string | InvalidValue string string

definition parse_bool :: "string \<Rightarrow> bool option" where
  "parse_bool s =
     (if s \<in> {''1'', ''t'', ''T'', ''TRUE'', ''true'', ''True''} then Some True
      else if s \<in> {''0'', ''f'', ''F'', ''FALSE'', ''false'', ''False''} then Some False else None)"

text \<open>\<open>Value.Set\<close>; a repeated flag appends (\<open>repeatedStringFlag.Set\<close>).\<close>

fun set_value :: "parsers \<Rightarrow> flag_value \<Rightarrow> string \<Rightarrow> flag_value option" where
  "set_value P (StringV _) s = Some (StringV s)"
| "set_value P (BoolV _) s = map_option BoolV (parse_bool s)"
| "set_value P (IntV _) s = map_option IntV (paInt P s)"
| "set_value P (DurationV _) s = map_option DurationV (paDuration P s)"
| "set_value P (ListV xs) s = Some (ListV (xs @ [s]))"

definition is_bool_flag :: "flag_value \<Rightarrow> bool" where
  "is_bool_flag v = (case v of BoolV _ \<Rightarrow> True | _ \<Rightarrow> False)"

section \<open>Parsing\<close>

text \<open>What an argument is: an operand, the terminator \<open>--\<close>, a malformed flag, or a flag with or without a value.\<close>

datatype flag_token = Operand | Terminator | Malformed | Assign string "string option"

definition flag_token :: "string \<Rightarrow> flag_token" where
  "flag_token s =
     (if length s < 2 \<or> hd s \<noteq> CHR ''-'' then Operand
      else if s = ''--'' then Terminator
      else let name = (if s ! 1 = CHR ''-'' then drop 2 s else drop 1 s) in
        if name = [] \<or> hd name = CHR ''-'' \<or> hd name = CHR ''='' then Malformed
        else let rest = dropWhile (\<lambda>c. c \<noteq> CHR ''='') (tl name) in
          Assign (hd name # takeWhile (\<lambda>c. c \<noteq> CHR ''='') (tl name)) (if rest = [] then None else Some (tl rest)))"

definition set_flag :: "parsers \<Rightarrow> flags \<Rightarrow> string \<Rightarrow> flag_value \<Rightarrow> string \<Rightarrow> flag_error + flags" where
  "set_flag P fs name v s =
     (case set_value P v s of None \<Rightarrow> Inl (InvalidValue s name) | Some w \<Rightarrow> Inr (AList.update name w fs))"

text \<open>The flags with their values, the names that were set, and the operands that are left.\<close>

fun parse_flags :: "parsers \<Rightarrow> flags \<Rightarrow> string list \<Rightarrow> string list \<Rightarrow> flag_error + flags \<times> string list \<times> string list" where
  "parse_flags P fs seen [] = Inr (fs, seen, [])"
| "parse_flags P fs seen (s # args) =
     (case flag_token s of
        Operand \<Rightarrow> Inr (fs, seen, s # args)
      | Terminator \<Rightarrow> Inr (fs, seen, args)
      | Malformed \<Rightarrow> Inl (BadSyntax s)
      | Assign name value \<Rightarrow>
          (case map_of fs name of
             None \<Rightarrow> Inl (if name = ''help'' \<or> name = ''h'' then ErrHelp else NotDefined name)
           | Some v \<Rightarrow>
               (case (value, args) of
                  (Some x, _) \<Rightarrow>
                    (case set_flag P fs name v x of Inl e \<Rightarrow> Inl e | Inr fs \<Rightarrow> parse_flags P fs (name # seen) args)
                | (None, []) \<Rightarrow>
                    if is_bool_flag v
                    then (case set_flag P fs name v ''true'' of Inl e \<Rightarrow> Inl e | Inr fs \<Rightarrow> Inr (fs, name # seen, []))
                    else Inl (NeedsArgument name)
                | (None, x # args') \<Rightarrow>
                    if is_bool_flag v
                    then (case set_flag P fs name v ''true'' of Inl e \<Rightarrow> Inl e | Inr fs \<Rightarrow> parse_flags P fs (name # seen) args)
                    else (case set_flag P fs name v x of Inl e \<Rightarrow> Inl e | Inr fs \<Rightarrow> parse_flags P fs (name # seen) args'))))"

definition string_flag :: "flags \<Rightarrow> string \<Rightarrow> string" where
  "string_flag fs name = (case map_of fs name of Some (StringV s) \<Rightarrow> s | _ \<Rightarrow> [])"

definition bool_flag :: "flags \<Rightarrow> string \<Rightarrow> bool" where
  "bool_flag fs name = (case map_of fs name of Some (BoolV b) \<Rightarrow> b | _ \<Rightarrow> False)"

definition int_flag :: "flags \<Rightarrow> string \<Rightarrow> int64" where
  "int_flag fs name = (case map_of fs name of Some (IntV n) \<Rightarrow> n | _ \<Rightarrow> 0)"

definition duration_flag :: "flags \<Rightarrow> string \<Rightarrow> duration" where
  "duration_flag fs name = (case map_of fs name of Some (DurationV d) \<Rightarrow> d | _ \<Rightarrow> 0)"

definition list_flag :: "flags \<Rightarrow> string \<Rightarrow> string list" where
  "list_flag fs name = (case map_of fs name of Some (ListV xs) \<Rightarrow> xs | _ \<Rightarrow> [])"

lemmas flag_getters = string_flag_def bool_flag_def int_flag_def duration_flag_def list_flag_def

section \<open>Reading back what was written\<close>

text \<open>A flag written as \<open>--name=value\<close>.\<close>

definition flag_arg :: "string \<Rightarrow> string \<Rightarrow> string" where
  "flag_arg name value = ''--'' @ name @ ''='' @ value"

definition plain_name :: "string \<Rightarrow> bool" where
  "plain_name name \<longleftrightarrow> name \<noteq> [] \<and> hd name \<noteq> CHR ''-'' \<and> CHR ''='' \<notin> set name"

lemma flag_token_arg:
  assumes "plain_name name"
  shows "flag_token (flag_arg name value) = Assign name (Some value)"
proof -
  obtain c cs where n: "name = c # cs" "c \<noteq> CHR ''-''" "c \<noteq> CHR ''=''" "CHR ''='' \<notin> set cs"
    using assms by (cases name) (auto simp: plain_name_def)
  have "takeWhile (\<lambda>c. c \<noteq> CHR ''='') (cs @ CHR ''='' # value) = cs"
    "dropWhile (\<lambda>c. c \<noteq> CHR ''='') (cs @ CHR ''='' # value) = CHR ''='' # value"
    using n(4) by (auto simp: takeWhile_append dropWhile_append)
  then show ?thesis using n by (simp add: flag_token_def flag_arg_def Let_def)
qed

lemma parse_flag_arg:
  assumes "plain_name name" and "map_of fs name = Some v" and "set_value P v value = Some w"
  shows "parse_flags P fs seen (flag_arg name value # args) = parse_flags P (AList.update name w fs) (name # seen) args"
  using assms by (simp add: flag_token_arg set_flag_def)

text \<open>A list of written flags sets each of them in turn.\<close>

fun set_all :: "parsers \<Rightarrow> flags \<Rightarrow> (string \<times> string) list \<Rightarrow> flags option" where
  "set_all P fs [] = Some fs"
| "set_all P fs ((name, value) # xs) =
     (case map_of fs name of
        None \<Rightarrow> None
      | Some v \<Rightarrow> (case set_value P v value of None \<Rightarrow> None | Some w \<Rightarrow> set_all P (AList.update name w fs) xs))"

lemma parse_flags_written:
  assumes "list_all (\<lambda>x. plain_name (fst x)) xs" and "set_all P fs xs = Some fs'"
  shows "parse_flags P fs seen (map (\<lambda>x. flag_arg (fst x) (snd x)) xs) = Inr (fs', rev (map fst xs) @ seen, [])"
  using assms
proof (induction xs arbitrary: fs seen)
  case (Cons x xs)
  obtain v w where "map_of fs (fst x) = Some v" "set_value P v (snd x) = Some w" "set_all P (AList.update (fst x) w fs) xs = Some fs'"
    using Cons.prems(2) by (cases x) (auto split: option.splits)
  then show ?case using Cons by (simp add: parse_flag_arg del: parse_flags.simps(2))
qed simp

end
