(* ===== verification/CommandLine.thy ===== *)
theory CommandLine
  imports Flags ServerRuns Collector
begin

text \<open>
  \<open>cmd/opaquedrop/main.go\<close>: the commands of the program over the local files of the user, the data
  directories and the recipient's client, with what they print.
\<close>

section \<open>Environment and state\<close>

text \<open>
  \<open>vStore\<close> is what each call of the store finds, \<open>vClient\<close> the network, clock and disk of the user, \<open>vKey\<close> and
  \<open>vBundle\<close> the strict JSON decoder, \<open>vKeyText\<close> and \<open>vBundleText\<close> are \<open>json.MarshalIndent\<close>, \<open>vPublic\<close> is the
  public key of a private key, \<open>vPath\<close> reads a path of the user relative to the working directory, \<open>vDir\<close>, \<open>vClean\<close> and \<open>vAbs\<close> are those of
  \<open>path/filepath\<close>, \<open>vRFC3339\<close> and \<open>vQuote\<close> print values. While
  the server listens, \<open>vRequests\<close> arrive; \<open>vListenError\<close> is the error it ends with, but for
  \<open>http.ErrServerClosed\<close>.
\<close>

record cli_env =
  vStore :: "nat \<Rightarrow> env"
  vClient :: client_env
  vCtx :: ctx
  vWait :: ctx
  vNow :: time
  vDraws :: draws
  vParseURL :: "string \<Rightarrow> (string \<times> string) option"
  vParsers :: parsers
  vKey :: "string \<Rightarrow> KeyFile option"
  vBundle :: "string \<Rightarrow> RequestBundle option"
  vKeyText :: "KeyFile \<Rightarrow> string option"
  vBundleText :: "RequestBundle \<Rightarrow> string option"
  vPublic :: "string \<Rightarrow> string"
  vPath :: "string \<Rightarrow> path"
  vDir :: "string \<Rightarrow> string"
  vClean :: "string \<Rightarrow> string"
  vAbs :: "string \<Rightarrow> string option"
  vServer :: server_config
  vRequests :: "((nat \<Rightarrow> env) \<times> http_request) list"
  vListenError :: "string option"
  vRFC3339 :: "time \<Rightarrow> string"
  vQuote :: "string \<Rightarrow> string"
  vOutFails :: "nat \<Rightarrow> bool"
  vErrFails :: bool
  vVersion :: string

text \<open>The files of the user and the client's logs, the data directories by name, and what was printed.\<close>

record cli_state =
  cliClient :: client_state
  cliData :: "string \<Rightarrow> disk"
  cliOut :: "string list"

datatype cli_error = EFlag flag_error | EUse string | ECore string | EProxy string | EStore err | EDoctor doctor_error
  | EFile os_error | ELarge | EParse | EClient cerror | EClients "cerror list" | EJoin "cerror list" cli_error | EKey string | EPrint
  | EListen string | EPrivateKey cli_error | EPublicBundle cli_error | EImport cli_error | EMarshal

type_synonym 'a cli = "cli_state \<Rightarrow> (cli_error + 'a) \<times> cli_state"

text \<open>\<open>fmt.Fprint\<close> to the standard output, and the calls that ignore its error.\<close>

definition fprint :: "cli_env \<Rightarrow> string \<Rightarrow> unit cli" where
  "fprint V s st =
     (if vOutFails V (length (cliOut st)) then (Inl EPrint, st) else (Inr (), st\<lparr>cliOut := cliOut st @ [s]\<rparr>))"

definition print :: "cli_env \<Rightarrow> string \<Rightarrow> cli_state \<Rightarrow> cli_state" where
  "print V s st = snd (fprint V s st)"

fun print_all :: "cli_env \<Rightarrow> string list \<Rightarrow> cli_state \<Rightarrow> cli_state" where
  "print_all V [] st = st"
| "print_all V (s # ss) st = print_all V ss (print V s st)"

text \<open>\<open>fmt.Println\<close> puts a space between its operands.\<close>

definition println :: "cli_env \<Rightarrow> string list \<Rightarrow> cli_state \<Rightarrow> cli_state" where
  "println V xs st = print V (join_with CHR '' '' xs @ [newline]) st"

definition failing :: "('a \<Rightarrow> cli_error) \<Rightarrow> 'a + 'b \<Rightarrow> 'b cli" where
  "failing f r st = (case r of Inl e \<Rightarrow> (Inl (f e), st) | Inr x \<Rightarrow> (Inr x, st))"

definition wrapping :: "(cli_error \<Rightarrow> cli_error) \<Rightarrow> (cli_error + 'a) \<times> cli_state \<Rightarrow> (cli_error + 'a) \<times> cli_state" where
  "wrapping f r = (case r of (Inl e, st) \<Rightarrow> (Inl (f e), st) | (Inr x, st) \<Rightarrow> (Inr x, st))"

text \<open>A call on the files of the user; a call of the store on a data directory.\<close>

definition on_file :: "cli_env \<Rightarrow> (env \<Rightarrow> disk \<Rightarrow> (os_error + 'a) \<times> disk) \<Rightarrow> 'a cli" where
  "on_file V f st =
     (case on_disk (vClient V) f (cliClient st) of
        (Inl e, c) \<Rightarrow> (Inl (EFile e), st\<lparr>cliClient := c\<rparr>) | (Inr x, c) \<Rightarrow> (Inr x, st\<lparr>cliClient := c\<rparr>))"

definition on_data :: "string \<Rightarrow> (disk \<Rightarrow> (err + 'a) \<times> disk) \<Rightarrow> 'a cli" where
  "on_data data f st =
     (case f (cliData st data) of (r, d) \<Rightarrow> failing EStore r (st\<lparr>cliData := (cliData st)(data := d)\<rparr>))"

definition parse_args :: "cli_env \<Rightarrow> flags \<Rightarrow> string list \<Rightarrow> (flags \<times> string list) cli" where
  "parse_args V fs args = failing EFlag (case parse_flags (vParsers V) fs [] args of Inl e \<Rightarrow> Inl e | Inr (fs, seen, _) \<Rightarrow> Inr (fs, seen))"

section \<open>Files\<close>

text \<open>An error of creating the directory counts unless it is the working directory.\<close>

definition make_parent :: "cli_env \<Rightarrow> string \<Rightarrow> unit cli" where
  "make_parent V file st =
     (case on_file V (\<lambda>E d. os_mkdir_all E d (vPath V (vDir V file))) st of
        (Inl e, st) \<Rightarrow> (if vDir V file \<noteq> ''.'' then Inl e else Inr (), st)
      | (Inr _, st) \<Rightarrow> (Inr (), st))"

definition writeNewFile :: "cli_env \<Rightarrow> string \<Rightarrow> string \<Rightarrow> unit cli" where
  "writeNewFile V file data st =
     (let p = vPath V file in
      and_then (make_parent V file st) (\<lambda>_ st.
      and_then (on_file V (\<lambda>E d. os_create_temp E d p) st) (\<lambda>_ st.
        case and_then (on_file V (\<lambda>E d. os_append E d p data) st) (\<lambda>_ st.
             and_then (on_file V (\<lambda>E d. os_sync E d p) st) (\<lambda>_ st. on_file V (\<lambda>E d. os_sync E d p) st)) of
          (Inl e, st) \<Rightarrow> (Inl e, snd (on_file V (\<lambda>E d. os_remove E d p) st))
        | (Inr _, st) \<Rightarrow> (Inr (), st))))"

definition byte_order_mark :: string where
  "byte_order_mark = [CHR 0xEF, CHR 0xBB, CHR 0xBF]"

definition readJSON :: "cli_env \<Rightarrow> (string \<Rightarrow> 'a option) \<Rightarrow> string \<Rightarrow> 'a cli" where
  "readJSON V decode file st =
     and_then (on_file V (\<lambda>E d. (map_sum id (content_bytes E) (os_read_file E d (vPath V file)), d)) st) (\<lambda>b st.
       if length b > 2 ^ 20 then (Inl ELarge, st)
       else case decode (trim_prefix byte_order_mark b) of None \<Rightarrow> (Inl EParse, st) | Some x \<Rightarrow> (Inr x, st))"

definition check_key :: "cli_env \<Rightarrow> KeyFile \<Rightarrow> string + KeyFile" where
  "check_key V key =
     (if kfSchemaVersion key \<noteq> SchemaVersion \<or> \<not> ValidID (kfRequestID key) \<or> kfCollectToken key = [] \<or> kfServerURL key = []
      then Inl ''private key file is invalid''
      else case b64_decode (kfPrivateKey key) of
        None \<Rightarrow> Inl ''private key encoding is invalid''
      | Some privateBytes \<Rightarrow>
          if \<not> NewPrivateKey_ok privateBytes then Inl ''private key is invalid''
          else if b64_encode (vPublic V privateBytes) \<noteq> kfPublicKey key then Inl ''private and public keys do not match''
          else Inr key)"

definition loadKey :: "cli_env \<Rightarrow> string \<Rightarrow> KeyFile cli" where
  "loadKey V file st = and_then (readJSON V (vKey V) file st) (\<lambda>key. failing EKey (check_key V key))"

definition absolute :: "cli_env \<Rightarrow> string \<Rightarrow> string" where
  "absolute V file = (case vAbs V file of None \<Rightarrow> file | Some full \<Rightarrow> full)"

section \<open>Requests\<close>

abbreviation data_flag :: "string \<times> flag_value" where
  "data_flag \<equiv> (''data'', StringV ''opaquedrop-data'')"

text \<open>\<open>store.New\<close> cleans the name of the directory.\<close>

definition data_dir :: "cli_env \<Rightarrow> flags \<Rightarrow> string" where
  "data_dir V fs = vClean V (string_flag fs ''data'')"

definition initCommand :: "cli_env \<Rightarrow> string list \<Rightarrow> unit cli" where
  "initCommand V args st =
     and_then (parse_args V [data_flag] args st) (\<lambda>(fs, seen) st.
     and_then (on_data (data_dir V fs) (Init (vStore V 0)) st) (\<lambda>_ st.
       (Inr (), println V [''Initialized OpaqueDrop data directory:'',
         case vAbs V (string_flag fs ''data'') of None \<Rightarrow> [] | Some full \<Rightarrow> full] st)))"

definition make_flags :: flags where
  "make_flags = [(''base-url'', StringV []), (''label'', StringV []), (''expires'', DurationV (86400 * nanos_per_second)),
     (''max-files'', IntV 10), (''max-bytes'', StringV ''2GiB''), (''delete-after-collect'', BoolV False),
     (''bundle-out'', StringV []), (''key-out'', StringV []), data_flag]"

definition make_request :: "cli_env \<Rightarrow> flags \<Rightarrow> (RequestBundle \<times> KeyFile) cli" where
  "make_request V fs st =
     and_then (failing ECore (ParseBytes (string_flag fs ''max-bytes'')) st) (\<lambda>maxBytes.
       failing ECore (MakeRequest (vParseURL V) (vDraws V) (string_flag fs ''base-url'') (string_flag fs ''label'') (vNow V)
         (time_add (vNow V) (duration_flag fs ''expires'')) (int_flag fs ''max-files'') maxBytes (bool_flag fs ''delete-after-collect'')))"

definition out_path :: "flags \<Rightarrow> string \<Rightarrow> string \<Rightarrow> string \<Rightarrow> string" where
  "out_path fs name i ext =
     (if string_flag fs name = [] then ''opaquedrop-'' @ i @ ext else string_flag fs name)"

text \<open>\<open>core.MarshalPretty\<close> ends the text of \<open>json.MarshalIndent\<close> with a line feed.\<close>

definition MarshalPretty :: "('a \<Rightarrow> string option) \<Rightarrow> 'a \<Rightarrow> string option" where
  "MarshalPretty indent v = (case indent v of None \<Rightarrow> None | Some b \<Rightarrow> Some (b @ [newline]))"

definition marshal :: "('a \<Rightarrow> string option) \<Rightarrow> 'a \<Rightarrow> string cli" where
  "marshal indent x st = (case MarshalPretty indent x of None \<Rightarrow> (Inl EMarshal, st) | Some s \<Rightarrow> (Inr s, st))"

text \<open>The key file comes first, then the bundle, then the import.\<close>

definition save_request :: "cli_env \<Rightarrow> flags \<Rightarrow> bool \<Rightarrow> RequestBundle \<Rightarrow> KeyFile \<Rightarrow> unit cli" where
  "save_request V fs importToStore bundle key st =
     and_then (marshal (vKeyText V) key st) (\<lambda>keyBytes st.
     and_then (wrapping EPrivateKey (writeNewFile V (out_path fs ''key-out'' (rbID bundle) ''.key.json'') keyBytes st)) (\<lambda>_ st.
     and_then (marshal (vBundleText V) bundle st) (\<lambda>bundleBytes st.
     and_then (wrapping EPublicBundle (writeNewFile V (out_path fs ''bundle-out'' (rbID bundle) ''.bundle.json'') bundleBytes st)) (\<lambda>_ st.
       if importToStore then wrapping EImport (on_data (data_dir V fs) (\<lambda>d. ImportRequest (vStore V 0) d bundle) st)
       else (Inr (), st)))))"

definition make_report :: "cli_env \<Rightarrow> flags \<Rightarrow> bool \<Rightarrow> RequestBundle \<Rightarrow> KeyFile \<Rightarrow> string list" where
  "make_report V fs importToStore bundle key =
     [''Request ID:    '' @ rbID bundle @ [newline], ''Upload link:   '' @ kfSubmitURL key @ [newline],
      ''Public bundle: '' @ absolute V (out_path fs ''bundle-out'' (rbID bundle) ''.bundle.json'') @ [newline],
      ''Private key:   '' @ absolute V (out_path fs ''key-out'' (rbID bundle) ''.key.json'') @ [newline]]
     @ (if importToStore then [''Server data:   '' @ absolute V (string_flag fs ''data'') @ [newline]] else [])
     @ [''Keep the private key off the server if the host administrator must remain unable to decrypt submissions.'' @ [newline]]"

definition requestMake :: "cli_env \<Rightarrow> string list \<Rightarrow> bool \<Rightarrow> unit cli" where
  "requestMake V args importToStore st =
     and_then (parse_args V make_flags args st) (\<lambda>(fs, seen) st.
     and_then (make_request V fs st) (\<lambda>(bundle, key) st.
     and_then (save_request V fs importToStore bundle key st) (\<lambda>_ st.
       (Inr (), print_all V (make_report V fs importToStore bundle key) st))))"

definition requestImport :: "cli_env \<Rightarrow> string list \<Rightarrow> unit cli" where
  "requestImport V args st =
     and_then (parse_args V [data_flag, (''bundle'', StringV [])] args st) (\<lambda>(fs, seen) st.
       if string_flag fs ''bundle'' = [] then (Inl (EUse ''--bundle is required''), st)
       else and_then (readJSON V (vBundle V) (string_flag fs ''bundle'') st) (\<lambda>bundle st.
         and_then (on_data (data_dir V fs) (\<lambda>d. ImportRequest (vStore V 0) d bundle) st) (\<lambda>_ st.
           (Inr (), print V (''Imported request '' @ rbID bundle @ '' into '' @ absolute V (string_flag fs ''data'') @ [newline]) st))))"

text \<open>A call of the recipient's client.\<close>

definition on_client :: "(client_state \<Rightarrow> (cerror + 'a) \<times> client_state) \<Rightarrow> 'a cli" where
  "on_client f st = (case f (cliClient st) of (r, c) \<Rightarrow> failing EClient r (st\<lparr>cliClient := c\<rparr>))"

definition close_report :: "cli_env \<Rightarrow> RequestClosure \<Rightarrow> string list" where
  "close_report V closure =
     [''Closed request '' @ clRequestID closure @ '' at '' @ vRFC3339 V (clClosedAt closure) @ ''.'' @ [newline],
      ''This cannot be reopened. New submissions are refused; completed submissions remain available to collect, and incomplete submissions cannot continue.'' @ [newline]]"

definition requestClose :: "cli_env \<Rightarrow> string list \<Rightarrow> unit cli" where
  "requestClose V args st =
     and_then (parse_args V [(''key'', StringV [])] args st) (\<lambda>(fs, seen) st.
       if string_flag fs ''key'' = [] then (Inl (EUse ''--key is required''), st)
       else and_then (loadKey V (string_flag fs ''key'') st) (\<lambda>key st.
         and_then (on_client (client_CloseRequest (New key) (vClient V)) st) (\<lambda>closure st.
           (Inr (), print_all V (close_report V closure) st))))"

definition requestCommand :: "cli_env \<Rightarrow> string list \<Rightarrow> unit cli" where
  "requestCommand V args st =
     (case args of
        [] \<Rightarrow> (Inl (EUse ''request requires make, import, create, or close''), st)
      | a # args \<Rightarrow>
          if a = ''make'' then requestMake V args False st
          else if a = ''create'' then requestMake V args True st
          else if a = ''import'' then requestImport V args st
          else if a = ''close'' then requestClose V args st
          else (Inl (EUse (''unknown request command '' @ vQuote V a)), st))"

section \<open>The server's side\<close>

text \<open>\<open>server.New\<close> with its options: no trusted proxies but those of an option, an empty table of failures.\<close>

definition WithTrustedProxies :: "Prefix list \<Rightarrow> server_config \<Rightarrow> server_config" where
  "WithTrustedProxies trusted cfg = cfg\<lparr>scClientIPs := newClientIPResolver trusted\<rparr>"

definition New_server :: "server_config \<Rightarrow> disk \<Rightarrow> (server_config \<Rightarrow> server_config) list \<Rightarrow> server_config \<times> server" where
  "New_server cfg d options =
     (foldl (\<lambda>c option. option c) (cfg\<lparr>scClientIPs := newClientIPResolver []\<rparr>) options, \<lparr>svDisk = d, svLimiter = newFailureLimiter\<rparr>)"

text \<open>Listening ends with an error of the listener; the requests that came before it were served in turn.\<close>

definition serveCommand :: "cli_env \<Rightarrow> string list \<Rightarrow> unit cli" where
  "serveCommand V args st =
     and_then (parse_args V [data_flag, (''listen'', StringV ''127.0.0.1:8080''), (''trusted-proxy'', ListV [])] args st) (\<lambda>(fs, seen) st.
     and_then (failing EProxy (ParseTrustedProxies (list_flag fs ''trusted-proxy'')) st) (\<lambda>trusted st.
       let data = data_dir V fs in
       and_then (on_data data (Init (vStore V 0)) st) (\<lambda>_ st.
         case Doctor (vStore V 1) (cliData st data) of
           (_, Some e) \<Rightarrow> (Inl (EDoctor e), st)
         | (_, None) \<Rightarrow>
             let (cfg, s) = New_server (vServer V) (cliData st data) [WithTrustedProxies trusted];
                 s = snd (serve_run cfg (vRequests V) s);
                 st = st\<lparr>cliData := (cliData st)(data := svDisk s)\<rparr>
             in (case vListenError V of None \<Rightarrow> Inr () | Some e \<Rightarrow> Inl (EListen e), st))))"

definition doctorCommand :: "cli_env \<Rightarrow> string list \<Rightarrow> unit cli" where
  "doctorCommand V args st =
     and_then (parse_args V [data_flag] args st) (\<lambda>(fs, seen) st.
       case Doctor (vStore V 0) (cliData st (data_dir V fs)) of (checks, err) \<Rightarrow>
         let st = print_all V (map (\<lambda>check. ''ok   '' @ check @ [newline]) checks) st in
         case err of
           Some e \<Rightarrow> (Inl (EDoctor e), st)
         | None \<Rightarrow> (Inr (), print V (''ok   OpaqueDrop data directory is ready'' @ [newline]) st))"

definition purgeCommand :: "cli_env \<Rightarrow> string list \<Rightarrow> unit cli" where
  "purgeCommand V args st =
     and_then (parse_args V [data_flag, (''apply'', BoolV False), (''stale-incomplete'', DurationV (86400 * nanos_per_second))] args st) (\<lambda>(fs, seen) st.
       let data = data_dir V fs; apply_it = bool_flag fs ''apply'' in
       case Purge (vStore V 0) (cliData st data) apply_it (duration_flag fs ''stale-incomplete'') of ((result, err), d) \<Rightarrow>
         let st = st\<lparr>cliData := (cliData st)(data := d)\<rparr> in
         case err of
           Some e \<Rightarrow> (Inl (EStore e), st)
         | None \<Rightarrow> (Inr (), print_all V
             ([(if apply_it then ''Removed'' else ''Would remove'') @ '' '' @ nat_str (length (prUploadDirs result))
                 @ '' upload directories ('' @ int_str (prBytes result) @ '' bytes).'' @ [newline]]
              @ map (\<lambda>p. ''  '' @ path_string (data # p) @ [newline]) (prUploadDirs result)
              @ (if \<not> apply_it \<and> prUploadDirs result \<noteq> []
                 then [''Dry run only. Re-run with --apply to delete these ciphertext directories.'' @ [newline]] else []))
             st))"

section \<open>Collecting\<close>

definition DefaultPollInterval :: duration where "DefaultPollInterval = 5 * nanos_per_second"

definition collect_flags :: flags where
  "collect_flags = [(''key'', StringV []), (''out'', StringV ''received''), (''no-ack'', BoolV False), (''fail-fast'', BoolV False),
     (''list'', BoolV False), (''all'', BoolV False), (''read-retries'', IntV DefaultReadRetries), (''wait'', DurationV 0),
     (''poll-interval'', DurationV DefaultPollInterval), (''upload'', ListV [])]"

text \<open>The checks of \<open>collectCommand\<close> before it reads the key file.\<close>

definition check_collect :: "flags \<Rightarrow> string list \<Rightarrow> string + unit" where
  "check_collect fs seen =
     (let wait = duration_flag fs ''wait''; poll = duration_flag fs ''poll-interval'' in
      if int_flag fs ''read-retries'' < 0 \<or> int_flag fs ''read-retries'' > MaxReadRetries
      then Inl ''--read-retries must be between 0 and 10''
      else if wait < 0 \<or> wait > MaxWaitTimeout then Inl ''--wait must be between 0 and 24h0m0s''
      else if poll < MinPollInterval \<or> poll > MaxPollInterval then Inl ''--poll-interval must be between 1s and 5m0s''
      else if wait = 0 \<and> ''poll-interval'' \<in> set seen then Inl ''--poll-interval requires a positive --wait duration''
      else if bool_flag fs ''all'' \<and> \<not> bool_flag fs ''list'' then Inl ''--all requires --list''
      else if \<not> list_all ValidID (list_flag fs ''upload'') then Inl ''invalid upload ID''
      else if string_flag fs ''key'' = [] then Inl ''--key is required''
      else Inr ())"

definition inspection_text :: "cli_env \<Rightarrow> Inspection \<Rightarrow> string" where
  "inspection_text V i =
     ''Upload '' @ isUploadID i @ [newline]
       @ ''  state: '' @ (if isAcknowledged i then ''acknowledged'' else ''pending'') @ [newline]
       @ ''  completed: '' @ vRFC3339 V (isCompletedAt i) @ [newline]
       @ ''  bytes: '' @ int_str (isPlainBytes i) @ [newline]
       @ ''  name: '' @ (if isMetadataVerified i then vQuote V (isName i) else isName i) @ [newline]"

fun writeInspections :: "cli_env \<Rightarrow> Inspection list \<Rightarrow> unit cli" where
  "writeInspections V [] st = (Inr (), st)"
| "writeInspections V (i # is) st = and_then (fprint V (inspection_text V i) st) (\<lambda>_. writeInspections V is)"

definition result_text :: "CollectResult \<Rightarrow> string" where
  "result_text r =
     ''Collected '' @ crUploadID r @ [newline] @ ''  path: '' @ crPath r @ [newline]
       @ ''  bytes: '' @ int_str (crPlainBytes r) @ [newline] @ ''  plaintext sha256: '' @ crPlainSHA256 r @ [newline]
       @ ''  receipt sha256:   '' @ crReceiptSHA256 r @ [newline]"

text \<open>\<open>errors.Join\<close>: no error when there is none to join.\<close>

definition joined :: "cerror list \<Rightarrow> cli_error + unit" where
  "joined es = (if es = [] then Inr () else Inl (EClients es))"

text \<open>The list of submissions; errors of the client are joined with one of printing.\<close>

definition print_list :: "cli_env \<Rightarrow> bool \<Rightarrow> Inspection list \<times> cerror list \<Rightarrow> unit cli" where
  "print_list V everything r st =
     (case r of (inspections, failures) \<Rightarrow>
        let (out, st) = and_then
              (if inspections = [] \<and> failures = []
               then fprint V ((if everything then ''No completed submissions.'' else ''No unacknowledged submissions.'') @ [newline]) st
               else (Inr (), st))
              (\<lambda>_. writeInspections V inspections)
        in (case out of
              Inl e \<Rightarrow> Inl (if failures = [] then e else EJoin failures e)
            | Inr _ \<Rightarrow> joined failures, st))"

definition collect_with :: "cli_env \<Rightarrow> flags \<Rightarrow> KeyFile \<Rightarrow> cli_state \<Rightarrow> ((cli_error + unit) \<times> cli_state) option" where
  "collect_with V fs key st =
     (let c = (New key)\<lparr>clReadRetries := int_flag fs ''read-retries''\<rparr>;
          wait = duration_flag fs ''wait''; poll = duration_flag fs ''poll-interval''
      in if bool_flag fs ''list'' then
        (case Inspect c (vClient V) (vCtx V) (vWait V) \<lparr>ioUploadIDs = list_flag fs ''upload'',
            ioIncludeAcknowledged = bool_flag fs ''all'', ioFailFast = bool_flag fs ''fail-fast'', ioWaitTimeout = wait,
            ioPollInterval = poll\<rparr> (cliClient st) of
           None \<Rightarrow> None
         | Some (r, cl) \<Rightarrow> Some (print_list V (bool_flag fs ''all'') r (st\<lparr>cliClient := cl\<rparr>)))
      else
        (case Collect c (vClient V) (vCtx V) (vWait V) (vPath V (string_flag fs ''out'')) \<lparr>coAcknowledge = \<not> bool_flag fs ''no-ack'',
            coUploadIDs = list_flag fs ''upload'', coFailFast = bool_flag fs ''fail-fast'', coWaitTimeout = wait,
            coPollInterval = poll\<rparr> (cliClient st) of
           None \<Rightarrow> None
         | Some ((results, failures), cl) \<Rightarrow>
             Some (joined failures, print_all V
               ((if results = [] \<and> failures = [] then [''No unacknowledged submissions.'' @ [newline]] else []) @ map result_text results)
               (st\<lparr>cliClient := cl\<rparr>))))"

text \<open>The notice about waiting goes to the standard error; its failure ends the command.\<close>

definition collectCommand :: "cli_env \<Rightarrow> string list \<Rightarrow> cli_state \<Rightarrow> ((cli_error + unit) \<times> cli_state) option" where
  "collectCommand V args st =
     (case parse_args V collect_flags args st of
        (Inl e, st) \<Rightarrow> Some (Inl e, st)
      | (Inr (fs, seen), st) \<Rightarrow>
          (case check_collect fs seen of
             Inl e \<Rightarrow> Some (Inl (EUse e), st)
           | Inr _ \<Rightarrow>
               (case loadKey V (string_flag fs ''key'') st of
                  (Inl e, st) \<Rightarrow> Some (Inl e, st)
                | (Inr key, st) \<Rightarrow>
                    if duration_flag fs ''wait'' > 0 \<and> vErrFails V then Some (Inl EPrint, st)
                    else collect_with V fs key st)))"

section \<open>The program\<close>

definition usage_lines :: "string list" where
  "usage_lines =
    [''OpaqueDrop '' @ [CHR 0xE2, CHR 0x80, CHR 0x94] @ '' server-blind inbound file requests'', [],
     ''Usage:'',
     ''  opaquedrop init --data DIR'',
     ''  opaquedrop request make --base-url URL --label TEXT [options]'',
     ''  opaquedrop request import --data DIR --bundle FILE'',
     ''  opaquedrop request create --data DIR --base-url URL --label TEXT [options]'',
     ''  opaquedrop request close --key FILE'',
     ''  opaquedrop serve --data DIR [--listen 127.0.0.1:8080] [--trusted-proxy IP_OR_CIDR]'',
     ''  opaquedrop collect --key FILE --out DIR [--upload ID] [--wait DURATION] [--poll-interval DURATION] [--fail-fast] [--read-retries N]'',
     ''  opaquedrop collect --key FILE --list [--all] [--upload ID] [--wait DURATION] [--poll-interval DURATION] [--fail-fast] [--read-retries N]'',
     ''  opaquedrop doctor --data DIR'',
     ''  opaquedrop purge --data DIR [--apply]'',
     ''  opaquedrop version'']"

definition usage_command :: "cli_env \<Rightarrow> cli_state \<Rightarrow> cli_state" where
  "usage_command V st = print V (concat (map (\<lambda>l. l @ [newline]) usage_lines)) st"

definition run :: "cli_env \<Rightarrow> string list \<Rightarrow> cli_state \<Rightarrow> ((cli_error + unit) \<times> cli_state) option" where
  "run V args st =
     (case args of
        [] \<Rightarrow> Some (Inl (EUse ''a command is required''), usage_command V st)
      | a # args \<Rightarrow>
          if a = ''init'' then Some (initCommand V args st)
          else if a = ''request'' then Some (requestCommand V args st)
          else if a = ''serve'' then Some (serveCommand V args st)
          else if a = ''collect'' then collectCommand V args st
          else if a = ''doctor'' then Some (doctorCommand V args st)
          else if a = ''purge'' then Some (purgeCommand V args st)
          else if a \<in> {''version'', ''--version'', ''-version''} then Some (Inr (), print V (''opaquedrop '' @ vVersion V @ [newline]) st)
          else if a \<in> {''help'', ''--help'', ''-h''} then Some (Inr (), usage_command V st)
          else Some (Inl (EUse (''unknown command '' @ vQuote V a)), usage_command V st))"

text \<open>The exit status of \<open>main\<close>.\<close>

definition exit_status :: "cli_error + unit \<Rightarrow> int" where
  "exit_status r = (case r of Inl e \<Rightarrow> 1 | Inr _ \<Rightarrow> 0)"

end
