(* ===== verification/CommandRuns.thy ===== *)
theory CommandRuns
  imports CommandLine CollectorRuns
begin

text \<open>
  What the commands do to the files of the user and to the data directories: files are only added, and a
  data directory changes by steps of the store.
\<close>

section \<open>Steps\<close>

text \<open>A run of the store's steps from any set of held bundles.\<close>

definition store_run :: "(env \<Rightarrow> bool) \<Rightarrow> disk \<Rightarrow> disk \<Rightarrow> bool" where
  "store_run P d d' \<longleftrightarrow> (\<forall>H. \<exists>H'. H \<subseteq> H' \<and> (store_step P)\<^sup>*\<^sup>* \<lparr>sysDisk = d, sysHeld = H\<rparr> \<lparr>sysDisk = d', sysHeld = H'\<rparr>)"

interpretation store_run: step_relation "store_run P"
proof
  show "store_run P d d" for d by (auto simp: store_run_def)
  show "store_run P d d'' " if "store_run P d d'" "store_run P d' d''" for d d' d''
    using that unfolding store_run_def by (meson order_trans rtranclp_trans)
qed

lemma store_run_one:
  assumes "\<And>H. store_step P \<lparr>sysDisk = d, sysHeld = H\<rparr> \<lparr>sysDisk = d', sysHeld = H\<rparr>"
  shows "store_run P d d'"
  using assms unfolding store_run_def by blast

lemma store_run_calls:
  assumes "P E"
  shows "store_run P d (snd (Init E d))" and "store_run P d (snd (ImportRequest E d b))"
    and "store_run P d (snd (Purge E d apply_it stale))"
proof -
  have s: "store_run P d d'" if "\<And>s. sysDisk s = d \<Longrightarrow> store_step P s (s\<lparr>sysDisk := d'\<rparr>)" for d'
    by (rule store_run_one) (use that [of "\<lparr>sysDisk = d, sysHeld = _\<rparr>"] in simp)
  show "store_run P d (snd (Init E d))"
    by (rule s) (use store_step.init [where P = P, OF assms] in auto)
  show "store_run P d (snd (ImportRequest E d b))"
    by (rule s) (use store_step.import_request [where P = P, OF assms] in auto)
  show "store_run P d (snd (Purge E d apply_it stale))"
    by (rule s) (use store_step.purge [where P = P, OF assms] in auto)
qed

text \<open>The names that the probe of hard links takes away, in any directory.\<close>

definition probe_names :: "path set" where
  "probe_names = (\<Union>dir. probe_links dir)"

text \<open>What every command keeps: the files of the user but the probe names, and the data directories up to runs.\<close>

definition kept :: "(env \<Rightarrow> bool) \<Rightarrow> cli_state \<Rightarrow> cli_state \<Rightarrow> bool" where
  "kept P st st' \<longleftrightarrow> spares probe_names (csDisk (cliClient st)) (csDisk (cliClient st'))
     \<and> (\<forall>data. store_run P (cliData st data) (cliData st' data))"

interpretation kept: step_relation "kept P"
proof
  show "kept P st st" for st by (simp add: kept_def store_run.refl)
  show "kept P st st2" if "kept P st st1" "kept P st1 st2" for st st1 st2
    using that unfolding kept_def spares_def by (blast intro: store_run.trans)
qed

lemmas kept_refl [simp] = kept.refl

section \<open>What the parts keep\<close>

lemma snd_failing [simp]: "snd (failing f r st) = st"
  by (simp add: failing_def split: sum.split)

lemma snd_wrapping [simp]: "snd (wrapping f r) = snd r"
  by (auto simp: wrapping_def split: prod.split sum.split)

lemma snd_marshal [simp]: "snd (marshal f x st) = st"
  by (simp add: marshal_def split: option.split)

lemma snd_parse_args [simp]: "snd (parse_args V fs args st) = st"
  by (simp add: parse_args_def)

lemma printed_state [simp]: "cliClient (snd (fprint V s st)) = cliClient st" "cliData (snd (fprint V s st)) = cliData st"
  "cliClient (print V s st) = cliClient st" "cliData (print V s st) = cliData st"
  "cliClient (println V xs st) = cliClient st" "cliData (println V xs st) = cliData st"
  by (simp_all add: fprint_def print_def println_def)

lemma printed_all_state [simp]: "cliClient (print_all V ss st) = cliClient st" "cliData (print_all V ss st) = cliData st"
  by (induction V ss st rule: print_all.induct) simp_all

lemma on_file_state:
  "cliClient (snd (on_file V f st)) = snd (on_disk (vClient V) f (cliClient st))" "cliData (snd (on_file V f st)) = cliData st"
  by (auto simp: on_file_def split: prod.split sum.split)

lemma on_data_state:
  "cliClient (snd (on_data data f st)) = cliClient st"
  "cliData (snd (on_data data f st)) = (cliData st)(data := snd (f (cliData st data)))"
  by (simp_all add: on_data_def split: prod.split)

lemma on_client_state:
  "cliClient (snd (on_client f st)) = snd (f (cliClient st))" "cliData (snd (on_client f st)) = cliData st"
  by (simp_all add: on_client_def split: prod.split)

lemma kept_out [simp]: "kept P st (print V s st')  = kept P st st'" "kept P st (println V xs st') = kept P st st'"
  "kept P st (print_all V ss st') = kept P st st'" "kept P st (snd (fprint V s st')) = kept P st st'"
  by (simp_all add: kept_def)

lemma kept_data:
  assumes "store_run P (cliData st data) (snd (f (cliData st data)))"
  shows "kept P st (snd (on_data data f st))"
  using assms store_run.refl [of P] by (simp add: kept_def on_data_state)

text \<open>A chain of calls on files that spares what was there at its start.\<close>

definition spared :: "path set \<Rightarrow> disk \<Rightarrow> (string \<Rightarrow> disk) \<Rightarrow> cli_state \<Rightarrow> bool" where
  "spared X d0 D st \<longleftrightarrow> spares X d0 (csDisk (cliClient st)) \<and> cliData st = D"

lemma spared_and_then:
  assumes "spared X d0 D (snd r)" and "\<And>x t. r = (Inr x, t) \<Longrightarrow> spared X d0 D t \<Longrightarrow> spared X d0 D (snd (f x t))"
  shows "spared X d0 D (snd (and_then r f))"
  using assms by (cases r) (auto simp: and_then_def split: sum.split)

lemma spared_file:
  assumes "spared X d0 D st" and "\<And>E. spares X d0 (snd (f E (csDisk (cliClient st))))"
  shows "spared X d0 D (snd (on_file V f st))"
  using assms by (simp add: spared_def on_file_state on_disk_state)

lemma make_parent_spared: "spared X d0 D st \<Longrightarrow> spared X d0 D (snd (make_parent V f st))"
  using spared_file [of X d0 D st "\<lambda>E d. os_mkdir_all E d (vPath V (vDir V f))" V] spares_mkdir_all
  by (fastforce simp: make_parent_def spared_def split: prod.split sum.split)

lemma writeNewFile_spared:
  assumes "spared X d0 D st"
  shows "spared X d0 D (snd (writeNewFile V file data st))"
  unfolding writeNewFile_def Let_def
proof (rule spared_and_then [OF make_parent_spared [OF assms]], rule spared_and_then, goal_cases)
  case (1 x st1)
  then show ?case by (intro spared_file) (auto simp: spared_def intro: spares_create_temp)
next
  case (2 x st1 y st2)
  let ?p = "vPath V file"
  have s: "spares X d0 (csDisk (cliClient st2))" using 2(4) by (simp add: spared_def)
  have "get (csDisk (cliClient st1)) ?p = None"
    using 2(3) by (auto simp: on_file_def on_disk_def os_create_temp_def split: prod.splits sum.splits if_splits)
  then have f: "free X d0 ?p" using 2(2) by (auto simp: spared_def intro: free_absent)
  define w where "w = and_then (on_file V (\<lambda>E d. os_append E d ?p data) st2) (\<lambda>_ st.
             and_then (on_file V (\<lambda>E d. os_sync E d ?p) st) (\<lambda>_ st. on_file V (\<lambda>E d. os_sync E d ?p) st))"
  have w: "spared X d0 D (snd w)" unfolding w_def
    by (intro spared_and_then spared_file 2(4) spares_append s f) (auto simp: spared_def intro: spares_sync)
  have "spared X d0 D (snd (on_file V (\<lambda>E d. os_remove E d ?p) st3))" if "spared X d0 D st3" for st3
    using that f by (intro spared_file) (auto simp: spared_def intro: spares_remove)
  with w show ?case by (cases w; cases "fst w") (auto simp: w_def [symmetric])
qed

lemma spared_kept: "spared probe_names (csDisk (cliClient st)) (cliData st) st' \<Longrightarrow> kept P st st'"
  by (simp add: spared_def kept_def store_run.refl)

lemma writeNewFile_kept: "kept P st (snd (writeNewFile V file data st))"
  by (rule spared_kept [OF writeNewFile_spared]) (simp add: spared_def)

text \<open>A new file that was written was not there before and holds the data.\<close>

lemma on_file_ok:
  "on_file V f st = (Inr x, st') \<longleftrightarrow> (\<exists>d. f (ceOS (vClient V) (csTick (cliClient st))) (csDisk (cliClient st)) = (Inr x, d)
     \<and> st' = st\<lparr>cliClient := (advance (vClient V) (cliClient st))\<lparr>csDisk := d\<rparr>\<rparr>)"
  by (auto simp: on_file_def on_disk_def split: prod.split sum.split)

lemma writeNewFile_ok:
  assumes "writeNewFile V f data st = (Inr (), st')"
  shows "get (csDisk (cliClient st)) (vPath V f) = None"
    and "get (csDisk (cliClient st')) (vPath V f) = Some (File (Raw data))"
proof -
  let ?p = "vPath V f" and ?d = "\<lambda>st. csDisk (cliClient st)"
  obtain st1 st2 where 1: "make_parent V f st = (Inr (), st1)" and 2: "on_file V (\<lambda>E d. os_create_temp E d ?p) st1 = (Inr (), st2)"
    and r: "(case and_then (on_file V (\<lambda>E d. os_append E d ?p data) st2) (\<lambda>_ st.
             and_then (on_file V (\<lambda>E d. os_sync E d ?p) st) (\<lambda>_ st. on_file V (\<lambda>E d. os_sync E d ?p) st)) of
          (Inl e, st) \<Rightarrow> (Inl e, snd (on_file V (\<lambda>E d. os_remove E d ?p) st)) | (Inr _, st) \<Rightarrow> (Inr (), st)) = (Inr (), st')"
    using assms by (auto simp: writeNewFile_def Let_def and_then_ok)
  have "spared {} (?d st) (cliData st) st1"
    using make_parent_spared [of "{}" "?d st" "cliData st" st V f] 1 by (simp add: spared_def)
  then have keep: "get (?d st) ?p = Some n \<Longrightarrow> get (?d st1) ?p = Some n" for n by (simp add: spared_def spares_def)
  have new: "get (?d st1) ?p = None" "get (?d st2) ?p = Some (File (Raw []))"
    using 2 by (auto simp: on_file_ok os_create_temp_def split: if_splits)
  show "get (?d st) ?p = None" using keep new(1) by (cases "get (?d st) ?p") auto
  have "and_then (on_file V (\<lambda>E d. os_append E d ?p data) st2) (\<lambda>_ st.
             and_then (on_file V (\<lambda>E d. os_sync E d ?p) st) (\<lambda>_ st. on_file V (\<lambda>E d. os_sync E d ?p) st)) = (Inr (), st')"
    using r by (auto split: prod.splits sum.splits)
  then show "get (?d st') ?p = Some (File (Raw data))"
    using new(2) by (auto simp: and_then_ok on_file_ok os_append_def os_sync_def split: if_splits)
qed

lemma writeNewFile_keeps:
  assumes "writeNewFile V f data st = (r, st')"
  shows "spares {} (csDisk (cliClient st)) (csDisk (cliClient st'))" and "cliData st' = cliData st"
  using writeNewFile_spared [of "{}" "csDisk (cliClient st)" "cliData st" st V f data] assms by (simp_all add: spared_def)

lemma readJSON_state:
  "csDisk (cliClient (snd (readJSON V decode f st))) = csDisk (cliClient st)"
  "csSent (cliClient (snd (readJSON V decode f st))) = csSent (cliClient st)"
  "cliData (snd (readJSON V decode f st)) = cliData st" "cliOut (snd (readJSON V decode f st)) = cliOut st"
  "csWire (cliClient (snd (readJSON V decode f st))) = csWire (cliClient st)"
  by (auto simp: readJSON_def and_then_def on_file_def on_disk_def split: prod.split sum.split option.split)

lemma loadKey_state:
  "csDisk (cliClient (snd (loadKey V f st))) = csDisk (cliClient st)"
  "csSent (cliClient (snd (loadKey V f st))) = csSent (cliClient st)"
  "cliData (snd (loadKey V f st)) = cliData st" "cliOut (snd (loadKey V f st)) = cliOut st"
  "csWire (cliClient (snd (loadKey V f st))) = csWire (cliClient st)"
  using readJSON_state [of V "vKey V" f st]
  by (auto simp: loadKey_def and_then_def split: prod.split sum.split)

lemma kept_same: "csDisk (cliClient st') = csDisk (cliClient st) \<Longrightarrow> cliData st' = cliData st \<Longrightarrow> kept P st st'"
  by (simp add: kept_def store_run.refl)

lemma readJSON_kept: "kept P st (snd (readJSON V decode f st))"
  by (rule kept_same) (simp_all add: readJSON_state)

lemma loadKey_kept: "kept P st (snd (loadKey V f st))"
  by (rule kept_same) (simp_all add: loadKey_state)

section \<open>Commands\<close>

text \<open>What the store finds, from the command line and while it serves, satisfies \<open>P\<close>.\<close>

definition sound_env :: "(env \<Rightarrow> bool) \<Rightarrow> cli_env \<Rightarrow> bool" where
  "sound_env P V \<longleftrightarrow> (\<forall>n. P (vStore V n)) \<and> (\<forall>(At, r) \<in> set (vRequests V). \<forall>n. P (At n))"

lemma kept_calls:
  assumes "sound_env P V"
  shows "kept P st (snd (on_data data (Init (vStore V n)) st))"
    and "kept P st (snd (on_data data (\<lambda>d. ImportRequest (vStore V n) d b) st))"
  using assms by (auto intro!: kept_data store_run_calls simp: sound_env_def)

lemma initCommand_kept: "sound_env P V \<Longrightarrow> kept P st (snd (initCommand V args st))"
  unfolding initCommand_def by (auto intro!: kept.and_then kept_calls)

lemma make_request_state [simp]: "snd (make_request V fs st) = st"
  by (auto simp: make_request_def and_then_def failing_def split: sum.split)

lemma requestMake_kept: "sound_env P V \<Longrightarrow> kept P st (snd (requestMake V args importToStore st))"
  unfolding requestMake_def save_request_def
  by (auto intro!: kept.and_then kept_calls writeNewFile_kept)

lemma requestImport_kept: "sound_env P V \<Longrightarrow> kept P st (snd (requestImport V args st))"
  unfolding requestImport_def Let_def
  by (auto intro!: kept.and_then kept_calls readJSON_kept)

lemma close_kept: "kept P st (snd (on_client (client_CloseRequest c W) st))"
proof (rule kept_same)
  show "csDisk (cliClient (snd (on_client (client_CloseRequest c W) st))) = csDisk (cliClient st)"
    using jsonRequest_state(1) [of c W "collect_url c [''close'']" True "cliClient st"]
    by (auto simp: on_client_state client_CloseRequest_def and_then_def split: prod.split sum.split option.split)
qed (simp add: on_client_state)

lemma requestClose_kept: "kept P st (snd (requestClose V args st))"
  unfolding requestClose_def
  by (auto intro!: kept.and_then loadKey_kept close_kept)

lemma requestCommand_kept: "sound_env P V \<Longrightarrow> kept P st (snd (requestCommand V args st))"
  by (auto simp: requestCommand_def requestMake_kept requestImport_kept requestClose_kept split: list.split)

lemma serve_run_store_run:
  assumes "sound_env P V"
  shows "store_run P d (svDisk (snd (serve_run cfg (vRequests V) \<lparr>svDisk = d, svLimiter = l\<rparr>)))"
  using serve_run_steps [of "vRequests V" P _ "\<lparr>svDisk = d, svLimiter = l\<rparr>" cfg] assms
  unfolding store_run_def sound_env_def by fastforce

lemma serveCommand_kept:
  assumes "sound_env P V"
  shows "kept P st (snd (serveCommand V args st))"
proof -
  have s: "kept P st1 (st1\<lparr>cliData := (cliData st1)(data := svDisk (snd (serve_run cfg (vRequests V)
      \<lparr>svDisk = cliData st1 data, svLimiter = l\<rparr>)))\<rparr>)" for st1 data cfg l
    using serve_run_store_run [OF assms] by (auto simp: kept_def store_run.refl)
  show ?thesis
    unfolding serveCommand_def Let_def New_server_def
    by (auto intro!: kept.and_then kept_calls [OF assms] s split: prod.split option.split)
qed

lemma doctorCommand_kept: "kept P st (snd (doctorCommand V args st))"
  unfolding doctorCommand_def Let_def
  by (auto intro!: kept.and_then split: prod.split option.split)

lemma purgeCommand_kept:
  assumes "sound_env P V"
  shows "kept P st (snd (purgeCommand V args st))"
proof -
  have p: "kept P st1 (st1\<lparr>cliData := (cliData st1)(data := d)\<rparr>)"
    if "Purge (vStore V 0) (cliData st1 data) a t = (x, d)" for st1 data a t x d
    using store_run_calls(3) [of P "vStore V 0" "cliData st1 data" a t] assms that
    by (auto simp: kept_def store_run.refl sound_env_def)
  show ?thesis
    unfolding purgeCommand_def Let_def
    by (auto intro!: kept.and_then p split: prod.split option.split)
qed

lemma writeInspections_state [simp]: "cliClient (snd (writeInspections V is st)) = cliClient st"
  "cliData (snd (writeInspections V is st)) = cliData st"
  by (induction V "is" st rule: writeInspections.induct) (auto simp: and_then_def fprint_def)

lemma print_list_client: "cliClient (snd (print_list V everything r st)) = cliClient st"
  by (cases r) (auto simp: print_list_def Let_def split_def and_then_def split: sum.split prod.split)

lemma print_list_kept: "kept P st (snd (print_list V everything r st))"
proof -
  have w: "kept P st1 (snd (writeInspections V is st1))" for "is" st1 by (rule kept_same) simp_all
  show ?thesis
    by (cases r) (auto simp: print_list_def Let_def split_def intro!: kept.and_then w)
qed

lemma collect_with_kept:
  "\<exists>r st'. collect_with V fs key st = Some (r, st') \<and> kept P st st'"
proof -
  let ?c = "(New key)\<lparr>clReadRetries := int_flag fs ''read-retries''\<rparr>"
  show ?thesis
  proof (cases "bool_flag fs ''list''")
    case True
    define o1 where "o1 = \<lparr>ioUploadIDs = list_flag fs ''upload'',
            ioIncludeAcknowledged = bool_flag fs ''all'', ioFailFast = bool_flag fs ''fail-fast'', ioWaitTimeout = duration_flag fs ''wait'',
            ioPollInterval = duration_flag fs ''poll-interval''\<rparr>"
    obtain out cl where i: "Inspect ?c (vClient V) (vCtx V) (vWait V) o1 (cliClient st) = Some (out, cl)" "quiet (cliClient st) cl"
      using Inspect_quiet by blast
    let ?r = "print_list V (bool_flag fs ''all'') out (st\<lparr>cliClient := cl\<rparr>)"
    have "kept P st (st\<lparr>cliClient := cl\<rparr>)" using i(2) by (intro kept_same) (simp_all add: quiet_disk)
    then have "kept P st (snd ?r)" by (rule kept.trans [OF _ print_list_kept])
    moreover have "collect_with V fs key st = Some ?r"
      using i(1) True by (simp add: collect_with_def Let_def o1_def)
    ultimately show ?thesis by (metis surj_pair snd_conv)
  next
    case False
    define o2 where "o2 = \<lparr>coAcknowledge = \<not> bool_flag fs ''no-ack'',
            coUploadIDs = list_flag fs ''upload'', coFailFast = bool_flag fs ''fail-fast'', coWaitTimeout = duration_flag fs ''wait'',
            coPollInterval = duration_flag fs ''poll-interval''\<rparr>"
    let ?out = "vPath V (string_flag fs ''out'')"
    obtain out cl where i: "Collect ?c (vClient V) (vCtx V) (vWait V) ?out o2 (cliClient st) = Some (out, cl)"
      using Collect_returns by blast
    have "kept P st (st\<lparr>cliClient := cl\<rparr>)"
      using Collect_spares [OF i] by (auto simp: kept_def store_run.refl spares_def probe_names_def)
    then show ?thesis using i False
      by (cases out) (simp add: collect_with_def Let_def o2_def)
  qed
qed

lemma collectCommand_kept:
  "\<exists>r st'. collectCommand V args st = Some (r, st') \<and> kept P st st'"
proof -
  obtain r st1 where p: "parse_args V collect_flags args st = (r, st1)" by fastforce
  then have st1: "st1 = st" using snd_parse_args [of V collect_flags args st] by simp
  show ?thesis
  proof (cases r)
    case (Inl e)
    then show ?thesis using p st1 by (simp add: collectCommand_def)
  next
    case (Inr x)
    obtain fs seen where x: "x = (fs, seen)" by fastforce
    obtain k st2 where l: "loadKey V (string_flag fs ''key'') st = (k, st2)" by fastforce
    have k2: "kept P st st2" using loadKey_kept [of P st V "string_flag fs ''key''"] l by simp
    have c: "\<exists>r st'. collect_with V fs key st2 = Some (r, st') \<and> kept P st st'" for key
      using collect_with_kept [of V fs key st2 P] kept.trans [OF k2] by blast
    show ?thesis
      using p st1 Inr x l k2 c
      by (cases "check_collect fs seen"; cases k) (simp_all add: collectCommand_def)
  qed
qed

text \<open>Every command returns and keeps.\<close>

lemma run_kept:
  assumes "sound_env P V"
  shows "\<exists>r st'. run V args st = Some (r, st') \<and> kept P st st'"
proof -
  define Q where "Q x \<longleftrightarrow> (\<exists>r st'. x = Some (r, st') \<and> kept P st st')" for x :: "((cli_error + unit) \<times> cli_state) option"
  have some: "Q (Some x)" if "kept P st (snd x)" for x using that by (cases x) (simp add: Q_def)
  have pair: "Q (Some (r, st1))" if "kept P st st1" for r st1 using that by (simp add: Q_def)
  have either: "Q (if b then x else y)" if "Q x" "Q y" for b x y using that by simp
  have u: "kept P st (usage_command V st)" by (simp add: usage_command_def)
  have v: "kept P st (print V s st)" for s by simp
  have c: "Q (collectCommand V xs st)" for xs unfolding Q_def by (rule collectCommand_kept)
  have "Q (run V args st)"
  proof (cases args)
    case Nil
    then show ?thesis using pair [OF u] by (simp add: run_def)
  next
    case (Cons a rest)
    show ?thesis
      unfolding run_def Cons list.case
      by (intro either c pair [OF u] pair [OF v] some [OF initCommand_kept [OF assms]] some [OF requestCommand_kept [OF assms]]
          some [OF serveCommand_kept [OF assms]] some [OF doctorCommand_kept] some [OF purgeCommand_kept [OF assms]])
  qed
  then show ?thesis by (simp add: Q_def)
qed

end
