(* ===== verification/CommandDemo.thy ===== *)
theory CommandDemo
  imports CommandRuns ServerClaims CollectorClaims
begin

text \<open>
  A concrete user with a key file, and a run of \<open>request create\<close>: the values to which the properties of the
  command line are applied.
\<close>

section \<open>A new file\<close>

text \<open>Where nothing fails and the directory exists, a new file is written and nothing else changes.\<close>

lemma writeNewFile_fresh:
  assumes "\<forall>t. no_faults (ceOS (vClient V) t)" and "get (csDisk (cliClient st)) (vPath V f) = None"
    and "get (csDisk (cliClient st)) (butlast (vPath V f)) = Some Dir"
    and "\<forall>q \<in> set (prefixes (vPath V (vDir V f))). get (csDisk (cliClient st)) q = Some Dir"
  shows "\<exists>st'. writeNewFile V f data st = (Inr (), st')
    \<and> (\<forall>q. get (csDisk (cliClient st')) q = (if q = vPath V f then Some (File (Raw data)) else get (csDisk (cliClient st)) q))"
proof -
  have f: "\<not> envFault (ceOS (vClient V) t) x y" for t x y using assms(1) by (simp add: no_faults_def)
  have p: "butlast (vPath V f) \<noteq> vPath V f" using assms(2,3) by auto
  show ?thesis
    unfolding writeNewFile_def Let_def make_parent_def on_file_def on_disk_def
    using assms(2-4) f p
    by (simp add: os_mkdir_all_def mkdir_each_there os_create_temp_def os_append_def os_sync_def)
qed

section \<open>A request\<close>

definition demo_parse :: "string \<Rightarrow> (string \<times> string) option" where
  "demo_parse s = (if s = [] then None else Some (''https'', ''h''))"

definition demo_pair :: "RequestBundle \<times> KeyFile" where
  "demo_pair = projr (MakeRequest demo_parse demo_draws ''https://h'' ''files'' (Time 10)
     (time_add (Time 10) (86400 * nanos_per_second)) 10 (2 ^ 31) False)"

lemma demo_pair_made:
  "MakeRequest demo_parse demo_draws ''https://h'' ''files'' (Time 10)
     (time_add (Time 10) (86400 * nanos_per_second)) 10 (2 ^ 31) False = Inr demo_pair"
proof -
  have "trim_space ''files'' = ''files''" "trim_right (\<lambda>c. c = slash) (trim_space ''https://h'') = ''https://h''" by code_simp+
  then have "\<exists>x. MakeRequest demo_parse demo_draws ''https://h'' ''files'' (Time 10)
     (time_add (Time 10) (86400 * nanos_per_second)) 10 (2 ^ 31) False = Inr x"
    by (simp add: MakeRequest_def Let_def RandomToken_def demo_draws_def demo_parse_def after_def time_add_def nanos_per_second_def)
  then show ?thesis by (auto simp: demo_pair_def)
qed

abbreviation "demo_rid \<equiv> rbID (fst demo_pair)"

lemma demo_pair_ok: "validateBundle (fst demo_pair) = Inr ()"
proof -
  have v: "valid_utf8 ''files''" by code_simp
  have "MakeRequest demo_parse demo_draws ''https://h'' ''files'' (Time 10)
     (time_add (Time 10) (86400 * nanos_per_second)) 10 (2 ^ 31) False = Inr (fst demo_pair, snd demo_pair)"
    using demo_pair_made by simp
  from MakeRequest_accepted [OF this demo_draws_proper v] show ?thesis by simp
qed

lemma demo_rid_valid: "ValidID demo_rid"
  using demo_pair_ok by (simp add: validateBundle_ok)

section \<open>The user\<close>

text \<open>The key file of the request is the line \<open>key\<close>.\<close>

definition demo_cli :: cli_env where
  "demo_cli = \<lparr>vStore = (\<lambda>_. demo_env), vClient = demo_web, vCtx = demo_ctx, vWait = demo_ctx, vNow = Time 10,
     vDraws = demo_draws, vParseURL = demo_parse, vParsers = \<lparr>paInt = (\<lambda>_. None), paDuration = (\<lambda>_. None)\<rparr>,
     vKey = (\<lambda>s. if s = ''key'' @ [newline] then Some (snd demo_pair) else None), vBundle = (\<lambda>_. None),
     vKeyText = (\<lambda>k. if k = snd demo_pair then Some ''key'' else None), vBundleText = (\<lambda>_. Some ''bundle''),
     vPublic = (\<lambda>_. demo_pub), vPath = (\<lambda>s. if s = ''.'' then [] else [s]), vDir = (\<lambda>_. ''.''), vClean = (\<lambda>s. s), vAbs = Some,
     vServer = demo_cfg, vRequests = [], vListenError = None, vRFC3339 = (\<lambda>_. []), vQuote = (\<lambda>s. s),
     vOutFails = (\<lambda>_. False), vErrFails = False, vVersion = ''dev''\<rparr>"

lemma demo_cli_fields [simp]:
  "vStore demo_cli n = demo_env" "vClient demo_cli = demo_web" "vNow demo_cli = Time 10" "vDraws demo_cli = demo_draws"
  "vParseURL demo_cli = demo_parse" "vParsers demo_cli = \<lparr>paInt = (\<lambda>_. None), paDuration = (\<lambda>_. None)\<rparr>"
  "vKey demo_cli t = (if t = ''key'' @ [newline] then Some (snd demo_pair) else None)"
  "vKeyText demo_cli k = (if k = snd demo_pair then Some ''key'' else None)" "vBundleText demo_cli b = Some ''bundle''"
  "vPublic demo_cli p = demo_pub" "vPath demo_cli s = (if s = ''.'' then [] else [s])" "vDir demo_cli s = ''.''" "vClean demo_cli s = s" "vRequests demo_cli = []"
  by (simp_all add: demo_cli_def)

definition demo_user :: cli_state where
  "demo_user = \<lparr>cliClient = demo_home\<lparr>csDisk := [([], Dir), ([''k.json''], File (Raw (''key'' @ [newline])))]\<rparr>, cliData = (\<lambda>_. []), cliOut = []\<rparr>"

definition demo_args :: "string list" where
  "demo_args = [''request'', ''create'', ''--base-url=https://h'', ''--label=files'']"

definition demo_served :: disk where
  "demo_served = demo_top @ [([''requests'', demo_rid @ ''.json''], File (JBundle (fst demo_pair)))]"

lemma demo_import_pair: "ImportRequest demo_env [] (fst demo_pair) = (Inr (), demo_served)"
  by (simp add: ImportRequest_def demo_pair_ok demo_Init os_defs requestPath_valid [OF demo_rid_valid] get_def put_def demo_top_def demo_served_def)

lemma demo_parsed: "\<exists>fs seen. parse_flags \<lparr>paInt = (\<lambda>_. None), paDuration = (\<lambda>_. None)\<rparr> make_flags [] [''--base-url=https://h'', ''--label=files''] = Inr (fs, seen, [])
  \<and> string_flag fs ''base-url'' = ''https://h'' \<and> string_flag fs ''label'' = ''files'' \<and> int_flag fs ''max-files'' = 10
  \<and> string_flag fs ''max-bytes'' = ''2GiB'' \<and> duration_flag fs ''expires'' = 86400 * nanos_per_second
  \<and> \<not> bool_flag fs ''delete-after-collect'' \<and> string_flag fs ''key-out'' = [] \<and> string_flag fs ''bundle-out'' = []
  \<and> string_flag fs ''data'' = ''opaquedrop-data''"
proof -
  have "case parse_flags \<lparr>paInt = (\<lambda>_. None), paDuration = (\<lambda>_. None)\<rparr> make_flags [] [''--base-url=https://h'', ''--label=files''] of
      Inl e \<Rightarrow> False
    | Inr (fs, seen, left) \<Rightarrow> left = [] \<and> string_flag fs ''base-url'' = ''https://h'' \<and> string_flag fs ''label'' = ''files'' \<and> int_flag fs ''max-files'' = 10
        \<and> string_flag fs ''max-bytes'' = ''2GiB'' \<and> duration_flag fs ''expires'' = 86400 * nanos_per_second
        \<and> \<not> bool_flag fs ''delete-after-collect'' \<and> string_flag fs ''key-out'' = [] \<and> string_flag fs ''bundle-out'' = []
        \<and> string_flag fs ''data'' = ''opaquedrop-data''"
    by code_simp
  then show ?thesis by (auto split: sum.splits prod.splits)
qed

lemma demo_bytes: "ParseBytes ''2GiB'' = Inr (2 ^ 31)"
  by code_simp

text \<open>\<open>request create\<close> succeeds: the bundle is in the data directory.\<close>

lemma demo_created:
  "\<exists>st'. run demo_cli demo_args demo_user = Some (Inr (), st') \<and> cliData st' ''opaquedrop-data'' = demo_served"
proof -
  obtain fs seen where p: "parse_flags \<lparr>paInt = (\<lambda>_. None), paDuration = (\<lambda>_. None)\<rparr> make_flags [] [''--base-url=https://h'', ''--label=files''] = Inr (fs, seen, [])"
    and fs: "string_flag fs ''base-url'' = ''https://h''" "string_flag fs ''label'' = ''files''" "int_flag fs ''max-files'' = 10"
      "string_flag fs ''max-bytes'' = ''2GiB''" "duration_flag fs ''expires'' = 86400 * nanos_per_second"
      "\<not> bool_flag fs ''delete-after-collect''" "string_flag fs ''key-out'' = []" "string_flag fs ''bundle-out'' = []"
      "string_flag fs ''data'' = ''opaquedrop-data''"
    using demo_parsed by blast
  have parse: "parse_args demo_cli make_flags [''--base-url=https://h'', ''--label=files''] demo_user = (Inr (fs, seen), demo_user)"
    using p by (simp add: parse_args_def failing_def)
  have make: "make_request demo_cli fs demo_user = (Inr (fst demo_pair, snd demo_pair), demo_user)"
    using demo_pair_made fs by (simp add: make_request_def failing_def demo_bytes and_then_def)
  let ?first = "''opaquedrop-'' @ demo_rid @ ''.key.json''" and ?second = "''opaquedrop-'' @ demo_rid @ ''.bundle.json''"
  have quiet: "\<forall>t. no_faults (ceOS (vClient demo_cli) t)" by (simp add: demo_web_def)
  have ne: "?first \<noteq> ?second" "?first \<noteq> ''k.json''" "?second \<noteq> ''k.json''" by simp_all
  obtain st1 where w1: "writeNewFile demo_cli ?first (''key'' @ [newline]) demo_user = (Inr (), st1)"
    and d1: "\<forall>q. get (csDisk (cliClient st1)) q = (if q = [?first] then Some (File (Raw (''key'' @ [newline]))) else get (csDisk (cliClient demo_user)) q)"
    using writeNewFile_fresh [OF quiet, of demo_user ?first "''key'' @ [newline]"] by (auto simp: demo_user_def get_def)
  obtain st2 where w2: "writeNewFile demo_cli ?second (''bundle'' @ [newline]) st1 = (Inr (), st2)"
    using writeNewFile_fresh [OF quiet, of st1 ?second "''bundle'' @ [newline]"] d1 by (auto simp: demo_user_def get_def)
  have data: "cliData st2 = (\<lambda>_. [])" 
    using writeNewFile_keeps(2) [OF w1] writeNewFile_keeps(2) [OF w2] by (simp add: demo_user_def)
  define st3 where "st3 = st2\<lparr>cliData := (cliData st2)(''opaquedrop-data'' := demo_served)\<rparr>"
  have save: "save_request demo_cli fs True (fst demo_pair) (snd demo_pair) demo_user = (Inr (), st3)"
    using w1 w2 fs data demo_import_pair
    by (simp add: save_request_def and_then_def wrapping_def marshal_def MarshalPretty_def out_path_def on_data_def data_dir_def failing_def st3_def)
  show ?thesis
    using parse make save
    by (simp add: run_def demo_args_def requestCommand_def requestMake_def and_then_def st3_def split_def del: print_all.simps)
qed

end
