(* ===== verification/CollectorCalls.thy ===== *)
theory CollectorCalls
  imports CollectorRuns
begin

text \<open>
  Which requests the recipient's client sends, and to whom: every request of a listing, an inspection, a
  collection or the closing of a request carries the collect token of the key file and goes to a collect
  URL of the server and the request that the key file names.
\<close>

section \<open>Requests\<close>

text \<open>The collect URL of a key file, and a call that goes there; a \<open>POST\<close> only when posting is allowed.\<close>

definition own_url :: "Client \<Rightarrow> string" where
  "own_url c = trim_right (\<lambda>x. x = CHR ''/'') (kfServerURL (clKey c)) @ ''/api/v1/collect/'' @ kfRequestID (clKey c)"

definition own_call :: "Client \<Rightarrow> bool \<Rightarrow> call \<Rightarrow> bool" where
  "own_call c posting call =
     (case call of
        Get_call url token \<Rightarrow> prefix (own_url c) url \<and> token = kfCollectToken (clKey c)
      | Post_call url token \<Rightarrow> posting \<and> prefix (own_url c) url \<and> token = kfCollectToken (clKey c))"

definition sends :: "(call \<Rightarrow> bool) \<Rightarrow> client_state \<Rightarrow> client_state \<Rightarrow> bool" where
  "sends X st st' \<longleftrightarrow> (\<exists>calls. csSent st' = csSent st @ calls \<and> list_all X calls)"

lemma sends_trans: "sends X st st1 \<Longrightarrow> sends X st1 st2 \<Longrightarrow> sends X st st2"
  unfolding sends_def by (fastforce simp: list_all_append)

lemma sends_same: "csSent st' = csSent st \<Longrightarrow> sends X st st'"
  by (simp add: sends_def)

text \<open>
  What goes over the wire: a \<open>GET\<close> without a token (after a redirect elsewhere), or with the token to a collect
  URL or the site of one.
\<close>

definition own_hop :: "client_env \<Rightarrow> Client \<Rightarrow> bool \<Rightarrow> call \<Rightarrow> bool" where
  "own_hop W c posting call =
     (case call of
        Get_call url token \<Rightarrow> token = [] \<or> token = kfCollectToken (clKey c)
          \<and> (\<exists>first. prefix (own_url c) first \<and> (url = first \<or> same_site W first url))
      | Post_call url token \<Rightarrow> posting \<and> prefix (own_url c) url \<and> token = kfCollectToken (clKey c))"

definition wires :: "(call \<Rightarrow> bool) \<Rightarrow> client_state \<Rightarrow> client_state \<Rightarrow> bool" where
  "wires X st st' \<longleftrightarrow> (\<exists>calls. csWire st' = csWire st @ calls \<and> list_all X calls)"

lemma wires_trans: "wires X st st1 \<Longrightarrow> wires X st1 st2 \<Longrightarrow> wires X st st2"
  unfolding wires_def by (fastforce simp: list_all_append)

lemma wires_same: "csWire st' = csWire st \<Longrightarrow> wires X st st'"
  by (simp add: wires_def)

lemma wires_get:
  assumes "prefix (own_url c) url"
  shows "wires (own_hop W c posting) st (snd (send_get W url (kfCollectToken (clKey c)) st))"
proof -
  have "hop_ok W url (kfCollectToken (clKey c)) call \<Longrightarrow> own_hop W c posting call" for call
    using assms by (auto simp: hop_ok_def own_hop_def split: call.splits)
  then show ?thesis
    using send_get_wire [of W url "kfCollectToken (clKey c)" st] by (auto simp: only_wire_def wires_def list_all_iff)
qed

lemma own_url: "prefix (own_url c) (collect_url c parts)"
  by (simp add: own_url_def collect_url_def endpoint_def)

section \<open>Steps that send\<close>

text \<open>A relation that holds for the reads, for every call on the disk and, when posting is allowed, for a \<open>POST\<close>.\<close>

locale sending = client_steps +
  fixes posting :: bool
  assumes disk_steps: "R st ((advance W st)\<lparr>csDisk := d\<rparr>)"
    and posts: "posting \<Longrightarrow> U url \<Longrightarrow> R st (snd (send W (Post_call url (kfCollectToken (clKey c))) st))"
begin

lemma disks: "R st (snd (on_disk W f st))"
  by (simp add: on_disk_def disk_steps split: prod.split)

lemma removes: "R st (remove_quietly W p st)"
  by (simp add: remove_quietly_def disks)

lemma probes: "R st (snd r) \<Longrightarrow> R st (snd (remove_probe W p r))"
proof -
  assume q: "R st (snd r)"
  obtain x st1 where r: "r = (x, st1)" by fastforce
  have "snd (remove_probe W p r) = snd (on_disk W (\<lambda>E d. os_remove E d p) st1)"
    by (auto simp: r remove_probe_def split: prod.split sum.split)
  then show ?thesis using trans [OF q disks] r by simp
qed

lemma prepares: "R st (snd (prepareOutputDir W dir st))"
  unfolding prepareOutputDir_def preflightOutputPublication_def Let_def
  by (intro and_then probes) (auto intro!: and_then probes disks refl simp: refl)

lemma chunks: "R st (snd (collect_chunks is c W ctx receipt m opener temp acc st))"
  by (induction "is" arbitrary: acc st) (auto intro!: and_then reads urls checks disks simp: refl)

lemma publishes: "R st (snd (publish_loop n attempt W temp dir name st))"
proof (induction n arbitrary: attempt st)
  case (Suc n)
  obtain r st1 where l: "on_disk W (\<lambda>E d. os_link E d temp (dir @ [candidate_name name attempt])) st = (r, st1)" by fastforce
  have q: "R st st1" using disks [of st "\<lambda>E d. os_link E d temp (dir @ [candidate_name name attempt])"] l by simp
  show ?case using q trans [OF q removes] trans [OF q Suc.IH]
    by (auto simp: l Let_def split: sum.split os_error.split)
qed (simp add: refl)

lemma saves: "R st (snd (save_upload c W ctx receipt dir m raw md opener temp st))"
  unfolding save_upload_def
  by (auto intro!: and_then chunks checks disks publishes simp: Let_def publishOutput_def refl split: option.split prod.split)

lemma posts_once:
  assumes "posting"
  shows "R st (snd (jsonRequest c W (collect_url c parts) target st))"
proof -
  have "snd (jsonRequest c W url target st) = st
    \<or> snd (jsonRequest c W url target st) = snd (send W (Post_call url (kfCollectToken (clKey c))) st)" for url
    by (auto simp: jsonRequest_def split: prod.split option.split)
  then show ?thesis using refl posts [OF assms urls] by metis
qed

lemma closes: "posting \<Longrightarrow> R st (snd (client_CloseRequest c W st))"
  unfolding client_CloseRequest_def by (auto intro!: and_then posts_once simp: refl split: option.split)

lemma collects_one: "R st (snd (CollectOne c W ctx receipt dir posting st))"
proof -
  obtain mm st1 where mm: "manifestMetadata c W ctx receipt st = (mm, st1)" by fastforce
  have 1: "R st st1" using metadata [of st ctx receipt] mm by simp
  obtain pr st2 where pr: "prepareOutputDir W dir st1 = (pr, st2)" by fastforce
  have 2: "R st st2" using trans [OF 1 prepares [of st1 dir]] pr by simp
  define temp where "temp = dir @ [''.opaquedrop-'' @ ceTempName W (csTick st2) @ ''.part'']"
  obtain ct st3 where ct: "output_err (on_disk W (\<lambda>E d. os_create_temp E d temp) st2) = (ct, st3)" by fastforce
  have 3: "R st st3" using trans [OF 2 disks [of st2 "\<lambda>E d. os_create_temp E d temp"]] ct
    by (metis snd_conv snd_output_err)
  show ?thesis
  proof (cases mm)
    case (Inr q)
    obtain m raw md opener where q: "q = (m, raw, md, opener)" by (cases q) auto
    obtain sv st4 where sv: "save_upload c W ctx receipt dir m raw md opener temp st3 = (sv, st4)" by fastforce
    have 4: "R st st4" using trans [OF 3 saves [of st3 ctx receipt dir m raw md opener temp]] sv by simp
    obtain j st5 where j: "jsonRequest c W (collect_url c [''uploads'', rcUploadID receipt, ''ack'']) False st4 = (j, st5)" by fastforce
    have 5: "posting \<Longrightarrow> R st st5" using trans [OF 4 posts_once] j by (metis snd_conv)
    note run = ct [unfolded temp_def] sv [unfolded temp_def] j
    show ?thesis
      using 2 3 trans [OF 4 removes] trans [OF 5 removes] run
      by (cases pr; cases ct; cases sv; cases j; cases posting) (simp_all add: CollectOne_def mm Inr q pr Let_def)
  qed (use 1 in \<open>simp add: CollectOne_def mm\<close>)
qed

end

sublocale sending \<subseteq> collecting R c W U dir posting for dir
  by unfold_locales (rule collects_one)

interpretation sends: sending "sends (own_call c posting)" c W "prefix (own_url c)" posting
proof
  show "sends (own_call c posting) st (snd (sleepContext ctx W d st))" for st ctx d
    by (rule sends_same) simp
qed (auto simp: own_url intro: sends_trans, auto simp: sends_def send_get_logs send_def exchange_def own_call_def)

interpretation wires: sending "wires (own_hop W c posting)" c W "prefix (own_url c)" posting
proof
  show "wires (own_hop W c posting) st (snd (sleepContext ctx W d st))" for st ctx d
    by (rule wires_same) simp
qed (auto simp: own_url wires_get intro: wires_trans, auto simp: wires_def send_def exchange_def own_hop_def)

end
