(* ===== verification/CommandClaims.thy ===== *)
theory CommandClaims
  imports CommandDemo CollectorCalls
begin

text \<open>
  The properties of the command line: whole histories of commands keep the store within its quotas and
  never harm the files of the user, a created request is ready for use, and \<open>collect\<close> acts only on valid
  arguments and a valid key file.
\<close>

section \<open>Histories\<close>

text \<open>One command after the other, each in its own environment, on the same state; \<open>None\<close> when one does not return.\<close>

fun history :: "(cli_env \<times> string list) list \<Rightarrow> cli_state \<Rightarrow> cli_state option" where
  "history [] st = Some st"
| "history ((V, args) # h) st = (case run V args st of None \<Rightarrow> None | Some (_, st) \<Rightarrow> history h st)"

lemma history_kept:
  assumes "\<forall>(V, args) \<in> set h. sound_env P V"
  shows "\<exists>st'. history h st = Some st' \<and> kept P st st'"
  using assms
proof (induction h arbitrary: st)
  case (Cons x h)
  obtain V args where x: "x = (V, args)" by fastforce
  then obtain r st1 where r: "run V args st = Some (r, st1)" "kept P st st1"
    using run_kept [of P V args st] Cons.prems by auto
  moreover obtain st' where "history h st1 = Some st'" "kept P st1 st'" using Cons by auto
  ultimately show ?case using kept.trans [of P st st1] x by auto
qed simp


lemma demo_served_paths: "get demo_served (closurePath demo_rid) = None"
  "get demo_served (requestPath demo_rid) = Some (File (JBundle (fst demo_pair)))"
  by (simp_all add: demo_served_def demo_top_def get_def requestPath_valid [OF demo_rid_valid] closurePath_valid [OF demo_rid_valid])

lemma demo_sound: "sound_env (reading demo_dec) demo_cli"
  by (simp add: sound_env_def)


text \<open>C15: No history of commands, successful or not, changes or removes a file or directory that the user had:
  every command returns, \<open>request make\<close> and \<open>create\<close> write only new files, \<open>collect\<close> publishes under free names,
  the other commands do not write outside the data directory. The only names that may disappear are those of
  the collector's own probe (\<open>.opaquedrop-publish-probe-*.part.link\<close>).\<close>

theorem user_files_kept:
  assumes "get (csDisk (cliClient st)) q = Some n" and "q \<notin> probe_names"
  shows "\<exists>st'. history h st = Some st' \<and> get (csDisk (cliClient st')) q = Some n"
proof -
  obtain st' where "history h st = Some st'" "kept (\<lambda>_. True) st st'"
    using history_kept [of h "\<lambda>_. True" st] by (auto simp: sound_env_def)
  with assms show ?thesis by (simp add: kept_def spares_def)
qed

theorem user_files_kept_witness:
  "\<exists>st'. history [(demo_cli, demo_args), (demo_cli, [''collect'', ''--key=k.json'', ''--out=.''])] demo_user = Some st'
    \<and> get (csDisk (cliClient st')) [''k.json''] = Some (File (Raw (''key'' @ [newline])))"
  by (rule user_files_kept) (auto simp: demo_user_def get_def probe_names_def probe_links_def)

section \<open>A created request\<close>

lemma wrapping_ok: "wrapping f r = (Inr x, st) \<longleftrightarrow> r = (Inr x, st)"
  by (auto simp: wrapping_def split: prod.split sum.split)

lemma on_data_ok: "on_data data f st = (Inr x, st') \<longleftrightarrow> (\<exists>d. f (cliData st data) = (Inr x, d) \<and> st' = st\<lparr>cliData := (cliData st)(data := d)\<rparr>)"
  by (auto simp: on_data_def failing_def split: prod.split sum.split)

lemma marshal_ok: "marshal f x st = (Inr t, st') \<longleftrightarrow> MarshalPretty f x = Some t \<and> st' = st"
  by (auto simp: marshal_def split: option.split)

lemma save_request_ok:
  assumes "save_request V fs True b key st = (Inr (), st')"
  defines "p \<equiv> vPath V (out_path fs ''key-out'' (rbID b) ''.key.json'')"
  obtains body where "MarshalPretty (vKeyText V) key = Some body" and "get (csDisk (cliClient st)) p = None"
    and "get (csDisk (cliClient st')) p = Some (File (Raw body))"
    and "ImportRequest (vStore V 0) (cliData st (data_dir V fs)) b = (Inr (), cliData st' (data_dir V fs))"
proof -
  obtain body st1 btext st2 where t: "MarshalPretty (vKeyText V) key = Some body"
    and w1: "writeNewFile V (out_path fs ''key-out'' (rbID b) ''.key.json'') body st = (Inr (), st1)"
    and w2: "writeNewFile V (out_path fs ''bundle-out'' (rbID b) ''.bundle.json'') btext st1 = (Inr (), st2)"
    and i: "on_data (data_dir V fs) (\<lambda>d. ImportRequest (vStore V 0) d b) st2 = (Inr (), st')"
    using assms(1) by (auto simp: save_request_def and_then_ok wrapping_ok marshal_ok)
  have "get (csDisk (cliClient st2)) p = Some (File (Raw body))"
    using writeNewFile_ok(2) [OF w1] writeNewFile_keeps(1) [OF w2] by (simp add: p_def spares_def)
  then show thesis
    using t writeNewFile_ok(1) [OF w1] i writeNewFile_keeps(2) [OF w1] writeNewFile_keeps(2) [OF w2]
    by (intro that [of body]) (auto simp: p_def on_data_ok)
qed

lemma requestMake_ok:
  assumes "requestMake V args True st = (Inr (), st')"
  obtains fs seen left b key st1 where "parse_flags (vParsers V) make_flags [] args = Inr (fs, seen, left)"
    and "make_request V fs st = (Inr (b, key), st)"
    and "save_request V fs True b key st = (Inr (), st1)"
    and "cliClient st' = cliClient st1" and "cliData st' = cliData st1"
proof -
  have p: "parse_args V make_flags args st = (r, st0) \<Longrightarrow> st0 = st" for r st0
    using snd_parse_args [of V make_flags args st] by simp
  have m: "make_request V fs st = (r, st0) \<Longrightarrow> st0 = st" for fs r st0
    using make_request_state [of V fs st] by simp
  obtain fs seen st0 b key st1 st2 where "parse_args V make_flags args st = (Inr (fs, seen), st0)"
    and "make_request V fs st0 = (Inr (b, key), st1)" and "save_request V fs True b key st1 = (Inr (), st2)"
    and "st' = print_all V (make_report V fs True b key) st2"
    using assms by (auto simp: requestMake_def and_then_ok)
  moreover from this(1) obtain left where "parse_flags (vParsers V) make_flags [] args = Inr (fs, seen, left)"
    by (auto simp: parse_args_def failing_def split: sum.splits prod.splits)
  ultimately show thesis using that p m by (metis printed_all_state)
qed

text \<open>What the generators, the JSON codec and \<open>url.Parse\<close> of the empty string do: key pairs belong together,
  tokens are not empty, what was marshalled is read back.\<close>

definition working :: "cli_env \<Rightarrow> bool" where
  "working V \<longleftrightarrow> (\<forall>priv pub. drawKey (vDraws V) = Some (priv, pub) \<longrightarrow> NewPrivateKey_ok priv \<and> vPublic V priv = pub)
     \<and> drawSubmit (vDraws V) \<noteq> Some [] \<and> drawCollect (vDraws V) \<noteq> Some []
     \<and> (\<forall>k t. vKeyText V k = Some t \<longrightarrow> vKey V (trim_prefix byte_order_mark (t @ [newline])) = Some k)
     \<and> (\<forall>s h. vParseURL V [] = Some (s, h) \<longrightarrow> s = [])"

lemma RandomToken_ne: "RandomToken r = Inr t \<Longrightarrow> r \<noteq> Some [] \<Longrightarrow> t \<noteq> []"
proof -
  assume "RandomToken r = Inr t" "r \<noteq> Some []"
  then obtain b where "t = b64_encode b" "b \<noteq> []" by (auto simp: RandomToken_def split: option.splits)
  then show "t \<noteq> []" using length_b64_encode [of b] by (cases b) auto
qed

lemma made_key_checks:
  assumes "MakeRequest (vParseURL V) (vDraws V) url label now expires files bytes delete_it = Inr (b, key)"
    and "working V" and "ValidID (rbID b)"
  shows "check_key V key = Inr key"
proof -
  obtain rid sub col priv pub scheme host where m: "drawKey (vDraws V) = Some (priv, pub)" and b: "rbID b = rid"
    and k: "kfRequestID key = rid" "kfPublicKey key = b64_encode pub" "kfCollectToken key = col" "kfPrivateKey key = b64_encode priv"
      "kfSchemaVersion key = SchemaVersion"
    and tok: "RandomToken (drawCollect (vDraws V)) = Inr col"
    and u: "vParseURL V (kfServerURL key) = Some (scheme, host)" "scheme \<noteq> []"
    using assms(1) by (rule MakeRequest_fields) simp
  have ne: "col \<noteq> []" "kfServerURL key \<noteq> []"
    using RandomToken_ne [OF tok] assms(2) u unfolding working_def by fastforce+
  then show ?thesis using k m b assms(2,3) by (simp add: check_key_def b64_codec.dec_enc working_def)
qed


lemma demo_working: "working demo_cli"
proof -
  have "NewPrivateKey_ok (replicate 32 CHR ''k'')" by (rule demo_private)
  then show ?thesis by (simp add: working_def demo_draws_def demo_parse_def trim_prefix_def byte_order_mark_def)
qed


section \<open>What is sent\<close>

text \<open>Most calls send nothing.\<close>

definition idle :: "client_state \<Rightarrow> client_state \<Rightarrow> bool" where
  "idle st st' \<longleftrightarrow> csSent st' = csSent st \<and> csWire st' = csWire st"

lemma idle_refl [simp]: "idle st st"
  by (simp add: idle_def)

lemma idle_trans: "idle st st1 \<Longrightarrow> idle st1 st2 \<Longrightarrow> idle st st2"
  by (simp add: idle_def)

interpretation unsent: step_relation "\<lambda>st st'. idle (cliClient st) (cliClient st')"
  by unfold_locales (auto intro: idle_trans)

lemma idle_disk [simp]: "idle st (snd (on_disk W f st))"
  by (auto simp: idle_def on_disk_def split: prod.split)

lemma unsent_parts [simp]:
  "idle (cliClient st) (cliClient (snd (on_file V f st)))"
  "idle (cliClient st) (cliClient (snd (on_data data g st)))"
  "idle (cliClient st) (cliClient (snd (readJSON V decode name st)))"
  "idle (cliClient st) (cliClient (snd (loadKey V name st)))"
  "idle (cliClient st) (cliClient (snd (make_parent V p st)))"
proof -
  show "idle (cliClient st) (cliClient (snd (on_file V f st)))" for f by (simp add: on_file_state)
  from this [of "\<lambda>E d. os_mkdir_all E d (vPath V (vDir V p))"] show "idle (cliClient st) (cliClient (snd (make_parent V p st)))"
    by (auto simp: make_parent_def split: prod.split sum.split)
qed (simp_all add: idle_def on_data_state readJSON_state loadKey_state)

lemma unsent_write [simp]: "idle (cliClient st) (cliClient (snd (writeNewFile V name data st)))"
  unfolding writeNewFile_def Let_def
proof (intro unsent.and_then, simp, simp, goal_cases)
  case (1 x st1 y st2)
  define w where "w = and_then (on_file V (\<lambda>E d. os_append E d (vPath V name) data) st2) (\<lambda>_ st.
             and_then (on_file V (\<lambda>E d. os_sync E d (vPath V name)) st) (\<lambda>_ st. on_file V (\<lambda>E d. os_sync E d (vPath V name)) st))"
  have w: "idle (cliClient st2) (cliClient (snd w))" unfolding w_def by (intro unsent.and_then) simp_all
  then have "idle (cliClient st2) (cliClient (snd (on_file V (\<lambda>E d. os_remove E d (vPath V name)) (snd w))))"
    using idle_trans unsent_parts(1) by blast
  with w show ?case by (cases w; cases "fst w") (auto simp: w_def [symmetric])
qed

lemma unsent_commands [simp]:
  "idle (cliClient st) (cliClient (snd (initCommand V args st)))"
  "idle (cliClient st) (cliClient (snd (requestMake V args importToStore st)))"
  "idle (cliClient st) (cliClient (snd (requestImport V args st)))"
  "idle (cliClient st) (cliClient (snd (serveCommand V args st)))"
  "idle (cliClient st) (cliClient (snd (doctorCommand V args st)))"
  "idle (cliClient st) (cliClient (snd (purgeCommand V args st)))"
  unfolding initCommand_def requestMake_def save_request_def requestImport_def serveCommand_def doctorCommand_def
    purgeCommand_def Let_def
  by (auto intro!: unsent.and_then split: prod.split option.split)

lemma own_call_New [simp]: "own_call ((New key)\<lparr>clReadRetries := n\<rparr>) = own_call (New key)"
  by (simp add: own_call_def own_url_def fun_eq_iff split: call.split)

lemma own_call_mono: "own_call c posting call \<Longrightarrow> own_call c True call"
  by (auto simp: own_call_def split: call.splits)

lemma own_hop_New [simp]: "own_hop W ((New key)\<lparr>clReadRetries := n\<rparr>) = own_hop W (New key)"
  by (simp add: own_hop_def own_url_def fun_eq_iff split: call.split)

lemma own_hop_mono: "own_hop W c posting call \<Longrightarrow> own_hop W c True call"
  by (auto simp: own_hop_def split: call.splits)

text \<open>With \<open>--list\<close> nothing is written; without \<open>--no-ack\<close> nothing is posted.\<close>

lemma collect_with_sends:
  assumes "collect_with V fs key st = Some (r, st')"
  shows "sends (own_call (New key) (\<not> bool_flag fs ''list'' \<and> \<not> bool_flag fs ''no-ack'')) (cliClient st) (cliClient st')
    \<and> wires (own_hop (vClient V) (New key) (\<not> bool_flag fs ''list'' \<and> \<not> bool_flag fs ''no-ack'')) (cliClient st) (cliClient st')
    \<and> (bool_flag fs ''list'' \<longrightarrow> csDisk (cliClient st') = csDisk (cliClient st))"
proof (cases "bool_flag fs ''list''")
  case True
  then obtain o1 out cl where i: "Inspect ((New key)\<lparr>clReadRetries := int_flag fs ''read-retries''\<rparr>) (vClient V) (vCtx V) (vWait V) o1 (cliClient st) = Some (out, cl)"
    and pr: "print_list V (bool_flag fs ''all'') out (st\<lparr>cliClient := cl\<rparr>) = (r, st')"
    using assms by (auto simp: collect_with_def Let_def split: option.splits)
  have st': "cliClient st' = cl" using print_list_client [of V "bool_flag fs ''all''" out "st\<lparr>cliClient := cl\<rparr>"] pr by simp
  show ?thesis using sends.inspects [OF i, of False] wires.inspects [OF i, of False] quiet_disk [OF quiet.inspects [OF i]] True st' by simp
next
  case False
  then obtain o2 out cl where i: "Collect ((New key)\<lparr>clReadRetries := int_flag fs ''read-retries''\<rparr>) (vClient V) (vCtx V) (vWait V) (vPath V (string_flag fs ''out'')) o2 (cliClient st) = Some (out, cl)"
    and o2: "coAcknowledge o2 = (\<not> bool_flag fs ''no-ack'')" and st': "cliClient st' = cl"
    using assms by (auto simp: collect_with_def Let_def split: option.splits)
  show ?thesis using sends.collects [OF i o2] wires.collects [OF i o2] False st' by simp
qed

lemma loadKey_ok: "loadKey V name st = (Inr key, st1) \<Longrightarrow> check_key V key = Inr key"
  by (auto simp: loadKey_def and_then_ok failing_def check_key_def Let_def split: sum.splits option.splits if_splits)

lemma check_collect_ok:
  assumes "check_collect fs seen = Inr ()"
  shows "0 \<le> int_flag fs ''read-retries''" "int_flag fs ''read-retries'' \<le> 10"
    "0 \<le> duration_flag fs ''wait''" "duration_flag fs ''wait'' \<le> 24 * 60 * 60 * 10 ^ 9"
    "10 ^ 9 \<le> duration_flag fs ''poll-interval''" "duration_flag fs ''poll-interval'' \<le> 5 * 60 * 10 ^ 9"
    "''poll-interval'' \<in> set seen \<longrightarrow> duration_flag fs ''wait'' > 0" "bool_flag fs ''all'' \<longrightarrow> bool_flag fs ''list''"
    "list_all ValidID (list_flag fs ''upload'')"
  using assms by (auto simp: check_collect_def Let_def MaxReadRetries_def MaxWaitTimeout_def MinPollInterval_def
      MaxPollInterval_def nanos_per_second_def split: if_splits)

text \<open>A run of \<open>collect\<close> stops before it sends or writes anything, or its arguments and its key file are valid.\<close>

lemma collectCommand_steps:
  assumes "collectCommand V args st = Some (r, st')"
  obtains (stopped) "idle (cliClient st) (cliClient st')" "csDisk (cliClient st') = csDisk (cliClient st)" "cliOut st' = cliOut st" "r \<noteq> Inr ()"
  | (ran) fs seen key st1 where "parse_args V collect_flags args st = (Inr (fs, seen), st)" "check_collect fs seen = Inr ()"
      "loadKey V (string_flag fs ''key'') st = (Inr key, st1)" "collect_with V fs key st1 = Some (r, st')"
proof -
  obtain x st0 where p: "parse_args V collect_flags args st = (x, st0)" by fastforce
  have st0: "st0 = st" using snd_parse_args [of V collect_flags args st] p by simp
  show thesis
  proof (cases x)
    case (Inl e)
    then show thesis using assms p st0 by (intro stopped) (auto simp: collectCommand_def)
  next
    case (Inr y)
    obtain fs seen where y: "y = (fs, seen)" by fastforce
    obtain k st2 where l: "loadKey V (string_flag fs ''key'') st = (k, st2)" by fastforce
    have same: "idle (cliClient st) (cliClient st2)" "csDisk (cliClient st2) = csDisk (cliClient st)" "cliOut st2 = cliOut st"
      using loadKey_state [of V "string_flag fs ''key''" st] l by (simp_all add: idle_def)
    show thesis
      using assms p st0 Inr y l same stopped ran
      by (cases "check_collect fs seen"; cases k) (auto simp: collectCommand_def split: if_splits)
  qed
qed

text \<open>The key file that the arguments of a command name.\<close>

definition named_key :: "flag_error + (flags \<times> string list \<times> string list) \<Rightarrow> string option" where
  "named_key parsed = (case parsed of Inl e \<Rightarrow> None | Inr (fs, seen, left) \<Rightarrow> Some (string_flag fs ''key''))"

definition key_flag :: "cli_env \<Rightarrow> string list \<Rightarrow> string option" where
  "key_flag V args =
     (case args of
        [] \<Rightarrow> None
      | a # args \<Rightarrow>
          if a = ''collect'' then named_key (parse_flags (vParsers V) collect_flags [] args)
          else if a = ''request'' \<and> args \<noteq> [] \<and> hd args = ''close''
          then named_key (parse_flags (vParsers V) [(''key'', StringV [])] [] (tl args))
          else None)"

lemma parsed_key: "parse_args V flags args st = (Inr (fs, seen), st') \<Longrightarrow> named_key (parse_flags (vParsers V) flags [] args) = Some (string_flag fs ''key'')"
  by (auto simp: parse_args_def failing_def named_key_def split: sum.splits prod.splits)

text \<open>What is sent between two states is nothing, or the business of the key in the file of the given name.\<close>

definition confined :: "cli_env \<Rightarrow> string option \<Rightarrow> cli_state \<Rightarrow> cli_state \<Rightarrow> bool" where
  "confined V name st st' \<longleftrightarrow> (\<exists>calls hops. csSent (cliClient st') = csSent (cliClient st) @ calls
     \<and> csWire (cliClient st') = csWire (cliClient st) @ hops
     \<and> (calls = [] \<and> hops = [] \<or> (\<exists>file key st1. name = Some file \<and> loadKey V file st = (Inr key, st1)
         \<and> list_all (own_call (New key) True) calls \<and> list_all (own_hop (vClient V) (New key) True) hops)))"

lemma confined_idle: "idle (cliClient st) (cliClient st') \<Longrightarrow> confined V name st st'"
  by (simp add: confined_def idle_def)

lemma confined_key:
  assumes "loadKey V f st = (Inr key, st1)" and "sends (own_call (New key) posting) (cliClient st1) (cliClient st')"
    and "wires (own_hop (vClient V) (New key) posting) (cliClient st1) (cliClient st')"
  shows "confined V (Some f) st st'"
proof -
  have "idle (cliClient st) (cliClient st1)" using unsent_parts(4) [of st V f] assms(1) by simp
  then obtain calls hops where "csSent (cliClient st') = csSent (cliClient st) @ calls" "list_all (own_call (New key) posting) calls"
      "csWire (cliClient st') = csWire (cliClient st) @ hops" "list_all (own_hop (vClient V) (New key) posting) hops"
    using assms(2,3) by (auto simp: sends_def wires_def idle_def)
  moreover from this have "list_all (own_call (New key) True) calls" "list_all (own_hop (vClient V) (New key) True) hops"
    using own_call_mono own_hop_mono unfolding list_all_iff by blast+
  ultimately show ?thesis using assms(1) unfolding confined_def
    by (intro exI [of _ calls] exI [of _ hops] conjI disjI2 exI [of _ f] exI [of _ key] exI [of _ st1]) simp_all
qed

lemma confined_same: "confined V name st st1 \<Longrightarrow> cliClient st' = cliClient st1 \<Longrightarrow> confined V name st st'"
  by (simp add: confined_def)

lemma confined_close: "confined V (named_key (parse_flags (vParsers V) [(''key'', StringV [])] [] args)) st (snd (requestClose V args st))"
proof -
  obtain x st0 where p0: "parse_args V [(''key'', StringV [])] args st = (x, st0)" by fastforce
  then have p: "parse_args V [(''key'', StringV [])] args st = (x, st)"
    using snd_parse_args [of V "[(''key'', StringV [])]" args st] by simp
  show ?thesis
  proof (cases x)
    case (Inr y)
    obtain fs seen where y: "y = (fs, seen)" by fastforce
    have n: "named_key (parse_flags (vParsers V) [(''key'', StringV [])] [] args) = Some (string_flag fs ''key'')"
      using p Inr y parsed_key by blast
    obtain k st2 where l: "loadKey V (string_flag fs ''key'') st = (k, st2)" by fastforce
    have i: "idle (cliClient st) (cliClient st2)" using unsent_parts(4) [of st V "string_flag fs ''key''"] l by simp
    show ?thesis unfolding n
    proof (cases k)
      case k: (Inr key)
      obtain cl st3 where c: "on_client (client_CloseRequest (New key) (vClient V)) st2 = (cl, st3)" by fastforce
      have st3: "cliClient st3 = snd (client_CloseRequest (New key) (vClient V) (cliClient st2))"
        using on_client_state [of "client_CloseRequest (New key) (vClient V)" st2] c by simp
      have "confined V (Some (string_flag fs ''key'')) st st3"
        by (rule confined_key [OF l [unfolded k], where posting = True]) (simp_all add: st3 sends.closes wires.closes)
      then show "confined V (Some (string_flag fs ''key'')) st (snd (requestClose V args st))"
        using p Inr y l k c confined_same [of V "Some (string_flag fs ''key'')" st st3] confined_idle [OF idle_refl]
        by (cases cl) (auto simp: requestClose_def)
    qed (use p Inr y l i confined_idle in \<open>simp add: requestClose_def\<close>)
  qed (use p confined_idle in \<open>simp add: requestClose_def\<close>)
qed

lemma confined_collect:
  assumes "collectCommand V args st = Some (r, st')"
  shows "confined V (named_key (parse_flags (vParsers V) collect_flags [] args)) st st'"
  using assms
proof (cases rule: collectCommand_steps)
  case stopped
  then show ?thesis using confined_idle by simp
next
  case (ran fs seen key st1)
  show ?thesis
    unfolding parsed_key [OF ran(1)] using confined_key [OF ran(3)] collect_with_sends [OF ran(4)] by blast
qed

lemma confined_request: "confined V (key_flag V (''request'' # args)) st (snd (requestCommand V args st))"
proof (cases "args \<noteq> [] \<and> hd args = ''close''")
  case True
  then show ?thesis by (cases args) (simp_all add: key_flag_def requestCommand_def confined_close)
next
  case False
  then have "idle (cliClient st) (cliClient (snd (requestCommand V args st)))" by (auto simp: requestCommand_def split: list.split)
  then show ?thesis by (rule confined_idle)
qed

text \<open>C16: The collect token stays with its server, whatever the servers answer. What a command sends belongs to the
  key file that its arguments name and that \<open>loadKey\<close> accepted: all calls of \<open>http.Client.Do\<close> carry its collect token to
  URLs below the collect URL of the server and the request that it names. On the wire, with the redirects that \<open>GET\<close>
  requests follow, the token goes only to such URLs or to the host of one or a subdomain of it; requests elsewhere are
  \<open>GET\<close> requests without a token, and a \<open>POST\<close> is sent only below the collect URL. All commands but \<open>collect\<close> and
  \<open>request close\<close> name no key file and send nothing.\<close>

theorem token_confined:
  assumes "run V args st = Some (r, st')"
  shows "\<exists>calls hops. csSent (cliClient st') = csSent (cliClient st) @ calls \<and> csWire (cliClient st') = csWire (cliClient st) @ hops
    \<and> (calls = [] \<and> hops = [] \<or> (\<exists>file key st1. key_flag V args = Some file \<and> loadKey V file st = (Inr key, st1)
        \<and> list_all (own_call (New key) True) calls \<and> list_all (own_hop (vClient V) (New key) True) hops))"
proof -
  have "confined V (key_flag V args) st st'"
  proof (cases args)
    case (Cons a rest)
    consider (request) "a = ''request''" | (collect) "a = ''collect''" | (other) "a \<noteq> ''request''" "a \<noteq> ''collect''" by blast
    then show ?thesis
    proof cases
      case request
      then have "st' = snd (requestCommand V rest st)" using assms Cons by (simp add: run_def)
      then show ?thesis using confined_request [of V rest st] request Cons by simp
    next
      case collect
      then have "collectCommand V rest st = Some (r, st')" using assms Cons by (simp add: run_def)
      then show ?thesis using confined_collect collect Cons by (simp add: key_flag_def)
    next
      case other
      define G where "G x \<longleftrightarrow> (\<forall>r st'. x = Some (r, st') \<longrightarrow> idle (cliClient st) (cliClient st'))"
        for x :: "((cli_error + unit) \<times> cli_state) option"
      have quiet: "G (Some x)" if "idle (cliClient st) (cliClient (snd x))" for x using that by (cases x) (simp add: G_def)
      have either: "G (if b then x else y)" if "b \<Longrightarrow> G x" "G y" for b x y using that by simp
      have "G (run V args st)"
        unfolding run_def Cons list.case by (intro either quiet) (use other in \<open>simp_all add: usage_command_def\<close>)
      then have "idle (cliClient st) (cliClient st')" using assms by (simp add: G_def)
      then show ?thesis by (rule confined_idle)
    qed
  qed (use assms confined_idle in \<open>auto simp: run_def usage_command_def\<close>)
  then show ?thesis by (simp add: confined_def)
qed

lemma demo_loaded: "\<exists>st1. loadKey demo_cli ''k.json'' demo_user = (Inr (snd demo_pair), st1) \<and> csWire (cliClient st1) = []"
proof -
  have "MakeRequest (vParseURL demo_cli) (vDraws demo_cli) ''https://h'' ''files'' (Time 10)
     (time_add (Time 10) (86400 * nanos_per_second)) 10 (2 ^ 31) False = Inr (fst demo_pair, snd demo_pair)"
    using demo_pair_made by simp
  then have c: "check_key demo_cli (snd demo_pair) = Inr (snd demo_pair)"
    using demo_working demo_rid_valid by (rule made_key_checks)
  have quiet: "no_faults (ceOS demo_web t)" for t by (simp add: demo_web_def)
  have p: "trim_prefix byte_order_mark (''key'' @ [newline]) = ''key'' @ [newline]"
    by (simp add: trim_prefix_def byte_order_mark_def)
  have "csWire (cliClient demo_user) = []" by (simp add: demo_user_def demo_home_def)
  then show ?thesis using quiet c p loadKey_state(5) [of demo_cli "''k.json''" demo_user]
    by (cases "loadKey demo_cli ''k.json'' demo_user")
      (auto simp: loadKey_def readJSON_def and_then_def on_file_def on_disk_def os_read_file_def no_faults_def failing_def demo_user_def get_def)
qed

theorem token_confined_witness:
  "\<exists>r st' hop. run demo_cli [''request'', ''close'', ''--key=k.json''] demo_user = Some (r, st') \<and> csWire (cliClient st') = [hop]
    \<and> (\<exists>file key st1. key_flag demo_cli [''request'', ''close'', ''--key=k.json''] = Some file
      \<and> loadKey demo_cli file demo_user = (Inr key, st1) \<and> own_hop (vClient demo_cli) (New key) True hop)"
proof -
  have "case parse_flags \<lparr>paInt = (\<lambda>_. None), paDuration = (\<lambda>_. None)\<rparr> [(''key'', StringV [])] [] [''--key=k.json''] of
      Inl e \<Rightarrow> False | Inr (fs, seen, left) \<Rightarrow> left = [] \<and> string_flag fs ''key'' = ''k.json''"
    by code_simp
  then obtain fs seen where p: "parse_args demo_cli [(''key'', StringV [])] [''--key=k.json''] demo_user = (Inr (fs, seen), demo_user)"
    and name: "string_flag fs ''key'' = ''k.json''"
    by (auto simp: parse_args_def failing_def split: sum.splits prod.splits)
  obtain st1 where l: "loadKey demo_cli ''k.json'' demo_user = (Inr (snd demo_pair), st1)" "csWire (cliClient st1) = []"
    using demo_loaded by blast
  obtain e st2 where c: "on_client (client_CloseRequest (New (snd demo_pair)) demo_web) st1 = (Inl e, st2)"
    and w: "length (csWire (cliClient st2)) = 1"
    using l(2) by (simp add: on_client_def client_CloseRequest_def jsonRequest_def and_then_def send_def exchange_def advance_def
        reply_with_def failing_def read_limited_def maxJSONResponse_def wrap64_def demo_web_def)
  have r: "run demo_cli [''request'', ''close'', ''--key=k.json''] demo_user = Some (Inl e, st2)"
    using p name l c by (simp add: run_def requestCommand_def requestClose_def and_then_def)
  obtain hop where h: "csWire (cliClient st2) = [hop]" using w by (cases "csWire (cliClient st2)") auto
  have "csWire (cliClient demo_user) = []" by (simp add: demo_user_def demo_home_def)
  with token_confined [OF r] h r show ?thesis by auto
qed

text \<open>C18: \<open>collect\<close> does what its flags say: it fails without a request, a change of the user's files or a line of
  output unless all its arguments are in their ranges and the key file holds a matching key pair; with \<open>--list\<close>
  it writes no file, and with \<open>--list\<close> or \<open>--no-ack\<close> it sends nothing but \<open>GET\<close> requests.\<close>

theorem collect_acts_as_told:
  assumes "run V (''collect'' # args) st = Some (r, st')"
  shows "csSent (cliClient st') = csSent (cliClient st) \<and> csDisk (cliClient st') = csDisk (cliClient st) \<and> cliOut st' = cliOut st
      \<and> exit_status r = 1
    \<or> (\<exists>fs seen left key st1. parse_flags (vParsers V) collect_flags [] args = Inr (fs, seen, left)
      \<and> loadKey V (string_flag fs ''key'') st = (Inr key, st1) \<and> check_key V key = Inr key
      \<and> 0 \<le> int_flag fs ''read-retries'' \<and> int_flag fs ''read-retries'' \<le> 10
      \<and> 0 \<le> duration_flag fs ''wait'' \<and> duration_flag fs ''wait'' \<le> 24 * 60 * 60 * 10 ^ 9
      \<and> 10 ^ 9 \<le> duration_flag fs ''poll-interval'' \<and> duration_flag fs ''poll-interval'' \<le> 5 * 60 * 10 ^ 9
      \<and> (''poll-interval'' \<in> set seen \<longrightarrow> duration_flag fs ''wait'' > 0) \<and> (bool_flag fs ''all'' \<longrightarrow> bool_flag fs ''list'')
      \<and> list_all ValidID (list_flag fs ''upload'')
      \<and> (bool_flag fs ''list'' \<longrightarrow> csDisk (cliClient st') = csDisk (cliClient st))
      \<and> (bool_flag fs ''list'' \<or> bool_flag fs ''no-ack'' \<longrightarrow> sends is_get_call (cliClient st) (cliClient st')))"
proof -
  have "collectCommand V args st = Some (r, st')" using assms by (simp add: run_def)
  then show ?thesis
  proof (cases rule: collectCommand_steps)
    case stopped
    then show ?thesis by (cases r) (simp_all add: exit_status_def idle_def)
  next
    case (ran fs seen key st1)
    obtain left where p: "parse_flags (vParsers V) collect_flags [] args = Inr (fs, seen, left)"
      using ran(1) by (auto simp: parse_args_def failing_def split: sum.splits prod.splits)
    have k: "check_key V key = Inr key" using loadKey_ok [OF ran(3)] .
    note same = loadKey_state(1,2) [of V "string_flag fs ''key''" st] 
    have w: "sends (own_call (New key) (\<not> bool_flag fs ''list'' \<and> \<not> bool_flag fs ''no-ack'')) (cliClient st) (cliClient st')"
      "bool_flag fs ''list'' \<longrightarrow> csDisk (cliClient st') = csDisk (cliClient st)"
      using collect_with_sends [OF ran(4)] same ran(3) by (simp_all add: sends_def)
    have g: "sends is_get_call (cliClient st) (cliClient st')" if "bool_flag fs ''list'' \<or> bool_flag fs ''no-ack''"
    proof -
      have "own_call (New key) False call \<Longrightarrow> is_get_call call" for call by (simp add: own_call_def is_get_call_def split: call.splits)
      moreover have "sends (own_call (New key) False) (cliClient st) (cliClient st')" using w(1) that by (cases "bool_flag fs ''list''") simp_all
      ultimately show ?thesis unfolding sends_def list_all_iff by blast
    qed
    show ?thesis
      using p ran(2,3) k w(2) g check_collect_ok [OF ran(2)] by blast
  qed
qed

theorem collect_acts_as_told_witness:
  "\<exists>r st'. run demo_cli [''collect'', ''--list'', ''--key=k.json''] demo_user = Some (r, st')
    \<and> csDisk (cliClient st') = csDisk (cliClient demo_user)"
proof -
  obtain r st' where r: "run demo_cli [''collect'', ''--list'', ''--key=k.json''] demo_user = Some (r, st')"
    using run_kept [OF demo_sound] by blast
  have "case parse_flags \<lparr>paInt = (\<lambda>_. None), paDuration = (\<lambda>_. None)\<rparr> collect_flags [] [''--list'', ''--key=k.json''] of
      Inl e \<Rightarrow> False | Inr (fs, seen, left) \<Rightarrow> bool_flag fs ''list''"
    by code_simp
  then have "bool_flag fs ''list''" if "parse_flags (vParsers demo_cli) collect_flags [] [''--list'', ''--key=k.json''] = Inr (fs, seen, left)" for fs seen left
    using that by simp
  then have "csDisk (cliClient st') = csDisk (cliClient demo_user)" using collect_acts_as_told [OF r] by blast
  then show ?thesis using r by blast
qed

end
