(* ===== verification/Spec2Isabelle.thy ===== *)
theory Spec2Isabelle
  imports CoreClaims StorePurge StoreAccess FilenameLimits ServerClaims EndToEnd CommandClaims
begin

text \<open>
  OpaqueDrop, a server for encrypted file drops, as executable definitions with proofs.

  The program. A recipient makes a request (\<open>core.MakeRequest\<close>): a bundle for the server and a key file
  that stays with the recipient. The server keeps bundles, uploads, receipts and closure records as
  files below one data directory (\<open>internal/store/store.go\<close>). A submitter encrypts in the browser and
  sends a manifest and chunks; the server (\<open>internal/server\<close>) checks the capability of each request, counts
  wrong guesses per client address, and stores what it accepts; completion gives a receipt. The
  recipient's client (\<open>internal/collector/collector.go\<close>) lists, downloads, decrypts
  (\<open>internal/cryptobox/cryptobox.go\<close>), saves and acknowledges uploads, and may close the request. The
  program \<open>cmd/opaquedrop/main.go\<close> offers all of it as commands.

  The theories.
    \<^item> \<open>Prelude\<close>: results as sums, 64-bit wrap-around, the interfaces \<open>codec\<close>, \<open>invariant_system\<close>,
      \<open>monotone_system\<close> and \<open>step_relation\<close> (what a chain of calls keeps).
    \<^item> \<open>GoStrings\<close>, \<open>GoText\<close>, \<open>Codecs\<close>, \<open>Sha256\<close>: what the code uses of Go's standard library: UTF-8,
      trimming, base names, hexadecimal, unpadded base64url, decimal numbers, SHA-256. All are concrete.
    \<^item> \<open>Model\<close>: \<open>internal/model/model.go\<close>, one record per struct.
    \<^item> \<open>Filename\<close>, \<open>FilenameLimits\<close>, \<open>Core\<close>: \<open>internal/core/core.go\<close>.
    \<^item> \<open>Cryptobox\<close>: \<open>internal/cryptobox/cryptobox.go\<close>.
    \<^item> \<open>Files\<close>: package \<open>os\<close> as the store uses it, on a table from paths to nodes, with the interface
      \<open>file_table\<close>; every call can fail as the environment says.
    \<^item> \<open>StoreCheck\<close>, \<open>StoreRead\<close>, \<open>StoreWrite\<close>: \<open>internal/store/store.go\<close>, the checks and paths, the
      operations that read, the operations that write.
    \<^item> \<open>StoreFrame\<close>, \<open>StoreComplete\<close>, \<open>StoreInv\<close>, \<open>StoreSystem\<close>: what each operation can change (interface
      \<open>frame\<close>), the loop of \<open>Complete\<close>, what each file may hold, the tree and the finality of closures.
    \<^item> \<open>StoreRuns\<close>, \<open>StoreQuota\<close>: runs of the store as a step relation in which callers act with bundles
      they read earlier; the accounting of the quota, which holds but for beginnings of uploads that
      \<open>usage\<close> misled because it skips states that it cannot read (\<open>undercounted\<close>); what becomes of the bundles
      in such a run is one more \<open>monotone_system\<close> (\<open>StoreAccess\<close>).
    \<^item> \<open>Demo\<close>: one concrete upload from import to receipt, for the witnesses.
    \<^item> \<open>Limiter\<close>: \<open>internal/server/limiter.go\<close>; \<open>Netip\<close>, \<open>ClientIP\<close>: addresses and prefixes as \<open>net/netip\<close> has
      them, and \<open>internal/server/client_ip.go\<close>.
    \<^item> \<open>Server\<close>, \<open>ServerRuns\<close>: \<open>internal/server/server.go\<close>, from the route of a request to the response and
      the next state; what runs of requests keep.
    \<^item> \<open>Client\<close>, \<open>Collector\<close>: \<open>internal/collector/collector.go\<close>, reads with retries and waiting, then collecting,
      publishing and inspecting; \<open>ClientRuns\<close>, \<open>CollectorRuns\<close>, \<open>CollectorCalls\<close>, \<open>CollectorLive\<close>: what these
      send and to whom, what they do to the recipient's disk, and when they succeed. The interfaces
      \<open>client_steps\<close>, \<open>collecting\<close> and \<open>sending\<close> carry a relation from the steps of the client to its operations.
    \<^item> \<open>EndToEnd\<close>: the client against the server over a network that carries requests and answers.
    \<^item> \<open>Flags\<close>, \<open>CommandLine\<close>: package \<open>flag\<close> and \<open>cmd/opaquedrop/main.go\<close>, one definition per command over the
      user's files, the data directories and the client; \<open>CommandRuns\<close>: every command returns, adds files only and
      changes a data directory by steps of the store; \<open>CommandDemo\<close>: one concrete \<open>request create\<close>.
    \<^item> \<open>CoreClaims\<close>, \<open>StoreSafety\<close>, \<open>StoreBehaviour\<close>, \<open>StoreUploads\<close>, \<open>StorePurge\<close>, \<open>StoreAccess\<close>, \<open>ServerClaims\<close>,
      \<open>CollectorClaims\<close>, \<open>EndToEnd\<close>, \<open>CommandClaims\<close>, and the ends of \<open>Limiter\<close> and \<open>ClientIP\<close>: the properties.

  How state and operations correspond. The data directory is a value of type \<open>disk\<close>; an operation of
  \<open>Store\<close> that writes is a function from the disk to its result and the disk after it. A Go error is
  \<open>Inl\<close>. What lies around a call is the record \<open>env\<close>: the clock (read once per operation), which calls on
  which paths fail, the JSON decoder for manifests. A JSON file that the server writes is the value it
  encodes (the round trip of \<open>encoding/json\<close> on the server's own structs is assumed); a file whose bytes
  come from a client holds those bytes. Operations that hold the mutex are single steps; the steps of
  different callers interleave between authentication and action. A server is its data directory and its
  table of failures; a request is served in one step whose calls each see their own environment. The
  client's state is its disk, its clock and the logs of requests and sleeps; \<open>csSent\<close> has the calls of
  \<open>http.Client.Do\<close>, \<open>csWire\<close> the requests on the wire, because \<open>GET\<close> requests follow redirects (\<open>follow\<close>, as
  \<open>net/http\<close> does, with its rule for the \<open>Authorization\<close> header) and \<open>POST\<close> requests do not; every look at the network,
  the clock, the context or the disk is one tick, and the record \<open>client_env\<close> says what each tick finds. A
  command is a function of its environment (\<open>cli_env\<close>), its arguments and the state \<open>cli_state\<close>: the files of
  the user, the data directories by name (a table apart from those files) and the lines printed so far.

  Bounds. Integers are \<open>int\<close> with the wrap-around of 64 bits written out (\<open>wrap64\<close>). Loops are recursions
  over a list that the code fixes beforehand (chunk indices, directory entries, blocks of a message) or
  over the attempts that are left (reads, names for a file). The loop of \<open>WaitForReceipts\<close> has no such
  bound: it is a partial function, and that it returns is a theorem (the clock nears the deadline).

  Not modelled. \<open>Listen\<close> and the listening socket (the requests that arrive are an argument of \<open>serveCommand\<close>);
  number and duration syntax of flags, JSON texts, \<open>path/filepath\<close> and time formats (arguments); the texts of
  errors and the usage that package \<open>flag\<close> prints; a file of the user that lies in a data directory; the path cleaning of \<open>http.ServeMux\<close>; running out of memory; file
  modes and the names of the server's temporary files, which no result depends on; two operations that
  overlap outside the mutex (\<open>ImportRequest\<close>, the reads before a lock) other than by authentication; other
  programs that write into the directories at the same time; the browser client, which is JavaScript.
\<close>

end
